(* ===== verification/Cog_Prelude.thy ===== *)
theory Cog_Prelude
  imports Main "HOL-Library.Word"
begin

unbundle bit_operations_syntax

text \<open>
  Shared vocabulary of the development: the exceptions the server throws or lets through, the
  part of the C++ standard library the components use on byte strings (\<^verbatim>\<open>std::string\<close> is a
  \<^typ>\<open>string\<close>, a list of 8-bit characters), bytes as 8-bit words, decimal numbers, and the
  generic lemmas on lists and words that the component theories share.
\<close>

named_theorems cog_defs \<open>definitions the component proofs unfold\<close>
named_theorems str_simps \<open>facts about the standard string operations\<close>

section \<open>Exceptions\<close>

text \<open>
  The exceptions that reach code of the repository. \<open>Sys_eof\<close> and its companions are the
  \<^verbatim>\<open>std::system_error\<close> codes that \<^verbatim>\<open>ServerSocket::handle_connection\<close> tells apart;
  \<open>Assert_fail\<close> is a failed \<^verbatim>\<open>OC_ASSERT\<close> or \<^verbatim>\<open>assert\<close>.
\<close>

datatype sys_code = Sys_eof | Sys_connection_reset | Sys_not_connected | Sys_bad_descriptor | Sys_other

datatype exn =
    Silent_exception
  | System_error sys_code
  | Out_of_range
  | Invalid_argument
  | Canceled
  | Null_pointer
  | Runtime_exception string
  | Assert_fail

type_synonym 'a res = "exn + 'a"

definition res_bind :: "'a res \<Rightarrow> ('a \<Rightarrow> 'b res) \<Rightarrow> 'b res" where
  "res_bind r f = (case r of Inl e \<Rightarrow> Inl e | Inr a \<Rightarrow> f a)"

lemma res_bind_simps [simp]:
  "res_bind (Inl e) f = Inl e"
  "res_bind (Inr a) f = f a"
  by (simp_all add: res_bind_def)

lemma res_bind_Inr_iff:
  "res_bind r f = Inr b \<longleftrightarrow> (\<exists>a. r = Inr a \<and> f a = Inr b)"
  by (cases r) auto

lemma res_bind_Inl_iff:
  "res_bind r f = Inl e \<longleftrightarrow> r = Inl e \<or> (\<exists>a. r = Inr a \<and> f a = Inl e)"
  by (cases r) auto

section \<open>Actions: state with exceptions\<close>

text \<open>
  A method that works on an object of type \<open>'s\<close>, returns an \<open>'a\<close> and may throw: the state
  reached is kept when it throws, as C++ keeps what was assigned before a throw.
\<close>

type_synonym ('s, 'a) act = "'s \<Rightarrow> 'a res \<times> 's"

definition act_ret :: "'a \<Rightarrow> ('s, 'a) act" where
  "act_ret a = (\<lambda>s. (Inr a, s))"

definition act_throw :: "exn \<Rightarrow> ('s, 'a) act" where
  "act_throw e = (\<lambda>s. (Inl e, s))"

definition act_bind :: "('s, 'a) act \<Rightarrow> ('a \<Rightarrow> ('s, 'b) act) \<Rightarrow> ('s, 'b) act" where
  "act_bind m f = (\<lambda>s. case m s of (Inl e, s') \<Rightarrow> (Inl e, s') | (Inr a, s') \<Rightarrow> f a s')"

definition act_seq :: "('s, unit) act \<Rightarrow> ('s, 'b) act \<Rightarrow> ('s, 'b) act" where
  "act_seq m n = act_bind m (\<lambda>_. n)"

definition act_mod :: "('s \<Rightarrow> 's) \<Rightarrow> ('s, unit) act" where
  "act_mod f = (\<lambda>s. (Inr (), f s))"

definition act_of_res :: "'a res \<Rightarrow> ('s, 'a) act" where
  "act_of_res r = (\<lambda>s. (r, s))"

lemma act_simps [simp]:
  "act_ret a s = (Inr a, s)"
  "act_throw e s = (Inl e, s)"
  "act_mod f s = (Inr (), f s)"
  "act_of_res r s = (r, s)"
  by (simp_all add: act_ret_def act_throw_def act_mod_def act_of_res_def)

lemma act_bind_apply:
  "act_bind m f s = (case m s of (Inl e, s') \<Rightarrow> (Inl e, s') | (Inr a, s') \<Rightarrow> f a s')"
  by (simp add: act_bind_def)

lemma act_bind_Inr [simp]: "m s = (Inr a, s') \<Longrightarrow> act_bind m f s = f a s'"
  by (simp add: act_bind_def)

lemma act_bind_Inl [simp]: "m s = (Inl e, s') \<Longrightarrow> act_bind m f s = (Inl e, s')"
  by (simp add: act_bind_def)

lemma act_seq_Inr [simp]: "m s = (Inr (), s') \<Longrightarrow> act_seq m n s = n s'"
  by (simp add: act_seq_def)

lemma act_seq_Inl [simp]: "m s = (Inl e, s') \<Longrightarrow> act_seq m n s = (Inl e, s')"
  by (simp add: act_seq_def)

section \<open>Bytes\<close>

type_synonym byte = "8 word"

definition byte_of :: "char \<Rightarrow> byte" where
  "byte_of c = of_char c"

definition chr_of :: "byte \<Rightarrow> char" where
  "chr_of w = char_of (unat w)"

lemma unat_byte_of [simp]: "unat (byte_of c) = of_char c"
proof -
  have "(of_char c :: byte) = of_nat (of_char c)"
    by (simp only: of_nat_of_char)
  moreover have "of_char c < (256::nat)"
    by (rule nat_of_char_less_256)
  ultimately show ?thesis
    by (simp add: byte_of_def unat_of_nat)
qed

lemma chr_of_byte_of [simp]: "chr_of (byte_of c) = c"
  by (simp add: chr_of_def)

lemma byte_of_chr_of [simp]: "byte_of (chr_of w) = w"
proof -
  have "unat w < 256"
    using unsigned_less [of w] by simp
  then have "unat (byte_of (chr_of w)) = unat w"
    by (simp add: chr_of_def of_char_of)
  then show ?thesis
    by (simp only: word_unat_eq_iff)
qed

lemma chr_of_inject [simp]: "chr_of a = chr_of b \<longleftrightarrow> a = b"
  by (metis byte_of_chr_of)

lemma byte_of_inject [simp]: "byte_of a = byte_of b \<longleftrightarrow> a = b"
  by (metis chr_of_byte_of)

lemma map_chr_byte [simp]: "map (\<lambda>c. chr_of (byte_of c)) s = s"
  by simp

lemma unat_drop_bit: "unat (drop_bit k (w :: 'a :: len word)) = unat w div 2 ^ k"
proof -
  have "unat w < 2 ^ LENGTH('a)"
    by (rule unsigned_less)
  then have "take_bit LENGTH('a) (unat w) = unat w"
    by (rule take_bit_nat_eq_self)
  then have "unat (drop_bit k w) = drop_bit k (unat w)"
    by (simp only: unsigned_drop_bit_eq)
  then show ?thesis
    by (simp only: drop_bit_eq_div)
qed

section \<open>Standard string operations\<close>

text \<open>\<^verbatim>\<open>s.compare(0, strlen(p), p) == 0\<close>: \<open>p\<close> is a prefix of \<open>s\<close>.\<close>

definition starts_with :: "string \<Rightarrow> string \<Rightarrow> bool" where
  "starts_with p s \<longleftrightarrow> take (length p) s = p"

text \<open>\<^verbatim>\<open>s.find(c, pos)\<close>, with \<^verbatim>\<open>npos\<close> as \<^const>\<open>None\<close>.\<close>

fun find_chr :: "char \<Rightarrow> string \<Rightarrow> nat option" where
  "find_chr c [] = None"
| "find_chr c (x # xs) = (if x = c then Some 0 else map_option Suc (find_chr c xs))"

definition find_from :: "char \<Rightarrow> nat \<Rightarrow> string \<Rightarrow> nat option" where
  "find_from c pos s = map_option (\<lambda>i. pos + i) (find_chr c (drop pos s))"

text \<open>\<^verbatim>\<open>s.rfind(c)\<close>: the last position of \<open>c\<close>.\<close>

fun rfind_chr :: "char \<Rightarrow> string \<Rightarrow> nat option" where
  "rfind_chr c [] = None"
| "rfind_chr c (x # xs) =
     (case rfind_chr c xs of Some i \<Rightarrow> Some (Suc i) | None \<Rightarrow> if x = c then Some 0 else None)"

text \<open>\<^verbatim>\<open>s.find(sub)\<close> for a string argument.\<close>

fun find_str :: "string \<Rightarrow> string \<Rightarrow> nat option" where
  "find_str sub [] = (if sub = [] then Some 0 else None)"
| "find_str sub (x # xs) =
     (if starts_with sub (x # xs) then Some 0 else map_option Suc (find_str sub xs))"

text \<open>
  \<^verbatim>\<open>s.substr(pos, n)\<close> throws \<^verbatim>\<open>std::out_of_range\<close> when \<open>pos\<close> is beyond the end; \<open>n = None\<close>
  is \<^verbatim>\<open>npos\<close> (and any count that wraps around below zero, which is larger than the string).
\<close>

definition substr :: "string \<Rightarrow> nat \<Rightarrow> nat option \<Rightarrow> string res" where
  "substr s pos n =
     (if pos > length s then Inl Out_of_range
      else Inr (case n of None \<Rightarrow> drop pos s | Some k \<Rightarrow> take k (drop pos s)))"

text \<open>The C string at \<^verbatim>\<open>s.c_str()\<close> ends at the first NUL byte.\<close>

definition c_str :: "string \<Rightarrow> string" where
  "c_str s = takeWhile (\<lambda>c. c \<noteq> CHR 0x00) s"

text \<open>\<^verbatim>\<open>snprintf(buf, n, ...)\<close> keeps at most \<open>n - 1\<close> characters.\<close>

definition snprintf :: "nat \<Rightarrow> string \<Rightarrow> string" where
  "snprintf n s = take (n - 1) s"

definition crlf :: string where
  "crlf = [CHR 0x0D, CHR 0x0A]"

definition nl :: string where
  "nl = [CHR 0x0A]"

subsection \<open>Decimal numbers\<close>

definition digit_chr :: "nat \<Rightarrow> char" where
  "digit_chr d = char_of (48 + d :: nat)"

fun show_nat :: "nat \<Rightarrow> string" where
  "show_nat n = (if n < 10 then [digit_chr n] else show_nat (n div 10) @ [digit_chr (n mod 10)])"

declare show_nat.simps [simp del]

definition show_int :: "int \<Rightarrow> string" where
  "show_int i = (if i < 0 then CHR ''-'' # show_nat (nat (- i)) else show_nat (nat i))"

definition is_digit :: "char \<Rightarrow> bool" where
  "is_digit c \<longleftrightarrow> 48 \<le> (of_char c :: nat) \<and> (of_char c :: nat) \<le> 57"

definition digit_val :: "char \<Rightarrow> nat" where
  "digit_val c = of_char c - 48"

definition digits_val :: "string \<Rightarrow> nat" where
  "digits_val ds = foldl (\<lambda>v c. 10 * v + digit_val c) 0 ds"

text \<open>\<^verbatim>\<open>isspace\<close> in the C locale: space, and the characters 9 to 13.\<close>

definition is_space :: "char \<Rightarrow> bool" where
  "is_space c \<longleftrightarrow> of_char c = (32::nat) \<or> (9 \<le> (of_char c :: nat) \<and> (of_char c :: nat) \<le> 13)"

text \<open>
  The number \<^verbatim>\<open>strtol\<close> reads at the start of a string: white space, a sign, digits;
  \<^const>\<open>None\<close> when there is no digit.
\<close>

definition strtol :: "string \<Rightarrow> int option" where
  "strtol s =
     (let t = dropWhile is_space (c_str s);
          neg = (t \<noteq> [] \<and> hd t = CHR ''-'');
          u = (if t \<noteq> [] \<and> (hd t = CHR ''-'' \<or> hd t = CHR ''+'') then tl t else t);
          ds = takeWhile is_digit u
      in if ds = [] then None
         else Some (if neg then - int (digits_val ds) else int (digits_val ds)))"

text \<open>\<^verbatim>\<open>std::stoi\<close> throws when there is no number or when it does not fit an \<^verbatim>\<open>int\<close>.\<close>

definition stoi :: "string \<Rightarrow> int res" where
  "stoi s =
     (case strtol s of
        None \<Rightarrow> Inl Invalid_argument
      | Some i \<Rightarrow> if i < - (2 ^ 31) \<or> 2 ^ 31 \<le> i then Inl Out_of_range else Inr i)"

subsection \<open>Lemmas on strings\<close>

lemma starts_with_append [simp]: "starts_with p (p @ s)"
  by (simp add: starts_with_def)

lemma starts_with_iff: "starts_with p s \<longleftrightarrow> (\<exists>t. s = p @ t)"
  by (metis append_take_drop_id append_eq_conv_conj starts_with_def)

lemma starts_with_Nil [simp]: "starts_with [] s"
  by (simp add: starts_with_def)

lemma starts_with_Cons [simp]:
  "starts_with (x # xs) (y # ys) \<longleftrightarrow> x = y \<and> starts_with xs ys"
  by (auto simp: starts_with_def)

lemma starts_with_Cons_Nil [simp]: "starts_with (x # xs) [] \<longleftrightarrow> False"
  by (simp add: starts_with_def)

lemma find_chr_None [str_simps]: "find_chr c s = None \<longleftrightarrow> c \<notin> set s"
  by (induction s) auto

lemma find_chr_Some:
  "find_chr c s = Some i \<Longrightarrow> i < length s \<and> s ! i = c \<and> c \<notin> set (take i s)"
proof (induction s arbitrary: i)
  case (Cons x xs)
  then show ?case by (cases i) (auto split: if_splits)
qed simp

lemma find_chr_append [str_simps]:
  "c \<notin> set a \<Longrightarrow> find_chr c (a @ c # b) = Some (length a)"
  by (induction a) auto

lemma rfind_chr_None [str_simps]: "rfind_chr c s = None \<longleftrightarrow> c \<notin> set s"
  by (induction s) (auto split: option.splits)

lemma rfind_chr_append [str_simps]:
  "c \<notin> set b \<Longrightarrow> rfind_chr c (a @ c # b) = Some (length a)"
  by (induction a) (auto simp: rfind_chr_None [THEN iffD2])

lemma find_str_None_iff:
  "find_str sub s = None \<longleftrightarrow> (\<forall>a b. s \<noteq> a @ sub @ b)"
proof (induction s)
  case Nil
  then show ?case by auto
next
  case (Cons x xs)
  have "(\<exists>a b. x # xs = a @ sub @ b) \<longleftrightarrow>
        starts_with sub (x # xs) \<or> (\<exists>a b. xs = a @ sub @ b)"
  proof
    assume "\<exists>a b. x # xs = a @ sub @ b"
    then obtain a b where ab: "x # xs = a @ sub @ b" by blast
    then show "starts_with sub (x # xs) \<or> (\<exists>a b. xs = a @ sub @ b)"
    proof (cases a)
      case Nil
      with ab show ?thesis by (simp add: starts_with_iff)
    next
      case (Cons y ys)
      with ab show ?thesis by simp blast
    qed
  next
    assume "starts_with sub (x # xs) \<or> (\<exists>a b. xs = a @ sub @ b)"
    then show "\<exists>a b. x # xs = a @ sub @ b"
    proof
      assume "starts_with sub (x # xs)"
      then obtain t where "x # xs = [] @ sub @ t" by (auto simp: starts_with_iff)
      then show ?thesis by blast
    next
      assume "\<exists>a b. xs = a @ sub @ b"
      then obtain a b where "x # xs = (x # a) @ sub @ b" by auto
      then show ?thesis by blast
    qed
  qed
  moreover have "find_str sub (x # xs) = None \<longleftrightarrow>
      \<not> starts_with sub (x # xs) \<and> find_str sub xs = None"
    by simp
  ultimately show ?case using Cons.IH by blast
qed

lemma while_notin [str_simps]:
  "c \<notin> set a \<Longrightarrow> takeWhile (\<lambda>x. x \<noteq> c) (a @ c # d) = a"
  "c \<notin> set a \<Longrightarrow> dropWhile (\<lambda>x. x \<noteq> c) (a @ c # d) = c # d"
  by (induction a) auto

lemma c_str_no_nul [simp]: "CHR 0x00 \<notin> set s \<Longrightarrow> c_str s = s"
  by (auto simp: c_str_def takeWhile_eq_all_conv)

lemma c_str_nul_free [simp]: "CHR 0x00 \<notin> set (c_str s)"
  by (auto simp: c_str_def dest: set_takeWhileD)

lemma of_char_digit_chr [simp]: "d < 10 \<Longrightarrow> of_char (digit_chr d) = (48 + d :: nat)"
  by (simp add: digit_chr_def of_char_of)

lemma digit_val_digit_chr [simp]: "d < 10 \<Longrightarrow> digit_val (digit_chr d) = d"
  by (simp add: digit_val_def)

lemma is_digit_digit_chr [simp]: "d < 10 \<Longrightarrow> is_digit (digit_chr d)"
  by (simp add: is_digit_def)

lemma show_nat_digits: "\<forall>c \<in> set (show_nat n). is_digit c"
proof (induction n rule: show_nat.induct)
  case (1 n)
  then show ?case
    by (cases "n < 10") (auto simp: show_nat.simps [of n])
qed

lemma show_nat_ne [simp]: "show_nat n \<noteq> []"
  by (subst show_nat.simps) simp

lemma digits_val_snoc: "digits_val (ds @ [c]) = 10 * digits_val ds + digit_val c"
  by (simp add: digits_val_def)

lemma digits_val_show_nat [simp]: "digits_val (show_nat n) = n"
proof (induction n rule: show_nat.induct)
  case (1 n)
  show ?case
  proof (cases "n < 10")
    case True
    then show ?thesis
      by (simp add: show_nat.simps [of n] digits_val_def)
  next
    case False
    with 1 show ?thesis
      by (simp add: show_nat.simps [of n] digits_val_snoc)
  qed
qed

lemma is_digit_not_sign [simp]: "is_digit c \<Longrightarrow> c \<noteq> CHR ''-''" "is_digit c \<Longrightarrow> c \<noteq> CHR ''+''"
  by (auto simp: is_digit_def)

lemma is_digit_not_space: "is_digit c \<Longrightarrow> \<not> is_space c"
  by (auto simp: is_digit_def is_space_def)

lemma is_digit_not_nul: "is_digit c \<Longrightarrow> c \<noteq> CHR 0x00"
  by (auto simp: is_digit_def)

lemma strtol_show_nat: "strtol (show_nat n) = Some (int n)"
proof -
  have dig: "\<forall>c \<in> set (show_nat n). is_digit c"
    by (rule show_nat_digits)
  then have c: "c_str (show_nat n) = show_nat n"
    by (intro c_str_no_nul) (blast dest: is_digit_not_nul)
  obtain x xs where x: "show_nat n = x # xs" and dx: "is_digit x"
    using dig by (cases "show_nat n") auto
  have d: "dropWhile is_space (show_nat n) = show_nat n"
    using x dx by (simp add: is_digit_not_space)
  have t: "takeWhile is_digit (show_nat n) = show_nat n"
    using dig by (simp add: takeWhile_eq_all_conv)
  have h: "hd (show_nat n) \<noteq> CHR ''-''" "hd (show_nat n) \<noteq> CHR ''+''"
    using x dx by auto
  show ?thesis
    by (simp add: strtol_def Let_def c d t h)
qed

lemma stoi_show_nat: "n < 2 ^ 31 \<Longrightarrow> stoi (show_nat n) = Inr (int n)"
  by (simp add: stoi_def strtol_show_nat)

section \<open>Big-endian numbers in byte strings\<close>

text \<open>The value of a byte string read most significant byte first.\<close>

definition be_val :: "string \<Rightarrow> nat" where
  "be_val bs = foldl (\<lambda>v c. 256 * v + of_char c) 0 bs"

lemma be_val_Nil [simp]: "be_val [] = 0"
  by (simp add: be_val_def)

lemma be_val_snoc [simp]: "be_val (bs @ [c]) = 256 * be_val bs + of_char c"
  by (simp add: be_val_def)

lemma digit_step_less: "k < 256 \<Longrightarrow> v < m \<Longrightarrow> 256 * v + k < 256 * m" for k v m :: nat
  by linarith

lemma be_val_less: "be_val bs < 256 ^ length bs"
proof (induction bs rule: rev_induct)
  case (snoc c bs)
  have "256 * be_val bs + of_char c < 256 * 256 ^ length bs"
    by (rule digit_step_less [OF nat_of_char_less_256 snoc.IH])
  then show ?case by simp
qed simp

text \<open>The \<open>k\<close>-byte big-endian representation of a number.\<close>

fun be_bytes :: "nat \<Rightarrow> nat \<Rightarrow> string" where
  "be_bytes 0 n = []"
| "be_bytes (Suc k) n = be_bytes k (n div 256) @ [char_of (n mod 256)]"

lemma length_be_bytes [simp]: "length (be_bytes k n) = k"
  by (induction k arbitrary: n) auto

lemma be_val_be_bytes: "n < 256 ^ k \<Longrightarrow> be_val (be_bytes k n) = n"
proof (induction k arbitrary: n)
  case (Suc k)
  then have "n div 256 < 256 ^ k"
    by (simp add: less_mult_imp_div_less mult.commute)
  with Suc.IH [of "n div 256"] show ?case
    by (simp add: of_char_of)
qed simp

lemma be_bytes_map: "be_bytes k n = map (\<lambda>j. char_of (n div 256 ^ j)) (rev [0..<k])"
proof (induction k arbitrary: n)
  case (Suc k)
  have "map (\<lambda>j. char_of (n div 256 div 256 ^ j)) (rev [0..<k])
      = map (\<lambda>j. char_of (n div 256 ^ j)) (rev (map Suc [0..<k]))"
    by (simp add: rev_map div_mult2_eq)
  moreover have "[0..<Suc k] = 0 # map Suc [0..<k]"
    by (simp add: map_Suc_upt upt_conv_Cons)
  ultimately show ?case
    using Suc.IH by (simp del: upt_Suc)
qed simp

end
