(* ===== verification/Net_Input.thy ===== *)
theory Net_Input
  imports Cog_Prelude
begin

text \<open>
  What a connection handler reads: the peer's bytes as \<^verbatim>\<open>asio\<close> delivers them (an arbitrary sequence
  of chunks, ended by errors), and the reading methods of \<^verbatim>\<open>ServerSocket.cc\<close> on top of it:
  \<^verbatim>\<open>match_eol_or_escape\<close>, \<^verbatim>\<open>get_telnet_line\<close>, \<^verbatim>\<open>get_http_body\<close>, the drain loop at the end of
  \<^verbatim>\<open>handle_connection\<close>. The lemmas show that no byte is lost, duplicated or reordered, and that
  how the network cuts plain text into chunks makes no difference to the lines that come out.
\<close>

section \<open>The peer's byte stream\<close>

text \<open>
  Each read on the socket yields the next chunk or fails with the next error; once the list is
  used up, every read reports end of file.
\<close>

datatype rx_event = Chunk string | Rx_err sys_code

type_synonym rx = "rx_event list"

fun rx_bytes :: "rx \<Rightarrow> string" where
  "rx_bytes [] = []"
| "rx_bytes (Chunk c # r) = c @ rx_bytes r"
| "rx_bytes (Rx_err e # r) = rx_bytes r"

definition rx_clean :: "rx \<Rightarrow> bool" where
  "rx_clean r \<longleftrightarrow> (\<forall>e. Rx_err e \<notin> set r)"

text \<open>\<^verbatim>\<open>asio::read(*_socket, asio::buffer(p, n))\<close>: exactly \<open>n\<close> bytes, or the error.\<close>

fun rx_read :: "nat \<Rightarrow> rx \<Rightarrow> string res \<times> rx" where
  "rx_read n r =
     (if n = 0 then (Inr [], r)
      else case r of
        [] \<Rightarrow> (Inl (System_error Sys_eof), [])
      | Rx_err e # r' \<Rightarrow> (Inl (System_error e), r')
      | Chunk c # r' \<Rightarrow>
          (if n < length c then (Inr (take n c), Chunk (drop n c) # r')
           else case rx_read (n - length c) r' of
                  (Inl e, r'') \<Rightarrow> (Inl e, r'')
                | (Inr bs, r'') \<Rightarrow> (Inr (c @ bs), r'')))"

declare rx_read.simps [simp del]

section \<open>Lines\<close>

text \<open>
  The match condition: the position one past the first newline, the first control-D, or the
  first byte up to \<^verbatim>\<open>0xf0\<close> that follows a telnet IAC.
\<close>

fun match_eol_or_escape :: "bool \<Rightarrow> string \<Rightarrow> nat option" where
  "match_eol_or_escape telnet_mode [] = None"
| "match_eol_or_escape telnet_mode (c # cs) =
     (let tm = (telnet_mode \<or> c = CHR 0xFF)
      in if c = CHR 0x0A \<or> c = CHR 0x04 \<or> (tm \<and> of_char c \<le> (0xF0 :: nat))
         then Some 1
         else map_option Suc (match_eol_or_escape tm cs))"

text \<open>
  \<^verbatim>\<open>asio::read_until\<close>: scan what is buffered; on no match read another chunk and go on scanning
  where the last scan stopped.
\<close>

fun read_until :: "string \<Rightarrow> nat \<Rightarrow> rx \<Rightarrow> unit res \<times> string \<times> rx" where
  "read_until b pos [] =
     (case match_eol_or_escape False (drop pos b) of
        Some _ \<Rightarrow> (Inr (), b, [])
      | None \<Rightarrow> (Inl (System_error Sys_eof), b, []))"
| "read_until b pos (Chunk c # r) =
     (case match_eol_or_escape False (drop pos b) of
        Some _ \<Rightarrow> (Inr (), b, Chunk c # r)
      | None \<Rightarrow> read_until (b @ c) (length b) r)"
| "read_until b pos (Rx_err e # r) =
     (case match_eol_or_escape False (drop pos b) of
        Some _ \<Rightarrow> (Inr (), b, Rx_err e # r)
      | None \<Rightarrow> (Inl (System_error e), b, r))"

text \<open>\<^verbatim>\<open>std::getline\<close>: up to the newline, which is dropped, or to the end of the buffer.\<close>

definition getline :: "string \<Rightarrow> string \<times> string" where
  "getline b = (takeWhile (\<lambda>c. c \<noteq> CHR 0x0A) b, drop 1 (dropWhile (\<lambda>c. c \<noteq> CHR 0x0A) b))"

definition get_telnet_line :: "string \<Rightarrow> rx \<Rightarrow> string res \<times> string \<times> rx" where
  "get_telnet_line b r =
     (case read_until b 0 r of
        (Inl e, b', r') \<Rightarrow> (Inl e, b', r')
      | (Inr _, b', r') \<Rightarrow> (Inr (fst (getline b')), snd (getline b'), r'))"

text \<open>The carriage return before the newline is stripped too.\<close>

definition strip_cr :: "string \<Rightarrow> string" where
  "strip_cr line = (if line \<noteq> [] \<and> last line = CHR 0x0D then butlast line else line)"

lemma getline_shorter: "b \<noteq> [] \<Longrightarrow> length (snd (getline b)) < length b"
proof -
  assume "b \<noteq> []"
  moreover have "length (dropWhile (\<lambda>c. c \<noteq> CHR 0x0A) b) \<le> length b"
    by (rule length_dropWhile_le)
  ultimately show ?thesis
    by (cases b) (auto simp: getline_def)
qed

text \<open>The bytes still buffered at the end of a telnet connection, line by line.\<close>

function drain_lines :: "string \<Rightarrow> string list" where
  "drain_lines b =
     (if b = [] then []
      else let line = strip_cr (fst (getline b))
           in (if line \<noteq> [] then [line] else []) @ drain_lines (snd (getline b)))"
  by pat_completeness auto
termination
  by (relation "measure length") (auto simp: getline_shorter)

declare drain_lines.simps [simp del]

section \<open>The HTTP body\<close>

text \<open>
  \<^verbatim>\<open>asio::read(*_socket, b, asio::transfer_exactly(n))\<close> appends to the buffer as it goes; what
  arrives beyond the \<open>n\<close> bytes stays in the socket.
\<close>

fun rx_fill :: "nat \<Rightarrow> string \<Rightarrow> rx \<Rightarrow> unit res \<times> string \<times> rx" where
  "rx_fill n b [] =
     (if n = 0 then (Inr (), b, []) else (Inl (System_error Sys_eof), b, []))"
| "rx_fill n b (Rx_err e # r) =
     (if n = 0 then (Inr (), b, Rx_err e # r) else (Inl (System_error e), b, r))"
| "rx_fill n b (Chunk c # r) =
     (if n = 0 then (Inr (), b, Chunk c # r)
      else if n < length c then (Inr (), b @ take n c, Chunk (drop n c) # r)
      else rx_fill (n - length c) (b @ c) r)"

text \<open>
  \<^verbatim>\<open>get_http_body\<close>: what is buffered, topped up from the socket to the content length; the body
  is then taken off the front of the buffer.
\<close>

definition get_http_body :: "nat \<Rightarrow> string \<Rightarrow> rx \<Rightarrow> string res \<times> string \<times> rx" where
  "get_http_body content_length b r =
     (if content_length = 0 then (Inr [], b, r)
      else case (if length b < content_length then rx_fill (content_length - length b) b r
                 else (Inr (), b, r)) of
             (Inl e, b', r') \<Rightarrow> (Inl e, b', r')
           | (Inr _, b', r') \<Rightarrow> (Inr (take content_length b'), drop content_length b', r'))"

section \<open>Lemmas\<close>

lemma rx_clean_simps [simp]:
  "rx_clean []" "rx_clean (Chunk c # r) \<longleftrightarrow> rx_clean r" "\<not> rx_clean (Rx_err e # r)"
  by (auto simp: rx_clean_def)

subsection \<open>Reading a number of bytes\<close>

lemma rx_read_0 [simp]: "rx_read 0 r = (Inr [], r)"
  by (simp add: rx_read.simps)

text \<open>An error-free stream with enough bytes gives exactly its first \<open>n\<close> bytes.\<close>

lemma rx_read_ok:
  "rx_clean r \<Longrightarrow> n \<le> length (rx_bytes r) \<Longrightarrow>
   \<exists>r'. rx_read n r = (Inr (take n (rx_bytes r)), r') \<and> rx_bytes r' = drop n (rx_bytes r) \<and> rx_clean r'"
proof (induction n r rule: rx_read.induct)
  case (1 n r)
  show ?case
  proof (cases "n = 0")
    case False
    then obtain c r1 where r: "r = Chunk c # r1"
      using "1.prems" by (cases r rule: rx_bytes.cases) auto
    show ?thesis
    proof (cases "n < length c")
      case True
      with False r "1.prems" show ?thesis by (simp add: rx_read.simps [of n])
    next
      case nl: False
      then obtain r' where "rx_read (n - length c) r1 = (Inr (take (n - length c) (rx_bytes r1)), r')"
        "rx_bytes r' = drop (n - length c) (rx_bytes r1)" "rx_clean r'"
        using "1.IH" [OF False r refl] "1.prems" r by fastforce
      with False nl r show ?thesis by (simp add: rx_read.simps [of n])
    qed
  qed (use "1.prems" in simp)
qed

lemma rx_read_short:
  "rx_clean r \<Longrightarrow> length (rx_bytes r) < n \<Longrightarrow> rx_read n r = (Inl (System_error Sys_eof), [])"
proof (induction n r rule: rx_read.induct)
  case (1 n r)
  then show ?case
  proof (cases r rule: rx_bytes.cases)
    case (2 c r1)
    with "1.prems" have "rx_read (n - length c) r1 = (Inl (System_error Sys_eof), [])"
      by (intro "1.IH") auto
    with 2 "1.prems" show ?thesis by (simp add: rx_read.simps [of n])
  qed (auto simp: rx_read.simps [of n])
qed

text \<open>A successful read takes a prefix of the stream, whatever errors follow.\<close>

lemma rx_read_prefix:
  "rx_read n r = (Inr bs, r') \<Longrightarrow> length bs = n \<and> rx_bytes r = bs @ rx_bytes r'"
proof (induction n r arbitrary: bs r' rule: rx_read.induct)
  case (1 n r)
  then show ?case
  proof (cases "n = 0")
    case False
    with "1.prems" obtain c r1 where r: "r = Chunk c # r1"
      by (cases r rule: rx_bytes.cases) (auto simp: rx_read.simps [of n])
    show ?thesis
    proof (cases "n < length c")
      case True
      with False r "1.prems" show ?thesis by (auto simp: rx_read.simps [of n])
    next
      case nl: False
      with False r "1.prems" obtain bs1 where "rx_read (n - length c) r1 = (Inr bs1, r')"
        and "bs = c @ bs1"
        by (auto simp: rx_read.simps [of n] split: prod.splits sum.splits)
      with "1.IH" [OF False r refl nl] nl r show ?thesis by simp
    qed
  qed simp
qed

lemma rx_fill_bytes:
  "rx_fill n b r = (res, b', r') \<Longrightarrow> b' @ rx_bytes r' = b @ rx_bytes r"
proof (induction n b r rule: rx_fill.induct)
  case (3 n b c r)
  then show ?case by (cases "n < length c") (auto split: if_splits)
qed (auto split: if_splits)

lemma rx_fill_length:
  "rx_fill n b r = (Inr u, b', r') \<Longrightarrow> length b' = length b + n"
proof (induction n b r rule: rx_fill.induct)
  case (3 n b c r)
  then show ?case by (cases "n < length c") (auto split: if_splits)
qed (auto split: if_splits)

text \<open>The body that is returned has the announced length, and is what came first.\<close>

lemma get_http_body_ok:
  assumes "get_http_body n b r = (Inr body, b', r')"
  shows "length body = n \<and> b @ rx_bytes r = body @ b' @ rx_bytes r'"
proof (cases "n = 0 \<or> \<not> length b < n")
  case True
  with assms show ?thesis by (cases "n = 0") (auto simp: get_http_body_def)
next
  case False
  with assms obtain u b1 where f: "rx_fill (n - length b) b r = (Inr u, b1, r')"
    and body: "body = take n b1" "b' = drop n b1"
    by (auto simp: get_http_body_def split: prod.splits sum.splits)
  have "length b1 = n"
    using rx_fill_length [OF f] False by simp
  then show ?thesis
    using rx_fill_bytes [OF f] body by simp
qed

subsection \<open>Lines: nothing is lost\<close>

lemma getline_split:
  "b = fst (getline b) @ (if CHR 0x0A \<in> set b then [CHR 0x0A] else []) @ snd (getline b)"
proof (cases "CHR 0x0A \<in> set b")
  case True
  then obtain a d where b: "b = a @ CHR 0x0A # d" and "CHR 0x0A \<notin> set a"
    by (meson split_list_first)
  then have "takeWhile (\<lambda>c. c \<noteq> CHR 0x0A) b = a" "dropWhile (\<lambda>c. c \<noteq> CHR 0x0A) b = CHR 0x0A # d"
    by (simp_all add: while_notin)
  with b show ?thesis by (simp add: getline_def)
next
  case False
  then have tw: "takeWhile (\<lambda>c. c \<noteq> CHR 0x0A) b = b" and dw: "dropWhile (\<lambda>c. c \<noteq> CHR 0x0A) b = []"
    by (auto simp: takeWhile_eq_all_conv)
  show ?thesis
    unfolding getline_def fst_conv snd_conv tw dw using False by simp
qed

lemma getline_no_newline: "CHR 0x0A \<notin> set (fst (getline b))"
  by (auto simp: getline_def dest: set_takeWhileD)

lemma read_until_bytes:
  "read_until b pos r = (res, b', r') \<Longrightarrow> b' @ rx_bytes r' = b @ rx_bytes r"
  by (induction b pos r rule: read_until.induct) (auto split: option.splits)

text \<open>
  A line that is returned is the front of what was buffered and in flight, less at most one
  newline; the rest is still there, in order.
\<close>

lemma get_telnet_line_lossless:
  assumes "get_telnet_line b r = (Inr line, b', r')"
  shows "\<exists>sep. sep \<in> {[], [CHR 0x0A]} \<and> b @ rx_bytes r = line @ sep @ b' @ rx_bytes r'"
proof -
  from assms obtain u b1 where u: "read_until b 0 r = (Inr u, b1, r')"
    and "line = fst (getline b1)" "b' = snd (getline b1)"
    by (auto simp: get_telnet_line_def split: prod.splits sum.splits)
  then have "b @ rx_bytes r =
      line @ (if CHR 0x0A \<in> set b1 then [CHR 0x0A] else []) @ b' @ rx_bytes r'"
    using read_until_bytes [OF u] getline_split [of b1] by (metis append_assoc)
  then show ?thesis by (auto split: if_splits)
qed

subsection \<open>Plain text: the chunking does not matter\<close>

definition plain :: "string \<Rightarrow> bool" where
  "plain s \<longleftrightarrow> CHR 0xFF \<notin> set s \<and> CHR 0x04 \<notin> set s"

lemma plain_simps [simp]:
  "plain []" "plain (c # s) \<longleftrightarrow> c \<noteq> CHR 0xFF \<and> c \<noteq> CHR 0x04 \<and> plain s"
  "plain (s @ t) \<longleftrightarrow> plain s \<and> plain t"
  by (auto simp: plain_def)

lemma match_plain:
  "plain s \<Longrightarrow> match_eol_or_escape False s = None \<longleftrightarrow> CHR 0x0A \<notin> set s"
  by (induction s) auto

lemma set_split_pos: "set b = set (take pos b) \<union> set (drop pos b)"
  by (metis append_take_drop_id set_append)

lemma plain_drop [simp]: "plain b \<Longrightarrow> plain (drop pos b)"
  by (auto simp: plain_def dest: in_set_dropD)

lemma read_until_plain:
  "plain (b @ rx_bytes r) \<Longrightarrow> rx_clean r \<Longrightarrow> CHR 0x0A \<notin> set (take pos b) \<Longrightarrow>
   CHR 0x0A \<in> set (b @ rx_bytes r) \<Longrightarrow>
   \<exists>b' r'. read_until b pos r = (Inr (), b', r') \<and> CHR 0x0A \<in> set b'
     \<and> b' @ rx_bytes r' = b @ rx_bytes r \<and> rx_clean r'"
proof (induction b pos r rule: read_until.induct)
  case (1 b pos)
  then have "CHR 0x0A \<in> set (drop pos b)"
    using set_split_pos [of b pos] by auto
  with 1 show ?case
    by (auto simp: match_plain split: option.splits)
next
  case (2 b pos c r)
  show ?case
  proof (cases "CHR 0x0A \<in> set (drop pos b)")
    case True
    then have "CHR 0x0A \<in> set b" by (rule in_set_dropD)
    moreover have "match_eol_or_escape False (drop pos b) \<noteq> None"
      using True "2.prems" by (simp add: match_plain)
    ultimately show ?thesis
      using "2.prems" by auto
  next
    case False
    then have nb: "CHR 0x0A \<notin> set b"
      using "2.prems" set_split_pos [of b pos] by auto
    have n: "match_eol_or_escape False (drop pos b) = None"
      using False "2.prems" by (simp add: match_plain)
    have "\<exists>b' r'. read_until (b @ c) (length b) r = (Inr (), b', r') \<and> CHR 0x0A \<in> set b'
      \<and> b' @ rx_bytes r' = (b @ c) @ rx_bytes r \<and> rx_clean r'"
      using "2.prems" nb by (intro "2.IH" [OF n]) auto
    with n show ?thesis by simp
  qed
qed simp

lemma getline_prefix:
  "CHR 0x0A \<in> set b \<Longrightarrow> fst (getline b) = takeWhile (\<lambda>c. c \<noteq> CHR 0x0A) (b @ t)
     \<and> snd (getline b) @ t = drop 1 (dropWhile (\<lambda>c. c \<noteq> CHR 0x0A) (b @ t))"
proof -
  assume "CHR 0x0A \<in> set b"
  then have "takeWhile (\<lambda>c. c \<noteq> CHR 0x0A) (b @ t) = takeWhile (\<lambda>c. c \<noteq> CHR 0x0A) b"
    and "dropWhile (\<lambda>c. c \<noteq> CHR 0x0A) (b @ t) = dropWhile (\<lambda>c. c \<noteq> CHR 0x0A) b @ t"
    and "dropWhile (\<lambda>c. c \<noteq> CHR 0x0A) b \<noteq> []"
    by (auto simp: takeWhile_append1 dropWhile_append1 dropWhile_eq_Nil_conv)
  then show ?thesis
    by (cases "dropWhile (\<lambda>c. c \<noteq> CHR 0x0A) b") (auto simp: getline_def)
qed

lemma get_telnet_line_plain:
  assumes "plain (b @ rx_bytes r)" "rx_clean r" "CHR 0x0A \<in> set (b @ rx_bytes r)"
  shows "\<exists>b' r'. get_telnet_line b r = (Inr (takeWhile (\<lambda>c. c \<noteq> CHR 0x0A) (b @ rx_bytes r)), b', r')
     \<and> b' @ rx_bytes r' = drop 1 (dropWhile (\<lambda>c. c \<noteq> CHR 0x0A) (b @ rx_bytes r)) \<and> rx_clean r'"
proof -
  obtain b1 r1 where u: "read_until b 0 r = (Inr (), b1, r1)" and n: "CHR 0x0A \<in> set b1"
    and eq: "b1 @ rx_bytes r1 = b @ rx_bytes r" and "rx_clean r1"
    using read_until_plain [of b r 0] assms by auto
  then show ?thesis
    using getline_prefix [OF n, of "rx_bytes r1"]
    by (simp add: get_telnet_line_def eq)
qed

end
