(* ===== verification/Server_Socket.thy ===== *)
theory Server_Socket
  imports Net_Input
begin

text \<open>
  The state of a \<^verbatim>\<open>ServerSocket\<close> (\<^verbatim>\<open>ServerSocket.h\<close>) and its plain output methods: \<^verbatim>\<open>Send\<close> on a
  buffer, \<^verbatim>\<open>Exit\<close>, and the statistics line. The derived classes (\<^verbatim>\<open>ServerConsole\<close>, \<^verbatim>\<open>WebServer\<close>,
  \<^verbatim>\<open>MCPServer\<close>) extend the record, and everything here is stated for any extension.
\<close>

section \<open>State\<close>

datatype sock_status = START | BLOCK | IWAIT | QUING | BAR | DTOR | CLOSE | DOWN

text \<open>The status strings of \<^verbatim>\<open>ServerSocket.cc\<close>.\<close>

fun status_str :: "sock_status \<Rightarrow> string" where
  "status_str START = ''start''"
| "status_str BLOCK = ''block''"
| "status_str IWAIT = ''iwait''"
| "status_str BAR = ''-bar-''"
| "status_str DTOR = ''dtor ''"
| "status_str QUING = ''quing''"
| "status_str CLOSE = ''close''"
| "status_str DOWN = ''down ''"

text \<open>
  \<open>has_socket\<close> is the pointer \<^verbatim>\<open>_socket\<close> being non-null; \<open>sock_up\<close> says that the TCP connection is
  still up, so that bytes written reach the peer; \<open>tx\<close> is what was written to it so far. The static
  counter \<open>total_line_count\<close> is kept beside \<open>line_count\<close>, as far as this socket adds to it.
\<close>

record server_socket =
  has_socket :: bool
  sock_up :: bool
  tx :: string
  got_first_line :: bool
  got_http_header :: bool
  do_frame_io :: bool
  webkey :: string
  is_http_socket :: bool
  got_websock_header :: bool
  is_mcp_socket :: bool
  keep_alive :: bool
  in_barrier :: bool
  content_length :: nat
  url :: string
  host_header :: string
  start_time :: int
  tid :: int
  status :: sock_status
  last_activity :: int
  line_count :: nat
  total_line_count :: nat

text \<open>
  The constructor's initialisers, up to the wait for a free slot (which is the socket manager's).
  \<open>now\<close> is \<^verbatim>\<open>time(nullptr)\<close>.
\<close>

definition new_server_socket :: "int \<Rightarrow> server_socket" where
  "new_server_socket now =
     \<lparr>has_socket = False, sock_up = False, tx = [],
      got_first_line = False, got_http_header = False, do_frame_io = False, webkey = [],
      is_http_socket = False, got_websock_header = False, is_mcp_socket = False,
      keep_alive = False, in_barrier = False, content_length = 0, url = [], host_header = [],
      start_time = now, tid = 0, status = BLOCK, last_activity = now, line_count = 0,
      total_line_count = 0\<rparr>"

section \<open>Output\<close>

text \<open>
  \<^verbatim>\<open>Send(const asio::const_buffer&)\<close>: write everything; an error (the peer is gone) is logged at
  most. A socket that was never set is an assertion failure.
\<close>

definition send_buffer :: "string \<Rightarrow> ('a server_socket_scheme, unit) act" where
  "send_buffer buf s =
     (if \<not> has_socket s then (Inl Assert_fail, s)
      else (Inr (), if sock_up s then s\<lparr>tx := tx s @ buf\<rparr> else s))"

text \<open>\<^verbatim>\<open>set_connection\<close>: adopt the accepted connection.\<close>

definition set_connection :: "'a server_socket_scheme \<Rightarrow> 'a server_socket_scheme" where
  "set_connection s = s\<lparr>has_socket := True, sock_up := True\<rparr>"

text \<open>
  \<^verbatim>\<open>Exit\<close>: shut the connection down; the errors that this can raise are caught inside.
\<close>

definition Exit :: "'a server_socket_scheme \<Rightarrow> 'a server_socket_scheme" where
  "Exit s = s\<lparr>sock_up := False, status := DOWN\<rparr>"

section \<open>Statistics\<close>

definition connection_header :: string where
  "connection_header = ''OPEN-DATE        THREAD  STATE NLINE  LAST-ACTIVITY  K''"

text \<open>The socket kind shown in column K.\<close>

definition sock_kind :: "'a server_socket_scheme \<Rightarrow> char" where
  "sock_kind s =
     (if do_frame_io s then CHR ''W''
      else if is_http_socket s then CHR ''H''
      else if is_mcp_socket s then CHR ''M'' else CHR ''T'')"

text \<open>Right-justified in a field of width \<open>w\<close>, as \<^verbatim>\<open>%8d\<close> and \<^verbatim>\<open>%5zd\<close> print.\<close>

definition pad_left :: "nat \<Rightarrow> string \<Rightarrow> string" where
  "pad_left w s = replicate (w - length s) CHR '' '' @ s"

text \<open>
  \<^verbatim>\<open>connection_stats\<close>. The rendering of a date (\<^verbatim>\<open>gmtime_r\<close> and \<^verbatim>\<open>strftime\<close> into 20 bytes) is the
  argument \<open>show_date\<close>.
\<close>

definition connection_stats :: "(int \<Rightarrow> string) \<Rightarrow> 'a server_socket_scheme \<Rightarrow> string" where
  "connection_stats show_date s =
     snprintf 132
       (show_date (start_time s) @ '' '' @ pad_left 8 (show_int (tid s)) @ '' ''
        @ status_str (status s) @ '' '' @ pad_left 5 (show_nat (line_count s)) @ '' ''
        @ show_date (last_activity s) @ '' '' @ [sock_kind s])"

section \<open>Lemmas\<close>

lemma send_buffer_up [simp]:
  "has_socket s \<Longrightarrow> sock_up s \<Longrightarrow> send_buffer buf s = (Inr (), s\<lparr>tx := tx s @ buf\<rparr>)"
  by (simp add: send_buffer_def)

lemma send_buffer_down [simp]:
  "has_socket s \<Longrightarrow> \<not> sock_up s \<Longrightarrow> send_buffer buf s = (Inr (), s)"
  by (simp add: send_buffer_def)

lemma status_str_length [simp]: "length (status_str st) = 5"
  by (cases st) simp_all

lemma status_str_inject [simp]: "status_str a = status_str b \<longleftrightarrow> a = b"
  by (cases a; cases b) simp_all

end
