(* ===== verification/Base64.thy ===== *)
theory Base64
  imports Cog_Prelude
begin

text \<open>
  The two base64 routines of the server: \<^verbatim>\<open>base64_encode\<close> of \<^verbatim>\<open>WebSocket.cc\<close> (it encodes the SHA1
  digest of the handshake) and \<^verbatim>\<open>base64_decode\<close> of \<^verbatim>\<open>WebServer.cc\<close> (it decodes the favicon).
  Both work on one 32-bit accumulator that overflows; they are shown to agree with a
  triple-at-a-time reference encoder, and decoding is shown to undo encoding.
\<close>

section \<open>The routines\<close>

definition b64_alphabet :: string where
  "b64_alphabet = ''ABCDEFGHIJKLMNOPQRSTUVWXYZabcdefghijklmnopqrstuvwxyz0123456789+/''"

definition b64_char :: "32 word \<Rightarrow> char" where
  "b64_char w = b64_alphabet ! unat (w AND 0x3F)"

text \<open>The inner loop \<^verbatim>\<open>while (valb >= 0)\<close> of the encoder.\<close>

function enc_emit :: "32 word \<Rightarrow> int \<Rightarrow> string \<Rightarrow> int \<times> string" where
  "enc_emit val valb out =
     (if 0 \<le> valb then enc_emit val (valb - 6) (out @ [b64_char (drop_bit (nat valb) val)])
      else (valb, out))"
  by pat_completeness auto
termination
  by (relation "measure (\<lambda>(val, valb, out). nat (valb + 6))") auto

declare enc_emit.simps [simp del]

text \<open>The loop over the input bytes.\<close>

fun enc_loop :: "string \<Rightarrow> 32 word \<Rightarrow> int \<Rightarrow> string \<Rightarrow> 32 word \<times> int \<times> string" where
  "enc_loop [] val valb out = (val, valb, out)"
| "enc_loop (c # cs) val valb out =
     (let val' = push_bit 8 val + of_char c;
          (valb', out') = enc_emit val' (valb + 8) out
      in enc_loop cs val' valb' out')"

text \<open>\<^verbatim>\<open>while (out.size()%4) out.push_back('=')\<close>.\<close>

function enc_pad :: "string \<Rightarrow> string" where
  "enc_pad out = (if length out mod 4 \<noteq> 0 then enc_pad (out @ ''='') else out)"
  by pat_completeness auto
termination
  by (relation "measure (\<lambda>out. (4 - length out mod 4) mod 4)") (auto simp: mod_Suc)

declare enc_pad.simps [simp del]

definition base64_encode :: "string \<Rightarrow> string" where
  "base64_encode buf =
     (let (val, valb, out) = enc_loop buf 0 (-6) [];
          out1 = (if valb > -6
                  then out @ [b64_char (drop_bit (nat (valb + 8)) (push_bit 8 val))] else out)
      in enc_pad out1)"

text \<open>The table \<^verbatim>\<open>T\<close>: the index of a character in the alphabet, \<^const>\<open>None\<close> for -1.\<close>

definition b64_index :: "char \<Rightarrow> nat option" where
  "b64_index c = find_chr c b64_alphabet"

fun dec_loop :: "string \<Rightarrow> 32 word \<Rightarrow> int \<Rightarrow> string \<Rightarrow> string" where
  "dec_loop [] val valb out = out"
| "dec_loop (c # cs) val valb out =
     (case b64_index c of
        None \<Rightarrow> out
      | Some t \<Rightarrow>
          (let val' = push_bit 6 val + of_nat t; valb' = valb + 6
           in if 0 \<le> valb'
              then dec_loop cs val' (valb' - 8)
                     (out @ [char_of (unat (signed_drop_bit (nat valb') val' AND 0xFF))])
              else dec_loop cs val' valb' out))"

definition base64_decode :: "string \<Rightarrow> string" where
  "base64_decode s = dec_loop s 0 (-8) []"

section \<open>Reference encoder\<close>

text \<open>RFC 4648: three bytes at a time, four characters of six bits each.\<close>

definition b64_sextet :: "nat \<Rightarrow> char" where
  "b64_sextet n = b64_alphabet ! (n mod 64)"

fun b64_ref :: "string \<Rightarrow> string" where
  "b64_ref [] = []"
| "b64_ref [a] =
     (let x = of_char a in [b64_sextet (x div 4), b64_sextet (x * 16), CHR ''='', CHR ''=''])"
| "b64_ref [a, b] =
     (let x = of_char a; y = of_char b
      in [b64_sextet (x div 4), b64_sextet (x * 16 + y div 16), b64_sextet (y * 4), CHR ''=''])"
| "b64_ref (a # b # c # r) =
     (let x = of_char a; y = of_char b; z = of_char c
      in [b64_sextet (x div 4), b64_sextet (x * 16 + y div 16),
          b64_sextet (y * 4 + z div 64), b64_sextet z] @ b64_ref r)"

section \<open>Arithmetic of the accumulator\<close>

lemma mod_div_mod_pow: "k + n \<le> m \<Longrightarrow> (x mod 2 ^ m) div 2 ^ k mod 2 ^ n = (x div 2 ^ k) mod 2 ^ n"
  for x :: nat
proof -
  assume "k + n \<le> m"
  then obtain d where m: "m = k + n + d"
    by (metis le_Suc_ex)
  have "(x mod 2 ^ m) div 2 ^ k = (x div 2 ^ k) mod 2 ^ (n + d)"
    unfolding m by (simp only: drop_bit_eq_div [symmetric] take_bit_eq_mod [symmetric])
      (simp add: drop_bit_take_bit add.commute add.left_commute)
  then show ?thesis
    by (simp add: take_bit_eq_mod [symmetric])
qed

lemma unat_enc_step:
  "unat (push_bit 8 (val :: 32 word) + of_char c) = (256 * unat val + of_char c) mod 2 ^ 32"
proof -
  have "push_bit 8 val + of_char c = of_nat (256 * unat val + of_char c)"
    by (simp add: push_bit_eq_mult of_nat_of_char mult.commute)
  then have "unat (push_bit 8 val + of_char c) = (256 * unat val + of_char c) mod 2 ^ LENGTH(32)"
    by (simp only: unat_of_nat)
  then show ?thesis by simp
qed

lemma unat_dec_step:
  "unat (push_bit 6 (val :: 32 word) + of_nat t) = (64 * unat val + t) mod 2 ^ 32"
proof -
  have "push_bit 6 val + of_nat t = of_nat (64 * unat val + t)"
    by (simp add: push_bit_eq_mult mult.commute)
  then have "unat (push_bit 6 val + of_nat t) = (64 * unat val + t) mod 2 ^ LENGTH(32)"
    by (simp only: unat_of_nat)
  then show ?thesis by simp
qed

lemma unat_and_mask: "unat ((w :: 32 word) AND 0x3F) = unat w mod 64"
  "unat ((w :: 32 word) AND 0xFF) = unat w mod 256"
proof -
  have a: "w AND 0x3F = take_bit 6 w" and b: "w AND 0xFF = take_bit 8 w"
    by (simp_all add: take_bit_eq_mask mask_eq_exp_minus_1)
  have "unat (take_bit 6 w) = take_bit 6 (unat w)" "unat (take_bit 8 w) = take_bit 8 (unat w)"
    by (simp_all only: unsigned_take_bit_eq)
  then show "unat (w AND 0x3F) = unat w mod 64" "unat (w AND 0xFF) = unat w mod 256"
    unfolding a b by (simp_all add: take_bit_eq_mod)
qed

lemma b64_char_drop: "k \<le> 26 \<Longrightarrow> b64_char (drop_bit k val) = b64_sextet (unat val div 2 ^ k)"
  by (simp add: b64_char_def b64_sextet_def unat_and_mask unat_drop_bit)

lemma b64_sextet_cong: "n mod 64 = m mod 64 \<Longrightarrow> b64_sextet n = b64_sextet m"
  by (simp add: b64_sextet_def)

lemma sextet_window:
  "k \<le> 26 \<Longrightarrow> b64_sextet ((n mod 2 ^ 32) div 2 ^ k) = b64_sextet (n div 2 ^ k)"
  using mod_div_mod_pow [of k 6 32 n] by (intro b64_sextet_cong) simp

lemma mod_pow32: "n mod 2 ^ 32 mod 4 = n mod 4" "n mod 2 ^ 32 mod 16 = n mod 16"
  "n mod 2 ^ 32 mod 64 = n mod 64" "n mod 2 ^ 32 mod 256 = n mod 256" for n :: nat
  by (simp_all add: mod_mod_cancel)

text \<open>
  The sextets that the loop emits for the first, second and third byte of a triple, whatever
  the accumulator held before.
\<close>

lemma sextet_add [simp]: "b64_sextet (n + 64 * a) = b64_sextet n" "b64_sextet (64 * a + n) = b64_sextet n"
  by (simp_all add: b64_sextet_def)

lemma div_window:
  "(256 * v + x) div 4 = 64 * v + x div 4" "(256 * v + x) div 16 = 16 * v + x div 16"
  "(256 * v + x) div 64 = 4 * v + x div 64" for v x :: nat
  using div_mult_self1 [of 4 x "64 * v"] div_mult_self1 [of 16 x "16 * v"]
    div_mult_self1 [of 64 x "4 * v"] by (simp_all add: add.commute)

lemma same_mod_obtain:
  fixes w x m :: nat
  assumes "w mod m = x mod m"
  obtains a b r where "w = m * a + r" "x = m * b + r"
  using assms by (metis mult_div_mod_eq)

lemma enc_sextet1:
  "b64_sextet ((256 * v + x) mod 2 ^ 32 div 4) = b64_sextet (x div 4)"
  using sextet_window [of 2 "256 * v + x"] by (simp add: div_window)

lemma enc_sextet2:
  assumes "w mod 4 = x mod 4"
  shows "b64_sextet ((256 * w + y) mod 2 ^ 32 div 16) = b64_sextet (x * 16 + y div 16)"
proof -
  obtain a b r where "w = 4 * a + r" "x = 4 * b + r"
    using assms by (rule same_mod_obtain)
  then have "16 * w + y div 16 = 64 * a + (16 * r + y div 16)"
    and "x * 16 + y div 16 = 64 * b + (16 * r + y div 16)" by simp_all
  then have "b64_sextet (16 * w + y div 16) = b64_sextet (x * 16 + y div 16)"
    by (simp only: sextet_add)
  then show ?thesis
    using sextet_window [of 4 "256 * w + y"] by (simp add: div_window)
qed

lemma enc_sextet3:
  assumes "w mod 16 = y mod 16"
  shows "b64_sextet ((256 * w + z) mod 2 ^ 32 div 64) = b64_sextet (y * 4 + z div 64)"
proof -
  obtain a b r where "w = 16 * a + r" "y = 16 * b + r"
    using assms by (rule same_mod_obtain)
  then have "4 * w + z div 64 = 64 * a + (4 * r + z div 64)"
    and "y * 4 + z div 64 = 64 * b + (4 * r + z div 64)" by simp_all
  then have "b64_sextet (4 * w + z div 64) = b64_sextet (y * 4 + z div 64)"
    by (simp only: sextet_add)
  then show ?thesis
    using sextet_window [of 6 "256 * w + z"] by (simp add: div_window)
qed

lemma enc_sextet4: "b64_sextet ((256 * w + z) mod 2 ^ 32) = b64_sextet z"
proof -
  have "b64_sextet ((256 * w + z) mod 2 ^ 32) = b64_sextet (64 * (4 * w) + z)"
    using sextet_window [of 0 "256 * w + z"] by simp
  then show ?thesis by (simp only: sextet_add)
qed

text \<open>The low bits of the accumulator after a step are those of the byte.\<close>

lemma acc_low:
  "(256 * v + x) mod 2 ^ 32 mod 4 = x mod 4" "(256 * v + x) mod 2 ^ 32 mod 16 = x mod 16"
  for v x :: nat
proof -
  have "256 * v + x = 4 * (64 * v) + x" by simp
  then show "(256 * v + x) mod 2 ^ 32 mod 4 = x mod 4"
    by (simp only: mod_pow32 mod_mult_self4)
  have "256 * v + x = 16 * (16 * v) + x" by simp
  then show "(256 * v + x) mod 2 ^ 32 mod 16 = x mod 16"
    by (simp only: mod_pow32 mod_mult_self4)
qed

section \<open>The encoder agrees with the reference\<close>

lemma enc_emit_neg [simp]: "valb < 0 \<Longrightarrow> enc_emit val valb out = (valb, out)"
  by (simp add: enc_emit.simps)

lemma enc_emit_pos:
  "0 \<le> valb \<Longrightarrow> enc_emit val valb out =
     enc_emit val (valb - 6) (out @ [b64_char (drop_bit (nat valb) val)])"
  by (simp add: enc_emit.simps [of val valb])

definition enc_finish :: "32 word \<times> int \<times> string \<Rightarrow> string" where
  "enc_finish = (\<lambda>(val, valb, out).
     enc_pad (if valb > -6
              then out @ [b64_char (drop_bit (nat (valb + 8)) (push_bit 8 val))] else out))"

lemma unat_push8: "unat (push_bit 8 (val :: 32 word)) = (256 * unat val) mod 2 ^ 32"
  using unat_enc_step [of val "CHR 0x00"] by simp

lemma enc_step1:
  "enc_loop (a # cs) val (-6) out =
     enc_loop cs (push_bit 8 val + of_char a) (-4) (out @ [b64_sextet (of_char a div 4)])"
  by (simp add: enc_emit_pos b64_char_drop unat_enc_step enc_sextet1 [simplified])

lemma enc_step2:
  assumes "unat val mod 4 = x mod 4"
  shows "enc_loop (b # cs) val (-4) out =
     enc_loop cs (push_bit 8 val + of_char b) (-2)
       (out @ [b64_sextet (x * 16 + of_char b div 16)])"
  using enc_sextet2 [OF assms] by (simp add: enc_emit_pos b64_char_drop unat_enc_step)

lemma enc_step3:
  assumes "unat val mod 16 = y mod 16"
  shows "enc_loop (c # cs) val (-2) out =
     enc_loop cs (push_bit 8 val + of_char c) (-6)
       (out @ [b64_sextet (y * 4 + of_char c div 64), b64_sextet (of_char c)])"
proof -
  have "b64_char (drop_bit 0 (push_bit 8 val + of_char c)) = b64_sextet (of_char c)"
    by (subst b64_char_drop) (simp_all add: unat_enc_step enc_sextet4 [simplified])
  then show ?thesis
    using enc_sextet3 [OF assms]
    by (simp add: enc_emit_pos b64_char_drop unat_enc_step)
qed

lemma enc_pad_0 [simp]: "length out mod 4 = 0 \<Longrightarrow> enc_pad out = out"
  by (simp add: enc_pad.simps)

lemma enc_pad_2: "length out mod 4 = 2 \<Longrightarrow> enc_pad out = out @ ''==''"
  by (simp add: enc_pad.simps [of out] enc_pad.simps [of "out @ _"] mod_Suc)

lemma enc_pad_3: "length out mod 4 = 3 \<Longrightarrow> enc_pad out = out @ ''=''"
  by (simp add: enc_pad.simps [of out] mod_Suc)

lemma enc_loop_ref:
  "length out mod 4 = 0 \<Longrightarrow> enc_finish (enc_loop cs val (-6) out) = out @ b64_ref cs"
proof (induction cs arbitrary: val out rule: b64_ref.induct)
  case 1
  then show ?case by (simp add: enc_finish_def)
next
  case (2 a)
  let ?v = "push_bit 8 val + of_char a :: 32 word"
  have "b64_char (drop_bit 4 (push_bit 8 ?v)) = b64_sextet (of_char a * 16 + 0 div 16)"
    using enc_sextet2 [of "unat ?v" "of_char a" 0] acc_low(1) [of "unat val" "of_char a"]
    by (simp add: b64_char_drop unat_push8 unat_enc_step)
  then show ?case
    using 2 by (simp add: enc_step1 enc_finish_def enc_pad_2 mod_Suc Let_def
        del: enc_loop.simps(2))
next
  case (3 a b)
  let ?v = "push_bit 8 val + of_char a :: 32 word"
  let ?w = "push_bit 8 ?v + of_char b :: 32 word"
  have s2: "unat ?v mod 4 = of_char a mod 4"
    using acc_low(1) [of "unat val" "of_char a"] by (simp add: unat_enc_step)
  have "b64_char (drop_bit 6 (push_bit 8 ?w)) = b64_sextet (of_char b * 4 + 0 div 64)"
    using enc_sextet3 [of "unat ?w" "of_char b" 0] acc_low(2) [of "unat ?v" "of_char b"]
    by (simp add: b64_char_drop unat_push8 unat_enc_step)
  then show ?case
    using 3 by (simp add: enc_step1 enc_step2 [OF s2] enc_finish_def enc_pad_3 mod_Suc Let_def
        del: enc_loop.simps(2))
next
  case (4 a b c r)
  let ?v = "push_bit 8 val + of_char a :: 32 word"
  let ?w = "push_bit 8 ?v + of_char b :: 32 word"
  have s2: "unat ?v mod 4 = of_char a mod 4"
    using acc_low(1) [of "unat val" "of_char a"] by (simp add: unat_enc_step)
  have s3: "unat ?w mod 16 = of_char b mod 16"
    using acc_low(2) [of "unat ?v" "of_char b"] by (simp add: unat_enc_step)
  show ?case
    using 4 by (simp add: enc_step1 enc_step2 [OF s2] enc_step3 [OF s3] mod_Suc Let_def
        del: enc_loop.simps(2))
qed

lemma base64_encode_is_ref: "base64_encode bs = b64_ref bs"
  using enc_loop_ref [of "[]" bs 0]
  by (simp add: base64_encode_def enc_finish_def split: prod.splits)

section \<open>Decoding undoes encoding\<close>

lemma b64_alphabet_index: "\<forall>i < 64. b64_index (b64_alphabet ! i) = Some i"
  by (code_simp)

lemma b64_index_sextet [simp]: "b64_index (b64_sextet n) = Some (n mod 64)"
  using b64_alphabet_index by (simp add: b64_sextet_def)

lemma b64_index_pad [simp]: "b64_index (CHR ''='') = None"
  by code_simp

lemma signed_window:
  assumes "k \<le> 24"
  shows "signed_drop_bit k (w :: 32 word) AND 0xFF = drop_bit k w AND 0xFF"
proof -
  have "(0xFF :: 32 word) = mask 8"
    by (simp add: mask_eq_exp_minus_1)
  then show ?thesis
    using assms by (auto simp: bit_eq_iff bit_simps)
qed

lemma dec_window:
  assumes "k \<le> 24"
  shows "char_of (unat (signed_drop_bit k (push_bit 6 (val :: 32 word) + of_nat t) AND 0xFF)) =
    char_of ((64 * unat val + t) div 2 ^ k)"
proof -
  have "((64 * unat val + t) mod 2 ^ 32) div 2 ^ k mod 2 ^ 8 = (64 * unat val + t) div 2 ^ k mod 2 ^ 8"
    using assms by (intro mod_div_mod_pow) simp
  then show ?thesis
    by (simp add: signed_window [OF assms] unat_and_mask unat_drop_bit unat_dec_step)
qed

lemma char_of_add256 [simp]: "char_of (256 * a + n :: nat) = char_of n"
  by (metis char_of_mod_256 mod_mult_self4)

lemma char_of_of_char_nat: "n = of_char c \<Longrightarrow> char_of (n :: nat) = c"
  by simp

lemma mod_shift: "h < b \<Longrightarrow> (x * b + h) mod (b * a) = (x mod a) * b + h" for x a b h :: nat
proof -
  assume "h < b"
  then show "(x * b + h) mod (b * a) = (x mod a) * b + h"
    by (simp add: mod_mult2_eq [of "x * b + h" b a])
qed

text \<open>One group of four characters carrying the three bytes \<open>x\<close>, \<open>y\<close>, \<open>z\<close>.\<close>

lemma dec_byte1:
  fixes x y v :: nat
  assumes "x < 256" "y < 256" and "v mod 64 = x div 4"
  shows "char_of ((64 * v + (x * 16 + y div 16) mod 64) div 16) = (char_of x :: char)"
proof -
  obtain a where a: "v = 64 * a + x div 4"
    using assms(3) by (metis mult_div_mod_eq)
  have q: "(x * 16 + y div 16) mod 64 = (x mod 4) * 16 + y div 16"
    using mod_shift [of "y div 16" 16 x 4] assms(2) by simp
  have "(64 * v + ((x mod 4) * 16 + y div 16)) div 16 = 4 * v + x mod 4"
    using assms(2) by simp
  also have "\<dots> = 256 * a + x"
    using a by simp
  finally show ?thesis
    using q by simp
qed

lemma dec_byte2:
  fixes y z v :: nat
  assumes "y < 256" "z < 256" and "v mod 16 = y div 16"
  shows "char_of ((64 * v + (y * 4 + z div 64) mod 64) div 4) = (char_of y :: char)"
proof -
  obtain a where a: "v = 16 * a + y div 16"
    using assms(3) by (metis mult_div_mod_eq)
  have q: "(y * 4 + z div 64) mod 64 = (y mod 16) * 4 + z div 64"
    using mod_shift [of "z div 64" 4 y 16] assms(2) by simp
  have "(64 * v + ((y mod 16) * 4 + z div 64)) div 4 = 16 * v + y mod 16"
    using assms(2) by simp
  also have "\<dots> = 256 * a + y"
    using a by simp
  finally show ?thesis
    using q by simp
qed

lemma dec_byte3:
  fixes z v :: nat
  assumes "z < 256" and "v mod 4 = z div 64"
  shows "char_of (64 * v + z mod 64) = (char_of z :: char)"
proof -
  obtain a where a: "v = 4 * a + z div 64"
    using assms(2) by (metis mult_div_mod_eq)
  have "64 * v + z mod 64 = 256 * a + z"
    using a by simp
  then show ?thesis by simp
qed

lemma dec_step1:
  "b64_index c = Some s \<Longrightarrow>
   dec_loop (c # cs) val (-8) out = dec_loop cs (push_bit 6 val + of_nat s) (-2) out"
  by simp

lemma dec_emit:
  assumes "b64_index c = Some s" "0 \<le> valb + 6" "valb + 6 \<le> 24"
  shows "dec_loop (c # cs) val valb out =
     dec_loop cs (push_bit 6 val + of_nat s) (valb - 2)
       (out @ [char_of ((64 * unat val + s) div 2 ^ nat (valb + 6))])"
  using assms by (simp add: Let_def dec_window)

lemma dec_step2:
  "b64_index c = Some s \<Longrightarrow>
   dec_loop (c # cs) val (-2) out =
     dec_loop cs (push_bit 6 val + of_nat s) (-4) (out @ [char_of ((64 * unat val + s) div 16)])"
  by (simp add: dec_emit del: dec_loop.simps(2))

lemma dec_step3:
  "b64_index c = Some s \<Longrightarrow>
   dec_loop (c # cs) val (-4) out =
     dec_loop cs (push_bit 6 val + of_nat s) (-6) (out @ [char_of ((64 * unat val + s) div 4)])"
  by (simp add: dec_emit del: dec_loop.simps(2))

lemma dec_step4:
  "b64_index c = Some s \<Longrightarrow>
   dec_loop (c # cs) val (-6) out =
     dec_loop cs (push_bit 6 val + of_nat s) (-8) (out @ [char_of (64 * unat val + s)])"
  by (simp add: dec_emit del: dec_loop.simps(2))

lemmas dec_steps = dec_step1 dec_step2 dec_step3 dec_step4

lemma acc6_low:
  "(64 * v + s) mod 2 ^ 32 mod 64 = s mod 64" "(64 * v + s) mod 2 ^ 32 mod 16 = s mod 16"
  "(64 * v + s) mod 2 ^ 32 mod 4 = s mod 4" for v s :: nat
proof -
  show "(64 * v + s) mod 2 ^ 32 mod 64 = s mod 64"
    by (simp only: mod_pow32 mod_mult_self4)
  have "64 * v + s = 16 * (4 * v) + s" by simp
  then show "(64 * v + s) mod 2 ^ 32 mod 16 = s mod 16"
    by (simp only: mod_pow32 mod_mult_self4)
  have "64 * v + s = 4 * (16 * v) + s" by simp
  then show "(64 * v + s) mod 2 ^ 32 mod 4 = s mod 4"
    by (simp only: mod_pow32 mod_mult_self4)
qed

lemma unat_dec_low:
  "unat (push_bit 6 (val :: 32 word) + of_nat s) mod 64 = s mod 64"
  "unat (push_bit 6 (val :: 32 word) + of_nat s) mod 16 = s mod 16"
  "unat (push_bit 6 (val :: 32 word) + of_nat s) mod 4 = s mod 4"
  by (simp_all only: unat_dec_step acc6_low)

lemma sextet_parts:
  fixes x y z :: nat
  assumes "y < 256" "z < 256"
  shows "(x * 16 + y div 16) mod 64 mod 16 = y div 16"
    and "(y * 4 + z div 64) mod 64 mod 4 = z div 64"
  using assms by (simp_all add: mod_mod_cancel)

lemma of_char_small: "of_char c < (256::nat)" "of_char c div 4 < (64::nat)"
  using nat_of_char_less_256 [of c] by (simp_all add: less_mult_imp_div_less del: nat_of_char_less_256)

text \<open>The bytes that come out of one group, whatever the accumulator held before.\<close>

lemma dec_chars:
  fixes val :: "32 word" and a b c :: char
  defines "x \<equiv> of_char a" and "y \<equiv> of_char b" and "z \<equiv> of_char c"
  defines "v1 \<equiv> push_bit 6 val + of_nat (x div 4 mod 64)"
  defines "v2 \<equiv> push_bit 6 v1 + of_nat ((x * 16 + y div 16) mod 64)"
  defines "v3 \<equiv> push_bit 6 v2 + of_nat ((y * 4 + z div 64) mod 64)"
  shows "char_of ((64 * unat v1 + (x * 16 + y div 16) mod 64) div 16) = a"
    and "char_of ((64 * unat v2 + (y * 4 + z div 64) mod 64) div 4) = b"
    and "char_of (64 * unat v3 + z mod 64) = c"
proof -
  have s: "x < 256" "y < 256" "z < 256" "x div 4 < 64"
    unfolding x_def y_def z_def by (rule of_char_small)+
  have "unat v1 mod 64 = x div 4"
    unfolding v1_def using s by (simp only: unat_dec_low) simp
  with s show "char_of ((64 * unat v1 + (x * 16 + y div 16) mod 64) div 16) = a"
    by (simp only: dec_byte1) (simp only: x_def char_of_char)
  have "unat v2 mod 16 = y div 16"
    unfolding v2_def using s by (simp only: unat_dec_low sextet_parts)
  with s show "char_of ((64 * unat v2 + (y * 4 + z div 64) mod 64) div 4) = b"
    by (simp only: dec_byte2) (simp only: y_def char_of_char)
  have "unat v3 mod 4 = z div 64"
    unfolding v3_def using s by (simp only: unat_dec_low sextet_parts)
  with s show "char_of (64 * unat v3 + z mod 64) = c"
    by (simp only: dec_byte3) (simp only: z_def char_of_char)
qed

lemma dec_loop_ref: "dec_loop (b64_ref cs) val (-8) out = out @ cs"
proof (induction cs arbitrary: val out rule: b64_ref.induct)
  case (2 a)
  then show ?case
    using dec_chars(1) [of val a "CHR 0x00"]
    by (simp only: Let_def b64_ref.simps dec_steps [OF b64_index_sextet]) simp
next
  case (3 a b)
  then show ?case
    using dec_chars(1) [of val a b] dec_chars(2) [of val a b "CHR 0x00"]
    by (simp only: Let_def b64_ref.simps dec_steps [OF b64_index_sextet]) simp
next
  case (4 a b c r)
  then show ?case
    using dec_chars(1) [of val a b] dec_chars(2) [of val a b c] dec_chars(3) [of val a b c]
    by (simp only: Let_def b64_ref.simps dec_steps [OF b64_index_sextet] append_Cons append_Nil)
      simp
qed simp

text \<open>
  C34. The table-free base64 encoder of the handshake, with its 32-bit accumulator that overflows on the way, computes
  the standard encoding (three bytes into four characters, padded with equals signs), for inputs of any
  length; and the decoder of the favicon undoes it.
\<close>

theorem base64_correct: "base64_encode bs = b64_ref bs \<and> base64_decode (base64_encode bs) = bs"
  by (simp add: base64_decode_def base64_encode_is_ref dec_loop_ref)

end
