(* ===== verification/WebSocket_RFC.thy ===== *)
theory WebSocket_RFC
  imports WebSocket
begin

text \<open>
  A WebSocket client as RFC 6455 describes it, and the correctness of the server's framing against
  it: unmasking, the round trips in both directions, pings, and the error branches.
\<close>

section \<open>The client\<close>

text \<open>Octet \<open>i\<close> of the payload is masked with octet \<open>i mod 4\<close> of the key.\<close>

definition ws_mask :: "string \<Rightarrow> string \<Rightarrow> string" where
  "ws_mask key p = map (\<lambda>i. chr_of (byte_of (p ! i) XOR byte_of (key ! (i mod 4)))) [0..<length p]"

text \<open>The length field of a masked frame: 7 bits, or 126 and 16 bits, or 127 and 64 bits.\<close>

definition client_len :: "nat \<Rightarrow> string" where
  "client_len n =
     (if n < 126 then [char_of (128 + n)]
      else if n < 65536 then CHR 0xFE # be_bytes 2 n
      else CHR 0xFF # be_bytes 8 n)"

definition client_body :: "string \<Rightarrow> string \<Rightarrow> string" where
  "client_body key p = client_len (length p) @ key @ ws_mask key p"

definition client_frame :: "nat \<Rightarrow> string \<Rightarrow> string \<Rightarrow> string" where
  "client_frame opcode key p = char_of (128 + opcode) # client_body key p"

text \<open>Reading a frame of the server: it is not masked.\<close>

definition take_payload :: "nat \<Rightarrow> nat \<Rightarrow> string \<Rightarrow> (nat \<times> string \<times> string) option" where
  "take_payload op n t = (if n \<le> length t then Some (op, take n t, drop n t) else None)"

fun client_decode :: "string \<Rightarrow> (nat \<times> string \<times> string) option" where
  "client_decode (fo # l # t) =
     (let n = of_char l; op = of_char fo
      in if n < 126 then take_payload op n t
         else if n = 126 then
           (if 2 \<le> length t then take_payload op (be_val (take 2 t)) (drop 2 t) else None)
         else if n = 127 then
           (if 8 \<le> length t then take_payload op (be_val (take 8 t)) (drop 8 t) else None)
         else None)"
| "client_decode _ = None"

section \<open>Unmasking\<close>

lemma length_ws_mask [simp]: "length (ws_mask key p) = length p"
  by (simp add: ws_mask_def)

lemma nth_ws_mask:
  "i < length p \<Longrightarrow> ws_mask key p ! i = chr_of (byte_of (p ! i) XOR byte_of (key ! (i mod 4)))"
  by (simp add: ws_mask_def)

lemma ws_mask_involution [simp]: "ws_mask key (ws_mask key p) = p"
  by (rule nth_equalityI) (simp_all add: nth_ws_mask xor.assoc)

lemma byte_high_bits [simp]:
  "\<not> bit (w :: byte) (8 + n)" "\<not> bit (w :: byte) (16 + n)" "\<not> bit (w :: byte) (24 + n)"
  by (auto dest: bit_imp_le_length)

lemma mask_byte_load32:
  assumes "length key = 4" "j < 4"
  shows "mask_byte (load32 key) j = byte_of (key ! j)"
proof -
  have ff: "(0xFF :: 32 word) = mask 8"
    by (simp add: mask_eq_exp_minus_1)
  have eq: "mask_byte (load32 key) 0 = byte_of (key ! 0)"
    "mask_byte (load32 key) 1 = byte_of (key ! 1)" "mask_byte (load32 key) 2 = byte_of (key ! 2)"
    "mask_byte (load32 key) 3 = byte_of (key ! 3)"
    unfolding mask_byte_def load32_def ff
    by (rule bit_word_eqI; simp add: bit_simps; fail)+
  have "j = 0 \<or> j = 1 \<or> j = 2 \<or> j = 3"
    using assms(2) by linarith
  with eq show ?thesis by (elim disjE) simp_all
qed

lemma store32_xor:
  assumes "length key = 4"
  shows "store32 (load32 [a, b, c, d] XOR load32 key) =
    [chr_of (byte_of a XOR byte_of (key ! 0)), chr_of (byte_of b XOR byte_of (key ! 1)),
     chr_of (byte_of c XOR byte_of (key ! 2)), chr_of (byte_of d XOR byte_of (key ! 3))]"
  unfolding store32_def load32_def
  by (auto simp: bit_eq_iff bit_simps)

lemma length_unmask [simp]: "length (unmask mk p) = length p"
  by (induction mk p rule: unmask.induct) (auto simp: store32_def)

lemma ws_mask_short:
  assumes "length key = 4" "length p < 4"
  shows "map (\<lambda>j. chr_of (byte_of (p ! j) XOR mask_byte (load32 key) j)) [0..<length p] = ws_mask key p"
  using assms by (intro nth_equalityI) (auto simp: nth_ws_mask mask_byte_load32)

lemma ws_mask_chunk:
  assumes "length key = 4"
  shows "ws_mask key (a # b # c # d # r) =
    [chr_of (byte_of a XOR byte_of (key ! 0)), chr_of (byte_of b XOR byte_of (key ! 1)),
     chr_of (byte_of c XOR byte_of (key ! 2)), chr_of (byte_of d XOR byte_of (key ! 3))]
    @ ws_mask key r" (is "?l = ?h @ _")
proof (rule nth_equalityI)
  fix i assume i: "i < length ?l"
  show "?l ! i = (?h @ ws_mask key r) ! i"
  proof (cases "i < 4")
    case True
    then have "i = 0 \<or> i = 1 \<or> i = 2 \<or> i = 3" by linarith
    with i show ?thesis by (elim disjE) (simp_all add: nth_ws_mask)
  next
    case False
    then obtain k where "i = 4 + k"
      by (metis le_Suc_ex not_less)
    then have k: "i = Suc (Suc (Suc (Suc k)))" by simp
    moreover have "Suc (Suc (Suc (Suc k))) mod 4 = k mod 4"
      by presburger
    ultimately show ?thesis
      using i by (simp add: nth_ws_mask)
  qed
qed simp

lemma unmask_bytewise:
  assumes "length key = 4"
  shows "unmask (load32 key) p = ws_mask key p"
  using assms
proof (induction "load32 key" p rule: unmask.induct)
  case (1 a b c d r)
  then show ?case
    by (simp add: store32_xor ws_mask_chunk)
qed (simp_all add: ws_mask_def mask_byte_load32)

section \<open>The server reads what a client sends\<close>

lemma rx_read_exact:
  assumes "rx_clean r" "rx_bytes r = a @ rest" "length a = n"
  obtains r' where "rx_read n r = (Inr a, r')" "rx_bytes r' = rest" "rx_clean r'"
  using rx_read_ok [OF assms(1), of n] assms(2,3) by auto

lemma byte_of_char_of: "byte_of (char_of n) = of_nat n"
proof -
  have "unat (byte_of (char_of n)) = unat (of_nat n :: byte)"
    by (simp add: of_char_of unat_of_nat)
  then show ?thesis by (simp only: word_unat_eq_iff)
qed

lemma byte_masks_all:
  "\<forall>n < 128. (of_nat (128 + n) :: byte) AND 0x80 \<noteq> 0 \<and> (of_nat (128 + n) :: byte) AND 0x7F = of_nat n"
  by code_simp

lemma byte_masks:
  "n < 128 \<Longrightarrow> byte_of (char_of (128 + n)) AND 0x80 \<noteq> 0"
  "n < 128 \<Longrightarrow> byte_of (char_of (128 + n)) AND 0x7F = of_nat n"
  using byte_masks_all by (simp_all add: byte_of_char_of del: of_nat_add)

lemma low_nibble_all: "\<forall>n < 16. (of_nat (128 + n) :: byte) AND 0xF = of_nat n"
  by code_simp

lemma low_nibble: "n < 16 \<Longrightarrow> byte_of (char_of (128 + n)) AND 0xF = of_nat n"
  using low_nibble_all by (simp add: byte_of_char_of del: of_nat_add)

text \<open>The 64-bit length is put together from two 32-bit halves.\<close>

lemma be_val_append: "be_val (a @ b) = be_val a * 256 ^ length b + be_val b"
proof (induction b rule: rev_induct)
  case (snoc c b)
  have "be_val (a @ b @ [c]) = 256 * be_val (a @ b) + of_char c"
    using be_val_snoc [of "a @ b" c] by simp
  then show ?case
    using snoc by (simp add: algebra_simps)
qed simp

lemma unat_join64:
  assumes "hi < 2 ^ 32" "lo < 2 ^ 32"
  shows "unat (push_bit 32 (of_nat hi) OR of_nat lo :: 64 word) = hi * 2 ^ 32 + lo"
proof -
  have "(push_bit 32 (of_nat hi) :: 64 word) AND of_nat lo = 0"
  proof (rule bit_word_eqI)
    fix n assume "n < LENGTH(64)"
    show "bit ((push_bit 32 (of_nat hi) :: 64 word) AND of_nat lo) n = bit (0 :: 64 word) n"
    proof (cases "n < 32")
      case False
      have "take_bit 32 lo = lo"
        using assms(2) by (simp add: take_bit_nat_eq_self)
      then have "\<not> bit lo n"
        using False by (metis bit_take_bit_iff)
      then show ?thesis by (simp add: bit_simps)
    qed (simp add: bit_simps)
  qed
  then have "(push_bit 32 (of_nat hi) OR of_nat lo :: 64 word) = push_bit 32 (of_nat hi) + of_nat lo"
    by (rule disjunctive_add_eq_or [symmetric])
  also have "\<dots> = of_nat (hi * 2 ^ 32 + lo)"
    by (simp add: push_bit_eq_mult)
  finally have "unat (push_bit 32 (of_nat hi) OR of_nat lo :: 64 word)
      = (hi * 2 ^ 32 + lo) mod 2 ^ LENGTH(64)"
    by (simp only: unat_of_nat)
  moreover have "hi * 2 ^ 32 + lo < 2 ^ 64"
    using assms by simp
  ultimately show ?thesis by simp
qed

lemma ws_paylen_small:
  "n < 126 \<Longrightarrow> ws_paylen (of_nat n) r = (Inr n, r)"
proof -
  assume n: "n < 126"
  then have u: "unat (of_nat n :: byte) = n"
    by (simp add: unat_of_nat)
  then have "(of_nat n :: byte) \<noteq> 126" "(of_nat n :: byte) \<noteq> 127"
    using n by auto
  then show ?thesis
    using u by (simp add: ws_paylen_def)
qed

lemma ws_paylen_16:
  assumes "rx_clean r" "rx_bytes r = be_bytes 2 n @ rest" "n < 65536"
  obtains r' where "ws_paylen 126 r = (Inr n, r')" "rx_bytes r' = rest" "rx_clean r'"
proof -
  obtain r' where "rx_read 2 r = (Inr (be_bytes 2 n), r')" "rx_bytes r' = rest" "rx_clean r'"
    using rx_read_exact [OF assms(1,2)] by auto
  moreover have "be_val (be_bytes 2 n) = n"
    using assms(3) by (intro be_val_be_bytes) simp
  ultimately show thesis
    by (intro that [of r']) (simp_all add: ws_paylen_def)
qed

lemma ws_paylen_64:
  assumes "rx_clean r" "rx_bytes r = be_bytes 8 n @ rest" "n < 2 ^ 64"
  obtains r' where "ws_paylen 127 r =
      (if n \<le> 2 ^ 40 then Inr n else Inl Silent_exception, r')" "rx_bytes r' = rest" "rx_clean r'"
proof -
  define hi lo where "hi = take 4 (be_bytes 8 n)" and "lo = drop 4 (be_bytes 8 n)"
  have len: "length hi = 4" "length lo = 4" and cat: "be_bytes 8 n = hi @ lo"
    by (simp_all add: hi_def lo_def)
  have "be_val (hi @ lo) = n"
    unfolding cat [symmetric] using assms(3) by (intro be_val_be_bytes) simp
  then have val: "be_val hi * 2 ^ 32 + be_val lo = n"
    by (simp add: be_val_append len)
  have "be_val hi < 256 ^ 4" "be_val lo < 256 ^ 4"
    using be_val_less [of hi] be_val_less [of lo] by (simp_all only: len)
  then have u: "unat (push_bit 32 (of_nat (be_val hi)) OR of_nat (be_val lo) :: 64 word) = n"
    using unat_join64 [of "be_val hi" "be_val lo"] val by simp
  have lim: "((1099511627776 :: 64 word) < w) = (1099511627776 < unat w)" for w :: "64 word"
    by (simp add: word_less_nat_alt)
  obtain r1 where 1: "rx_read 4 r = (Inr hi, r1)" "rx_bytes r1 = lo @ rest" "rx_clean r1"
    using rx_read_exact [OF assms(1), of hi "lo @ rest" 4] assms(2) len cat by auto
  obtain r2 where 2: "rx_read 4 r1 = (Inr lo, r2)" "rx_bytes r2 = rest" "rx_clean r2"
    using rx_read_exact [OF 1(3,2)] len by auto
  have "ws_paylen 127 r = (if n \<le> 2 ^ 40 then Inr n else Inl Silent_exception, r2)"
    using 1(1) 2(1) by (auto simp: ws_paylen_def Let_def lim u)
  with 2 show thesis by (intro that [of r2])
qed

lemma client_len_read:
  assumes "n \<le> 2 ^ 40" "rx_clean r" "rx_bytes r = client_len n @ rest"
  obtains h r1 r' where "rx_read 1 r = (Inr [h], r1)" "byte_of h AND 0x80 \<noteq> 0"
    "ws_paylen (byte_of h AND 0x7F) r1 = (Inr n, r')" "rx_bytes r' = rest" "rx_clean r'"
proof -
  obtain h ext where he: "client_len n = h # ext"
    by (cases "client_len n") (auto simp: client_len_def split: if_splits)
  obtain r1 where r1: "rx_read 1 r = (Inr [h], r1)" "rx_bytes r1 = ext @ rest" "rx_clean r1"
    using rx_read_exact [OF assms(2), of "[h]" "ext @ rest" 1] assms(3) he by auto
  consider (small) "n < 126" | (mid) "126 \<le> n" "n < 65536" | (big) "65536 \<le> n" by linarith
  then show thesis
  proof cases
    case small
    then show thesis
      using he r1 byte_masks [of n] ws_paylen_small [of n r1]
      by (intro that [of h r1 r1]) (auto simp: client_len_def)
  next
    case mid
    then have h: "h = CHR 0xFE" and e: "ext = be_bytes 2 n"
      using he by (auto simp: client_len_def)
    obtain r' where "ws_paylen 126 r1 = (Inr n, r')" "rx_bytes r' = rest" "rx_clean r'"
      using ws_paylen_16 r1(2,3) mid(2) e by metis
    then show thesis
      using r1 h by (intro that [of h r1 r']) (simp_all add: byte_of_def)
  next
    case big
    then have h: "h = CHR 0xFF" and e: "ext = be_bytes 8 n"
      using he by (auto simp: client_len_def)
    obtain r' where "ws_paylen 127 r1 = (Inr n, r')" "rx_bytes r' = rest" "rx_clean r'"
      using ws_paylen_64 [OF r1(3), of n rest] r1(2) e assms(1) by auto
    then show thesis
      using r1 h by (intro that [of h r1 r']) (simp_all add: byte_of_def)
  qed
qed

lemma get_websocket_data_roundtrip:
  assumes "rx_clean r" "rx_bytes r = client_body key p @ rest" "length key = 4" "length p \<le> 2 ^ 40"
  shows "\<exists>r'. get_websocket_data r = (Inr p, r') \<and> rx_bytes r' = rest \<and> rx_clean r'"
proof -
  obtain h r1 r2 where 1: "rx_read 1 r = (Inr [h], r1)" "byte_of h AND 0x80 \<noteq> 0"
    "ws_paylen (byte_of h AND 0x7F) r1 = (Inr (length p), r2)"
    "rx_bytes r2 = key @ ws_mask key p @ rest" "rx_clean r2"
    using client_len_read [OF assms(4,1), of "key @ ws_mask key p @ rest"] assms(2)
    by (auto simp: client_body_def)
  obtain r3 where 3: "rx_read 4 r2 = (Inr key, r3)" "rx_bytes r3 = ws_mask key p @ rest" "rx_clean r3"
    using rx_read_exact [OF 1(5,4)] assms(3) by auto
  obtain r4 where 4: "rx_read (length p) r3 = (Inr (ws_mask key p), r4)" "rx_bytes r4 = rest" "rx_clean r4"
    using rx_read_exact [OF 3(3,2)] by auto
  have "get_websocket_data r = (Inr (unmask (load32 key) (ws_mask key p)), r4)"
    using 1 3 4 by (simp add: get_websocket_data_def Let_def)
  with 4 show ?thesis
    by (simp add: unmask_bytewise assms(3))
qed

lemma ws_line_loop_text:
  "ws_line_loop 1 r s = (case get_websocket_data r of (res, r1) \<Rightarrow> (res, r1, s))"
  by (simp add: ws_line_loop.simps)

lemma client_frame_start:
  assumes "rx_clean r" "rx_bytes r = client_frame op key p @ rest" "op < 16"
  obtains c r1 where "rx_read 1 r = (Inr [c], r1)" "byte_of c AND 0xF = of_nat op"
    "rx_bytes r1 = client_body key p @ rest" "rx_clean r1"
proof -
  obtain r1 where "rx_read 1 r = (Inr [char_of (128 + op)], r1)"
    "rx_bytes r1 = client_body key p @ rest" "rx_clean r1"
    using rx_read_exact [OF assms(1), of "[char_of (128 + op)]" "client_body key p @ rest" 1] assms(2)
    by (auto simp: client_frame_def)
  then show thesis
    using low_nibble [OF assms(3)] by (intro that [of "char_of (128 + op)" r1])
qed

text \<open>A masked text frame comes back as its payload, and nothing is sent.\<close>

lemma get_websocket_line_text:
  assumes "rx_clean r" "rx_bytes r = client_frame 1 key p @ rest" "length key = 4" "length p \<le> 2 ^ 40"
  shows "\<exists>r'. get_websocket_line r s = (Inr p, r', s) \<and> rx_bytes r' = rest \<and> rx_clean r'"
proof -
  obtain c r1 where 1: "rx_read 1 r = (Inr [c], r1)" "byte_of c AND 0xF = 1"
    "rx_bytes r1 = client_body key p @ rest" "rx_clean r1"
    using client_frame_start [OF assms(1,2)] by auto
  obtain r2 where 2: "get_websocket_data r1 = (Inr p, r2)" "rx_bytes r2 = rest" "rx_clean r2"
    using get_websocket_data_roundtrip [OF 1(4,3) assms(3,4)] by blast
  show ?thesis
    using 1 2 by (simp add: get_websocket_line_def ws_line_loop_text)
qed

subsection \<open>Pings\<close>

text \<open>The unmasked control frame that answers a ping.\<close>

definition pong_frame :: "string \<Rightarrow> string" where
  "pong_frame d = CHR 0x8A # char_of (length d) # d"

lemma send_ping_reply_up:
  assumes "has_socket s" "sock_up s" "length d < 256"
  shows "send_ping_reply d s = (Inr (), s\<lparr>tx := tx s @ pong_frame d\<rparr>)"
proof -
  have "chr_of (of_nat (length d)) = char_of (length d)"
    by (metis byte_of_char_of chr_of_byte_of)
  then show ?thesis
    using assms by (cases d) (simp_all add: send_ping_reply_def pong_frame_def act_seq_def act_bind_def)
qed

lemma get_websocket_line_ping:
  assumes "rx_clean r" "rx_bytes r = client_frame 9 key d @ rest" "length key = 4" "length d < 126"
    and "has_socket s" "sock_up s"
  shows "\<exists>r'. get_websocket_line r s = get_websocket_line r' (s\<lparr>tx := tx s @ pong_frame d\<rparr>)
    \<and> rx_bytes r' = rest \<and> rx_clean r'"
proof -
  obtain c r1 where 1: "rx_read 1 r = (Inr [c], r1)" "byte_of c AND 0xF = 9"
    "rx_bytes r1 = client_body key d @ rest" "rx_clean r1"
    using client_frame_start [OF assms(1,2)] by auto
  obtain r2 where 2: "get_websocket_data r1 = (Inr d, r2)" "rx_bytes r2 = rest" "rx_clean r2"
    using get_websocket_data_roundtrip [OF 1(4,3) assms(3)] assms(4) by auto
  have "send_ping_reply d s = (Inr (), s\<lparr>tx := tx s @ pong_frame d\<rparr>)"
    using assms by (intro send_ping_reply_up) simp_all
  then have "get_websocket_line r s = get_websocket_line r2 (s\<lparr>tx := tx s @ pong_frame d\<rparr>)"
    using 1 2 by (simp add: get_websocket_line_def ws_line_loop.simps [of 9])
  with 2 show ?thesis by blast
qed

text \<open>
  C6. A client that sends any number of pings and then a text frame, masked and framed as the standard
  says and cut up by the network in any way: each ping is answered in order with its own data, and the text
  is returned unmasked and complete, up to \<open>2 ^ 40\<close> bytes; what follows is left in the stream.
\<close>

theorem get_websocket_line_pings:
  assumes "rx_clean r" "has_socket s" "sock_up s" "length key = 4" "length p \<le> 2 ^ 40"
    and "\<forall>(k, d) \<in> set pings. length k = 4 \<and> length d < 126"
    and "rx_bytes r = concat (map (\<lambda>(k, d). client_frame 9 k d) pings) @ client_frame 1 key p @ rest"
  shows "\<exists>r'. get_websocket_line r s =
      (Inr p, r', s\<lparr>tx := tx s @ concat (map (\<lambda>(k, d). pong_frame d) pings)\<rparr>)
    \<and> rx_bytes r' = rest \<and> rx_clean r'"
  using assms
proof (induction pings arbitrary: r s)
  case Nil
  then show ?case
    using get_websocket_line_text [of r key p rest s] by simp
next
  case (Cons kd pings)
  obtain k d where kd: "kd = (k, d)" by (cases kd)
  define s1 where "s1 = s\<lparr>tx := tx s @ pong_frame d\<rparr>"
  obtain r1 where 1: "get_websocket_line r s = get_websocket_line r1 s1"
    "rx_bytes r1 = concat (map (\<lambda>(k, d). client_frame 9 k d) pings) @ client_frame 1 key p @ rest"
    "rx_clean r1"
    using get_websocket_line_ping [of r k d _ s] Cons.prems kd unfolding s1_def by auto
  have "\<exists>r'. get_websocket_line r1 s1 =
      (Inr p, r', s1\<lparr>tx := tx s1 @ concat (map (\<lambda>(k, d). pong_frame d) pings)\<rparr>)
    \<and> rx_bytes r' = rest \<and> rx_clean r'"
    using Cons.prems 1 by (intro Cons.IH) (auto simp: s1_def)
  then show ?case
    using 1 kd by (auto simp: s1_def)
qed

lemma take_payload_shorter:
  "take_payload op n t = Some (op', p, u) \<Longrightarrow> length p = n \<and> p @ u = t"
  by (auto simp: take_payload_def split: if_splits)

lemma client_decode_length:
  assumes "client_decode (fo # l # t) = Some (op, p, u)"
  shows "(of_char l < (126 :: nat) \<and> length p = of_char l) \<or>
    (of_char l \<ge> (126 :: nat) \<and> length p < length t)"
proof (cases "of_char l < (126 :: nat)")
  case True
  then show ?thesis
    using assms take_payload_shorter by (fastforce simp: Let_def)
next
  case False
  then obtain k n where "take_payload (of_char fo) n (drop k t) = Some (op, p, u)" "0 < k" "k \<le> length t"
    using assms by (fastforce simp: Let_def split: if_splits)
  then show ?thesis
    using False take_payload_shorter [of "of_char fo" n "drop k t" op p u]
    by (metis append_eq_conv_conj diff_less_mono2 drop_append le_less_trans leD length_append
        length_drop less_le_trans linorder_not_le le_add1 diff_less)
qed

text \<open>
  A reply to a ping of 126 bytes or more is not a frame that a client can read: its length does
  not fit the one byte that the code gives it.
\<close>

theorem long_ping_reply_unreadable:
  assumes "has_socket s" "sock_up s" "126 \<le> length d"
  shows "\<exists>out. send_ping_reply d s = (Inr (), s\<lparr>tx := tx s @ out\<rparr>)
    \<and> (\<forall>op rest. client_decode out \<noteq> Some (op, d, rest))"
proof -
  define l where "l = chr_of (of_nat (length d))"
  have eq: "send_ping_reply d s = (Inr (), s\<lparr>tx := tx s @ (CHR 0x8A # l # d)\<rparr>)"
    using assms by (cases d) (simp_all add: send_ping_reply_def l_def act_seq_def act_bind_def)
  have "client_decode (CHR 0x8A # l # d) \<noteq> Some (op, d, rest)" for op rest
  proof
    assume "client_decode (CHR 0x8A # l # d) = Some (op, d, rest)"
    from client_decode_length [OF this] show False
      using assms(3) by linarith
  qed
  with eq show ?thesis by blast
qed

section \<open>A client reads what the server sends\<close>

lemma len_byte_char: "len_byte w k = char_of (unat w div 256 ^ k)"
proof -
  have ff: "(0xFF :: 64 word) = mask 8"
    by (simp add: mask_eq_exp_minus_1)
  have "unat (take_bit 8 (drop_bit (8 * k) w)) = take_bit 8 (unat (drop_bit (8 * k) w))"
    by (simp only: unsigned_take_bit_eq)
  then have "unat (ucast (drop_bit (8 * k) w AND 0xFF) :: byte) = unat (drop_bit (8 * k) w) mod 256"
    unfolding ff take_bit_eq_mask [symmetric]
    by (simp only: unsigned_ucast_eq) (simp add: take_bit_eq_mod)
  moreover have "unat (drop_bit (8 * k) w) = unat w div 256 ^ k"
    by (simp only: unat_drop_bit power_mult) simp
  ultimately show ?thesis
    by (simp add: len_byte_def chr_of_def)
qed

lemma be_bytes_char: "be_bytes 2 n = [char_of (n div 256), char_of n]"
  "be_bytes 8 n = [char_of (n div 256 ^ 7), char_of (n div 256 ^ 6), char_of (n div 256 ^ 5),
     char_of (n div 256 ^ 4), char_of (n div 256 ^ 3), char_of (n div 256 ^ 2),
     char_of (n div 256), char_of n]"
  by (simp_all add: be_bytes_map upt_rec)

lemma ws_header_bytes:
  assumes "n < 2 ^ 64"
  shows "ws_header (of_nat n) =
    (if n < 126 then [CHR 0x81, char_of n]
     else if n < 65536 then CHR 0x81 # CHR 0x7E # be_bytes 2 n
     else CHR 0x81 # CHR 0x7F # be_bytes 8 n)"
proof -
  have u: "unat (of_nat n :: 64 word) = n"
    using assms by (simp add: unat_of_nat)
  have lt: "((of_nat n :: 64 word) < 126) = (n < 126)" "((of_nat n :: 64 word) < 65536) = (n < 65536)"
    by (simp_all add: word_less_nat_alt u)
  have "n < 126 \<Longrightarrow> chr_of (ucast (of_nat n :: 64 word)) = char_of n"
    using u by (simp add: chr_of_def unsigned_ucast_eq take_bit_eq_mod)
  then show ?thesis
    unfolding ws_header_def be_bytes_char len_byte_char by (simp add: lt u)
qed

text \<open>
  C9. A text of any length below \<open>2 ^ 64\<close> that the server sends over a websocket is one frame that a client
  decodes to exactly that text, in all three length formats.
\<close>

theorem send_websocket_roundtrip:
  assumes "has_socket s" "sock_up s" "length cmd < 2 ^ 64"
  shows "\<exists>out. send_websocket cmd s = (Inr (), s\<lparr>tx := tx s @ out\<rparr>)
    \<and> client_decode (out @ rest) = Some (0x81, cmd, rest)"
proof -
  let ?out = "ws_header (of_nat (length cmd)) @ cmd"
  have "send_websocket cmd s = (Inr (), s\<lparr>tx := tx s @ ?out\<rparr>)"
    using assms by (simp add: send_websocket_def)
  moreover have "client_decode (?out @ rest) = Some (0x81, cmd, rest)"
  proof -
    consider (small) "length cmd < 126" | (mid) "126 \<le> length cmd" "length cmd < 65536"
      | (big) "65536 \<le> length cmd" by linarith
    then show ?thesis
    proof cases
      case small
      then show ?thesis
        using assms(3) by (simp add: ws_header_bytes take_payload_def of_char_of)
    next
      case mid
      then show ?thesis
        using assms(3) be_val_be_bytes [of "length cmd" 2]
        by (simp add: ws_header_bytes take_payload_def del: be_bytes.simps)
    next
      case big
      then show ?thesis
        using assms(3) be_val_be_bytes [of "length cmd" 8]
        by (simp add: ws_header_bytes take_payload_def del: be_bytes.simps)
    qed
  qed
  ultimately show ?thesis by blast
qed

section \<open>Refused frames\<close>

text \<open>An unmasked frame, a frame that claims more than \<open>2 ^ 40\<close> bytes, and a close frame.\<close>

lemma get_websocket_data_unmasked:
  assumes "rx_clean r" "rx_bytes r = c # rest" "of_char c < (126 :: nat)"
  shows "fst (get_websocket_data r) = Inl Silent_exception"
proof -
  obtain r1 where 1: "rx_read 1 r = (Inr [c], r1)"
    using rx_read_exact [OF assms(1), of "[c]" rest 1] assms(2) by auto
  have c: "byte_of c = of_nat (of_char c)"
    by (metis byte_of_char_of char_of_char)
  have "\<forall>n < 126. (of_nat n :: byte) AND 0x80 = 0 \<and> (of_nat n :: byte) AND 0x7F = of_nat n"
    by code_simp
  then have "byte_of c AND 0x80 = 0" "byte_of c AND 0x7F = of_nat (of_char c)"
    using assms(3) c by (metis)+
  then show ?thesis
    using 1 ws_paylen_small [OF assms(3), of r1]
    by (simp add: get_websocket_data_def Let_def)
qed

lemma get_websocket_data_insane:
  assumes "rx_clean r" "rx_bytes r = CHR 0xFF # be_bytes 8 n @ rest" "2 ^ 40 < n" "n < 2 ^ 64"
  shows "fst (get_websocket_data r) = Inl Silent_exception"
proof -
  obtain r1 where 1: "rx_read 1 r = (Inr [CHR 0xFF], r1)" "rx_bytes r1 = be_bytes 8 n @ rest" "rx_clean r1"
    using rx_read_exact [OF assms(1), of "[CHR 0xFF]" "be_bytes 8 n @ rest" 1] assms(2) by auto
  obtain r2 where "ws_paylen 127 r1 = (Inl Silent_exception, r2)"
    using ws_paylen_64 [OF 1(3,2) assms(4)] assms(3) by auto
  then show ?thesis
    using 1 by (simp add: get_websocket_data_def Let_def byte_of_def)
qed

lemma get_websocket_line_close:
  assumes "rx_clean r" "rx_bytes r = client_frame 8 key p @ rest"
  shows "\<exists>r'. get_websocket_line r s = (Inl Silent_exception, r', s)"
proof -
  obtain c r1 where "rx_read 1 r = (Inr [c], r1)" "byte_of c AND 0xF = of_nat 8"
    by (rule client_frame_start [OF assms]) simp
  then show ?thesis
    by (simp add: get_websocket_line_def ws_line_loop.simps)
qed

section \<open>Instances\<close>

abbreviation ws0 :: server_socket where
  "ws0 \<equiv> set_connection (new_server_socket 0)"

theorem send_websocket_roundtrip_witness:
  "\<exists>out. send_websocket ''hello'' ws0 = (Inr (), ws0\<lparr>tx := tx ws0 @ out\<rparr>)
    \<and> client_decode (out @ ''more'') = Some (0x81, ''hello'', ''more'')"
  by (rule send_websocket_roundtrip) (simp_all add: set_connection_def new_server_socket_def)

theorem long_ping_reply_unreadable_witness:
  "\<exists>out. send_ping_reply (replicate 126 (CHR ''a'')) ws0 = (Inr (), ws0\<lparr>tx := tx ws0 @ out\<rparr>)
    \<and> (\<forall>op rest. client_decode out \<noteq> Some (op, replicate 126 (CHR ''a''), rest))"
  by (rule long_ping_reply_unreadable) (simp_all add: set_connection_def new_server_socket_def)

theorem get_websocket_line_pings_witness:
  "\<exists>r'. get_websocket_line [Chunk (client_frame 9 ''abcd'' ''x''), Chunk (client_frame 1 ''wxyz'' ''(ok)'' @ ''rest'')] ws0 =
      (Inr ''(ok)'', r', ws0\<lparr>tx := tx ws0 @ concat (map (\<lambda>(k, d). pong_frame d) [(''abcd'', ''x'')])\<rparr>)
    \<and> rx_bytes r' = ''rest'' \<and> rx_clean r'"
  by (rule get_websocket_line_pings [of _ _ "''wxyz''"]) (simp_all add: set_connection_def new_server_socket_def)

end
