(* ===== verification/Connection.thy ===== *)
theory Connection
  imports WebSocket
begin

text \<open>
  \<^verbatim>\<open>ServerSocket::handle_connection\<close>: the loop that one thread runs for one connection, from the
  first byte to the destructor. The virtual methods \<^verbatim>\<open>OnConnection\<close> and \<^verbatim>\<open>OnLine\<close> are arguments,
  so the results hold for the console, the web server and the MCP server alike.
\<close>

section \<open>One pass through the loop\<close>

text \<open>
  How a connection ends: closed in the ordinary way, or by an exception that nothing catches, which
  terminates the whole server.
\<close>

datatype conn_end = Closed | Terminated exn

datatype loop_outcome = Again | Break | Uncaught exn

record 's handlers =
  sha1 :: "string \<Rightarrow> string"
  OnConnection :: "('s, unit) act"
  OnLine :: "string \<Rightarrow> ('s, unit) act"
  clock :: "nat \<Rightarrow> int"

text \<open>The D-Bus daemon's greeting, which is dropped together with the connection.\<close>

definition dbus_garbage :: "string \<Rightarrow> bool" where
  "dbus_garbage line \<longleftrightarrow> 1 < length line \<and> line ! 0 = CHR 0x01 \<and> line ! 1 = CHR 0x21"

definition read_line ::
  "string \<Rightarrow> rx \<Rightarrow> 'a server_socket_scheme \<Rightarrow> string res \<times> string \<times> rx \<times> 'a server_socket_scheme" where
  "read_line b r s =
     (if \<not> do_frame_io s
      then case get_telnet_line b r of (res, b', r') \<Rightarrow> (res, b', r', s)
      else case get_websocket_line r s of (res, r', s') \<Rightarrow> (res, b, r', s'))"

text \<open>What is done with a line once it is there.\<close>

definition http_request ::
  "('a server_socket_scheme) handlers \<Rightarrow> string \<Rightarrow> rx \<Rightarrow> 'a server_socket_scheme \<Rightarrow>
   unit res \<times> string \<times> rx \<times> 'a server_socket_scheme" where
  "http_request h b r s =
     (case get_http_body (content_length s) b r of
        (Inl e, b', r') \<Rightarrow> (Inl e, b', r', s)
      | (Inr body, b', r') \<Rightarrow>
          (case OnLine h body s of
             (Inl e, s') \<Rightarrow> (Inl e, b', r', s')
           | (Inr _, s') \<Rightarrow>
               (Inr (), b', r',
                s'\<lparr>got_http_header := False, got_first_line := False, content_length := 0\<rparr>)))"

definition process_line ::
  "('a server_socket_scheme) handlers \<Rightarrow> string \<Rightarrow> string \<Rightarrow> rx \<Rightarrow> 'a server_socket_scheme \<Rightarrow>
   unit res \<times> string \<times> rx \<times> 'a server_socket_scheme" where
  "process_line h line b r s =
     (if \<not> is_http_socket s
      then case OnLine h line s of (res, s') \<Rightarrow> (res, b, r, s')
      else case (if \<not> got_http_header s then HandshakeLine (sha1 h) (OnConnection h) line s
                 else (Inr (), s)) of
             (Inl e, s1) \<Rightarrow> (Inl e, b, r, s1)
           | (Inr _, s1) \<Rightarrow>
               (if \<not> got_http_header s1 then (Inr (), b, r, s1)
                else if do_frame_io s1
                then case OnLine h line s1 of (res, s') \<Rightarrow> (res, b, r, s')
                else http_request h b r s1))"

text \<open>What can still be read without waiting.\<close>

fun rx_avail :: "rx \<Rightarrow> nat" where
  "rx_avail (Chunk c # r) = length c + rx_avail r"
| "rx_avail _ = 0"

text \<open>The exception handlers of the loop.\<close>

definition catch_exn :: "exn \<Rightarrow> string \<Rightarrow> rx \<Rightarrow> loop_outcome \<times> string \<times> rx" where
  "catch_exn e b r =
     (case e of
        System_error Sys_eof \<Rightarrow>
          (if 0 < rx_avail r
           then case rx_fill (rx_avail r) b r of
                  (Inr _, b', r') \<Rightarrow> (Again, b', r')
                | (Inl _, b', r') \<Rightarrow> (Break, b', r')
           else (Break, b, r))
      | System_error Sys_connection_reset \<Rightarrow> (Break, b, r)
      | System_error Sys_not_connected \<Rightarrow> (Break, b, r)
      | System_error Sys_bad_descriptor \<Rightarrow> (Break, b, r)
      | System_error Sys_other \<Rightarrow> (Again, b, r)
      | Silent_exception \<Rightarrow> (Break, b, r)
      | _ \<Rightarrow> (Uncaught e, b, r))"

definition conn_step ::
  "('a server_socket_scheme) handlers \<Rightarrow> string \<Rightarrow> rx \<Rightarrow> 'a server_socket_scheme \<Rightarrow>
   loop_outcome \<times> string \<times> rx \<times> 'a server_socket_scheme" where
  "conn_step h b r s =
     (case read_line b r (s\<lparr>status := IWAIT\<rparr>) of
        (Inl e, b1, r1, s1) \<Rightarrow>
          (case catch_exn e b1 r1 of (oc, b2, r2) \<Rightarrow> (oc, b2, r2, s1))
      | (Inr line, b1, r1, s1) \<Rightarrow>
          (if dbus_garbage line then (Break, b1, r1, s1)
           else case process_line h (strip_cr line) b1 r1
                       (s1\<lparr>last_activity := clock h (line_count s1), line_count := Suc (line_count s1),
                           total_line_count := Suc (total_line_count s1), status := QUING\<rparr>) of
                  (Inl e, b2, r2, s2) \<Rightarrow>
                    (case catch_exn e b2 r2 of (oc, b3, r3) \<Rightarrow> (oc, b3, r3, s2))
                | (Inr _, b2, r2, s2) \<Rightarrow> (Again, b2, r2, s2)))"

section \<open>The loop ends\<close>

text \<open>Every pass that goes round again has used up a byte or an event of the input.\<close>

definition inp_size :: "string \<Rightarrow> rx \<Rightarrow> nat" where
  "inp_size b r = length b + length (rx_bytes r) + length r"

text \<open>A reader of the stream never puts anything back, and an odd error uses up its event.\<close>

definition consumes :: "(rx, 'x) act \<Rightarrow> bool" where
  "consumes m \<longleftrightarrow> (\<forall>r res r'. m r = (res, r') \<longrightarrow>
     length (rx_bytes r') \<le> length (rx_bytes r) \<and> length r' \<le> length r
     \<and> (res = Inl (System_error Sys_other) \<longrightarrow> length r' < length r))"

lemma consumesD:
  "consumes m \<Longrightarrow> m r = (res, r') \<Longrightarrow> length (rx_bytes r') \<le> length (rx_bytes r) \<and> length r' \<le> length r"
  "consumes m \<Longrightarrow> m r = (Inl (System_error Sys_other), r') \<Longrightarrow> length r' < length r"
  by (simp_all add: consumes_def)

lemma consumes_rx_read: "consumes (rx_read n)"
proof -
  have "length (rx_bytes r') \<le> length (rx_bytes r) \<and> length r' \<le> length r
     \<and> (res = Inl (System_error Sys_other) \<longrightarrow> length r' < length r)"
    if "rx_read n r = (res, r')" for r res r'
    using that
  proof (induction n r arbitrary: res r' rule: rx_read.induct)
    case (1 n r)
    show ?case
    proof (cases "n = 0")
      case n: False
      show ?thesis
      proof (cases r rule: rx_bytes.cases)
        case (2 c r1)
        obtain res1 r2 where e: "rx_read (n - length c) r1 = (res1, r2)"
          by (cases "rx_read (n - length c) r1")
        show ?thesis
        proof (cases "n < length c")
          case False
          with "1.IH" [OF n 2 refl False e] e "1.prems" n 2 show ?thesis
            by (auto simp: rx_read.simps [of n] split: sum.splits)
        qed (use "1.prems" n 2 in \<open>auto simp: rx_read.simps [of n]\<close>)
      qed (use "1.prems" n in \<open>auto simp: rx_read.simps [of n]\<close>)
    qed (use "1.prems" in auto)
  qed
  then show ?thesis by (simp add: consumes_def)
qed

lemma consumes_ret [simp]: "consumes (act_ret a)"
  by (simp add: consumes_def)

lemma consumes_throw [simp]: "e \<noteq> System_error Sys_other \<Longrightarrow> consumes (act_throw e)"
  by (simp add: consumes_def)

lemma consumes_bind:
  assumes "consumes m" "\<And>a. consumes (f a)"
  shows "consumes (act_bind m f)"
  unfolding consumes_def
proof (intro allI impI)
  fix r res r' assume *: "act_bind m f r = (res, r')"
  obtain res1 r1 where m: "m r = (res1, r1)" by (cases "m r")
  show "length (rx_bytes r') \<le> length (rx_bytes r) \<and> length r' \<le> length r
     \<and> (res = Inl (System_error Sys_other) \<longrightarrow> length r' < length r)"
  proof (cases res1)
    case (Inl e)
    with * m show ?thesis using consumesD [OF assms(1)] by auto
  next
    case (Inr a)
    with * m have "f a r1 = (res, r')" by simp
    then show ?thesis
      using consumesD(1) [OF assms(1) m] consumesD [OF assms(2) [of a]] by fastforce
  qed
qed

lemma consumes_get_websocket_data: "consumes get_websocket_data"
  unfolding get_websocket_data_def ws_paylen_def Let_def
  by (intro consumes_bind consumes_rx_read) (auto intro!: consumes_bind consumes_rx_read)

lemma send_buffer_no_sys: "send_buffer buf s \<noteq> (Inl (System_error c), s')"
  by (simp add: send_buffer_def)

lemma send_ping_reply_no_sys: "send_ping_reply d s \<noteq> (Inl (System_error c), s')"
  by (auto simp: send_ping_reply_def act_seq_def act_bind_def send_buffer_def split: if_splits)

lemma ws_line_loop_consumes:
  "ws_line_loop opcode r s = (res, r', s') \<Longrightarrow>
     length (rx_bytes r') \<le> length (rx_bytes r) \<and> length r' \<le> length r
     \<and> (res = Inl (System_error Sys_other) \<longrightarrow> length r' < length r)"
proof (induction opcode r s arbitrary: res r' s' rule: ws_line_loop.induct)
  case (1 opcode r s)
  obtain res1 r1 where d: "get_websocket_data r = (res1, r1)" by (cases "get_websocket_data r")
  note c = consumesD(1) [OF consumes_get_websocket_data d]
  show ?case
  proof (cases "opcode = 9 \<or> opcode = 0xA")
    case True
    show ?thesis
    proof (cases res1)
      case (Inl e)
      with True d c "1.prems" consumesD(2) [OF consumes_get_websocket_data, of r r1] show ?thesis
        by (auto simp: ws_line_loop.simps [of opcode])
    next
      case (Inr pingd)
      obtain res2 s1 where p: "(if opcode = 9 then send_ping_reply pingd s else (Inr (), s)) = (res2, s1)"
        by (cases "if opcode = 9 then send_ping_reply pingd s else (Inr (), s)")
      then have np: "res2 \<noteq> Inl (System_error Sys_other)"
        using send_ping_reply_no_sys [of pingd s Sys_other s1] by (auto split: if_splits)
      obtain res3 r2 where q: "rx_read 1 r1 = (res3, r2)" by (cases "rx_read 1 r1")
      note cq = consumesD(1) [OF consumes_rx_read q]
      show ?thesis
      proof (cases "res2 = Inr () \<and> (\<exists>fop. res3 = Inr fop)")
        case True': True
        then obtain fop where f: "res2 = Inr ()" "res3 = Inr fop" by auto
        have "ws_line_loop (byte_of (hd fop) AND 0xF) r2 s1 = (res, r', s')"
          using "1.prems" True d Inr p q f by (simp add: ws_line_loop.simps [of opcode])
        from "1.IH" [OF True d [symmetric] Inr p [symmetric] f(1) q [symmetric] f(2) this] c cq
        show ?thesis by auto
      next
        case False
        then show ?thesis
          using "1.prems" True d Inr p q c cq np consumesD(2) [OF consumes_rx_read, of 1 r1 r2]
          by (cases res2; cases res3) (auto simp: ws_line_loop.simps [of opcode])
      qed
    qed
  next
    case False
    with d c "1.prems" consumesD(2) [OF consumes_get_websocket_data, of r r1] show ?thesis
      by (auto simp: ws_line_loop.simps [of opcode] split: if_splits)
  qed
qed

text \<open>A line, when one comes back, has used up at least a byte.\<close>

lemma read_until_inp:
  "read_until b pos r = (res, b', r') \<Longrightarrow> inp_size b' r' \<le> inp_size b r
     \<and> (res = Inl (System_error Sys_other) \<longrightarrow> inp_size b' r' < inp_size b r)
     \<and> (res = Inr () \<longrightarrow> b' \<noteq> [])"
  by (induction b pos r rule: read_until.induct) (fastforce simp: inp_size_def split: option.splits)+

lemma get_websocket_line_inp:
  assumes "get_websocket_line r s = (res, r', s')"
  shows "inp_size b r' \<le> inp_size b r
     \<and> (res = Inl (System_error Sys_other) \<or> (\<exists>line. res = Inr line) \<longrightarrow> inp_size b r' < inp_size b r)"
proof (cases "rx_read 1 r")
  case (Pair res1 r1)
  note c = consumesD(1) [OF consumes_rx_read Pair]
  show ?thesis
  proof (cases res1)
    case (Inl e)
    with Pair assms c consumesD(2) [OF consumes_rx_read, of 1 r r1] show ?thesis
      by (auto simp: get_websocket_line_def inp_size_def)
  next
    case (Inr fop)
    with Pair have "length (rx_bytes r1) < length (rx_bytes r)"
      by (auto dest: rx_read_prefix)
    moreover have "ws_line_loop (byte_of (hd fop) AND 0xF) r1 s = (res, r', s')"
      using assms Pair Inr by (simp add: get_websocket_line_def)
    ultimately show ?thesis
      using c by (auto simp: inp_size_def dest!: ws_line_loop_consumes)
  qed
qed

lemma read_line_inp:
  assumes "read_line b r s = (res, b', r', s')"
  shows "inp_size b' r' \<le> inp_size b r
     \<and> (res = Inl (System_error Sys_other) \<or> (\<exists>line. res = Inr line) \<longrightarrow> inp_size b' r' < inp_size b r)"
proof (cases "do_frame_io s")
  case True
  with assms show ?thesis
    by (auto simp: read_line_def dest!: get_websocket_line_inp [where b = b] split: prod.splits)
next
  case False
  obtain res1 b1 r1 where u: "read_until b 0 r = (res1, b1, r1)" by (cases "read_until b 0 r")
  note i = read_until_inp [OF u]
  show ?thesis
  proof (cases res1)
    case (Inl e)
    with False u assms i show ?thesis by (auto simp: read_line_def get_telnet_line_def)
  next
    case (Inr a)
    then have "b' = snd (getline b1)" "r' = r1"
      using False u assms by (auto simp: read_line_def get_telnet_line_def)
    with i Inr getline_shorter [of b1] show ?thesis by (auto simp: inp_size_def)
  qed
qed

lemma rx_fill_inp: "rx_fill n b r = (res, b', r') \<Longrightarrow> inp_size b' r' \<le> inp_size b r"
proof (induction n b r rule: rx_fill.induct)
  case (3 n b c r)
  then show ?case by (cases "n < length c") (auto simp: inp_size_def split: if_splits)
qed (auto simp: inp_size_def split: if_splits)

lemma rx_fill_avail:
  "0 < rx_avail r \<Longrightarrow> rx_fill (rx_avail r) b r = (res, b', r') \<Longrightarrow> inp_size b' r' < inp_size b r"
proof (cases r rule: rx_avail.cases)
  case (1 c r1)
  assume "0 < rx_avail r" "rx_fill (rx_avail r) b r = (res, b', r')"
  with 1 have "rx_fill (rx_avail r1) (b @ c) r1 = (res, b', r')" by auto
  with 1 show ?thesis by (auto simp: inp_size_def dest!: rx_fill_inp)
qed auto

lemma process_line_inp:
  "process_line h line b r s = (res, b', r', s') \<Longrightarrow> inp_size b' r' \<le> inp_size b r"
proof -
  have body: "inp_size b2 r2 \<le> inp_size b r" if "get_http_body n b r = (res2, b2, r2)" for n res2 b2 r2
    using that
    by (auto simp: get_http_body_def inp_size_def dest!: rx_fill_inp
        split: if_splits prod.splits sum.splits)
  show "process_line h line b r s = (res, b', r', s') \<Longrightarrow> inp_size b' r' \<le> inp_size b r"
    by (auto simp: process_line_def http_request_def dest!: body
        split: if_splits prod.splits sum.splits)
qed

lemma catch_exn_inp:
  "catch_exn e b r = (Again, b', r') \<Longrightarrow>
     inp_size b' r' \<le> inp_size b r \<and> (e = System_error Sys_other \<or> inp_size b' r' < inp_size b r)"
  by (auto simp: catch_exn_def dest: rx_fill_avail
      split: exn.splits sys_code.splits if_splits prod.splits sum.splits)

lemma conn_step_inp:
  assumes "conn_step h b r s = (Again, b', r', s')"
  shows "inp_size b' r' < inp_size b r"
proof -
  obtain res1 b1 r1 s1 where l: "read_line b r (s\<lparr>status := IWAIT\<rparr>) = (res1, b1, r1, s1)"
    by (cases "read_line b r (s\<lparr>status := IWAIT\<rparr>)") auto
  note i = read_line_inp [OF l]
  show ?thesis
  proof (cases res1)
    case (Inl e)
    then obtain oc where "catch_exn e b1 r1 = (Again, b', r')"
      using assms l by (auto simp: conn_step_def split: prod.splits)
    with i Inl show ?thesis by (auto dest!: catch_exn_inp)
  next
    case (Inr line)
    obtain res2 b2 r2 s2 where p: "process_line h (strip_cr line) b1 r1
        (s1\<lparr>last_activity := clock h (line_count s1), line_count := Suc (line_count s1),
            total_line_count := Suc (total_line_count s1), status := QUING\<rparr>) = (res2, b2, r2, s2)"
      by (cases "process_line h (strip_cr line) b1 r1
        (s1\<lparr>last_activity := clock h (line_count s1), line_count := Suc (line_count s1),
            total_line_count := Suc (total_line_count s1), status := QUING\<rparr>)") auto
    have "inp_size b' r' \<le> inp_size b2 r2"
      using assms l p Inr
      by (auto simp: conn_step_def dest: catch_exn_inp split: if_splits sum.splits prod.splits)
    with i Inr process_line_inp [OF p] show ?thesis by auto
  qed
qed

function conn_loop ::
  "('a server_socket_scheme) handlers \<Rightarrow> string \<Rightarrow> rx \<Rightarrow> 'a server_socket_scheme \<Rightarrow>
   conn_end \<times> string \<times> 'a server_socket_scheme" where
  "conn_loop h b r s =
     (case conn_step h b r s of
        (Again, b', r', s') \<Rightarrow> conn_loop h b' r' s'
      | (Break, b', r', s') \<Rightarrow> (Closed, b', s')
      | (Uncaught e, b', r', s') \<Rightarrow> (Terminated e, b', s'))"
  by pat_completeness auto
termination
  by (relation "measure (\<lambda>(h, b, r, s). inp_size b r)") (auto dest: conn_step_inp [OF sym])

declare conn_loop.simps [simp del]

section \<open>The whole connection\<close>

text \<open>
  The lines left in the buffer are handed over outside of any exception handler.
\<close>

fun drain :: "('s, unit) act list \<Rightarrow> 's \<Rightarrow> conn_end \<times> 's" where
  "drain [] s = (Closed, s)"
| "drain (m # ms) s =
     (case m s of (Inl e, s') \<Rightarrow> (Terminated e, s') | (Inr _, s') \<Rightarrow> drain ms s')"

definition handle_connection ::
  "('a server_socket_scheme) handlers \<Rightarrow> int \<Rightarrow> rx \<Rightarrow> 'a server_socket_scheme \<Rightarrow>
   conn_end \<times> 'a server_socket_scheme" where
  "handle_connection h thread r s =
     (case (if \<not> is_http_socket s then OnConnection h (s\<lparr>tid := thread\<rparr>)
            else (Inr (), s\<lparr>tid := thread\<rparr>)) of
        (Inl e, s1) \<Rightarrow> (Terminated e, s1)
      | (Inr _, s1) \<Rightarrow>
          (case conn_loop h [] r s1 of
             (Terminated e, b, s2) \<Rightarrow> (Terminated e, s2)
           | (Closed, b, s2) \<Rightarrow>
               (let s3 = s2\<lparr>last_activity := clock h (line_count s2), status := CLOSE\<rparr>
                in if \<not> is_http_socket s3 then drain (map (OnLine h) (drain_lines b)) s3
                   else (Closed, s3))))"

section \<open>Plain lines are delivered once each, in order\<close>

text \<open>
  A line without telnet escapes is returned as soon as its newline is there, wherever the network
  cut the stream and whatever follows it.
\<close>

lemma match_line_none:
  "plain s \<Longrightarrow> CHR 0x0A \<notin> set s \<Longrightarrow> match_eol_or_escape False s = None"
  by (simp add: match_plain)

lemma match_line_some:
  "plain s \<Longrightarrow> match_eol_or_escape False (s @ CHR 0x0A # t) \<noteq> None"
  by (induction s) auto

lemma split_at_newline:
  assumes "b @ u = line @ CHR 0x0A # t" "CHR 0x0A \<notin> set line"
  obtains (part) w where "line = b @ w" "u = w @ CHR 0x0A # t"
    | (full) v where "b = line @ CHR 0x0A # v" "t = v @ u"
  using assms by (auto simp: append_eq_append_conv2 append_eq_Cons_conv)

lemma read_until_line:
  "plain line \<Longrightarrow> CHR 0x0A \<notin> set line \<Longrightarrow> rx_clean r \<Longrightarrow> b @ rx_bytes r = line @ CHR 0x0A # t \<Longrightarrow>
   pos \<le> length line \<Longrightarrow>
   \<exists>v r'. read_until b pos r = (Inr (), line @ CHR 0x0A # v, r') \<and> v @ rx_bytes r' = t \<and> rx_clean r'"
proof (induction b pos r rule: read_until.induct)
  case (1 b pos)
  then have "drop pos b = drop pos line @ CHR 0x0A # t" by simp
  then have "match_eol_or_escape False (drop pos b) \<noteq> None"
    using "1.prems" by (metis match_line_some plain_drop)
  with "1.prems" show ?case by auto
next
  case (2 b pos c r)
  from "2.prems" have "b @ (c @ rx_bytes r) = line @ CHR 0x0A # t" by simp
  then show ?case
  proof (rule split_at_newline)
    fix w assume w: "line = b @ w" "c @ rx_bytes r = w @ CHR 0x0A # t"
    then have n: "match_eol_or_escape False (drop pos b) = None"
      using "2.prems" by (intro match_line_none) (auto dest: in_set_dropD)
    have "\<exists>v r'. read_until (b @ c) (length b) r = (Inr (), line @ CHR 0x0A # v, r')
       \<and> v @ rx_bytes r' = t \<and> rx_clean r'"
      using "2.prems" w by (intro "2.IH" [OF n]) auto
    with n show ?thesis by simp
  next
    fix v assume v: "b = line @ CHR 0x0A # v" "t = v @ c @ rx_bytes r"
    then have "drop pos b = drop pos line @ CHR 0x0A # v" using "2.prems" by simp
    then have "match_eol_or_escape False (drop pos b) \<noteq> None"
      using "2.prems" by (metis match_line_some plain_drop)
    with v "2.prems" show ?thesis by auto
  qed (use "2.prems" in simp)
qed simp

lemma getline_line: "CHR 0x0A \<notin> set line \<Longrightarrow> getline (line @ CHR 0x0A # v) = (line, v)"
  by (simp add: getline_def while_notin)

lemma get_telnet_line_line:
  assumes "plain line" "CHR 0x0A \<notin> set line" "rx_clean r" "b @ rx_bytes r = line @ CHR 0x0A # t"
  shows "\<exists>b' r'. get_telnet_line b r = (Inr line, b', r') \<and> b' @ rx_bytes r' = t \<and> rx_clean r'"
  using read_until_line [OF assms, of 0] assms(2) by (auto simp: get_telnet_line_def getline_line)

lemma read_until_eof:
  "plain (b @ rx_bytes r) \<Longrightarrow> CHR 0x0A \<notin> set (b @ rx_bytes r) \<Longrightarrow> rx_clean r \<Longrightarrow>
   read_until b pos r = (Inl (System_error Sys_eof), b @ rx_bytes r, [])"
proof (induction b pos r rule: read_until.induct)
  case (1 b pos)
  then have "match_eol_or_escape False (drop pos b) = None"
    by (intro match_line_none) (auto dest: in_set_dropD)
  then show ?case by simp
next
  case (2 b pos c r)
  then have "match_eol_or_escape False (drop pos b) = None"
    by (intro match_line_none) (auto dest: in_set_dropD)
  with 2 show ?case by simp
qed simp

text \<open>The bookkeeping that precedes the delivery of a line.\<close>

definition got_line ::
  "('a server_socket_scheme) handlers \<Rightarrow> 'a server_socket_scheme \<Rightarrow> 'a server_socket_scheme" where
  "got_line h s =
     s\<lparr>last_activity := clock h (line_count s), line_count := Suc (line_count s),
       total_line_count := Suc (total_line_count s), status := QUING\<rparr>"

lemma got_line_sel [simp]:
  "is_http_socket (got_line h s) = is_http_socket s" "do_frame_io (got_line h s) = do_frame_io s"
  "got_http_header (got_line h s) = got_http_header s" "got_first_line (got_line h s) = got_first_line s"
  "content_length (got_line h s) = content_length s" "line_count (got_line h s) = Suc (line_count s)"
  "got_websock_header (got_line h s) = got_websock_header s"
  by (simp_all add: got_line_def)

lemma conn_step_line:
  assumes "\<not> do_frame_io s" "plain line" "CHR 0x0A \<notin> set line" "rx_clean r"
    "b @ rx_bytes r = line @ CHR 0x0A # t" "\<not> dbus_garbage line"
  obtains b' r' where "b' @ rx_bytes r' = t" "rx_clean r'"
    "conn_step h b r s =
       (case process_line h (strip_cr line) b' r' (got_line h s) of
          (Inl e, b2, r2, s2) \<Rightarrow> (case catch_exn e b2 r2 of (oc, b3, r3) \<Rightarrow> (oc, b3, r3, s2))
        | (Inr _, b2, r2, s2) \<Rightarrow> (Again, b2, r2, s2))"
proof -
  obtain b' r' where g: "get_telnet_line b r = (Inr line, b', r')" "b' @ rx_bytes r' = t" "rx_clean r'"
    using get_telnet_line_line assms by blast
  have "conn_step h b r s =
       (case process_line h (strip_cr line) b' r' (got_line h s) of
          (Inl e, b2, r2, s2) \<Rightarrow> (case catch_exn e b2 r2 of (oc, b3, r3) \<Rightarrow> (oc, b3, r3, s2))
        | (Inr _, b2, r2, s2) \<Rightarrow> (Again, b2, r2, s2))"
    using assms(1,6) g(1) by (simp add: conn_step_def read_line_def got_line_def)
  with g that show thesis by blast
qed

text \<open>
  The interface to the virtual \<^verbatim>\<open>OnLine\<close> of a connection that is not HTTP: there is an invariant of the object that the
  bookkeeping of the loop keeps, and every line that the handler accepts is dealt with without an exception.
\<close>

fun deliver ::
  "('a server_socket_scheme) handlers \<Rightarrow> string list \<Rightarrow> 'a server_socket_scheme \<Rightarrow>
   'a server_socket_scheme" where
  "deliver h [] s = s"
| "deliver h (line # ls) s = deliver h ls (snd (OnLine h (strip_cr line) (got_line h s)))"

text \<open>A text as the peer sends it: complete lines and an unfinished one.\<close>

definition text_of :: "string list \<Rightarrow> string \<Rightarrow> string" where
  "text_of ls tail = concat (map (\<lambda>l. l @ nl) ls) @ tail"

definition plain_line :: "string \<Rightarrow> bool" where
  "plain_line l \<longleftrightarrow> plain l \<and> CHR 0x0A \<notin> set l \<and> \<not> dbus_garbage l"

lemma conn_loop_eof:
  assumes "\<not> do_frame_io s" "plain (b @ rx_bytes r)" "CHR 0x0A \<notin> set (b @ rx_bytes r)" "rx_clean r"
  shows "conn_loop h b r s = (Closed, b @ rx_bytes r, s\<lparr>status := IWAIT\<rparr>)"
  using assms read_until_eof [OF assms(2-4), of 0]
  by (simp add: conn_loop.simps [of h] conn_step_def read_line_def get_telnet_line_def catch_exn_def)

lemma drain_lines_one:
  "CHR 0x0A \<notin> set b \<Longrightarrow> drain_lines b = (if strip_cr b = [] then [] else [strip_cr b])"
proof (cases "b = []")
  case False
  assume "CHR 0x0A \<notin> set b"
  then have "\<forall>c \<in> set b. c \<noteq> CHR 0x0A" by auto
  then have "getline b = (b, [])"
    by (simp add: getline_def takeWhile_eq_all_conv [THEN iffD2] dropWhile_eq_Nil_conv [THEN iffD2])
  with False show ?thesis
    by (simp add: drain_lines.simps [of b] drain_lines.simps [of "[]"])
qed (simp add: drain_lines.simps strip_cr_def)

lemma conn_loop_again:
  "conn_step h b r s = (Again, b', r', s') \<Longrightarrow> conn_loop h b r s = conn_loop h b' r' s'"
  by (simp add: conn_loop.simps [of h])

text \<open>One complete line at the head of the input, and the end of the connection, on a connection that is not HTTP.\<close>

lemma conn_loop_line:
  assumes "\<not> do_frame_io s" "\<not> is_http_socket s" "plain_line line" "rx_clean r" "b @ rx_bytes r = text_of (line # ls) tail"
    and "OnLine h (strip_cr line) (got_line h s) = (Inr (), s')"
  obtains b' r' where "b' @ rx_bytes r' = text_of ls tail" "rx_clean r'" "conn_loop h b r s = conn_loop h b' r' s'"
proof -
  have t: "b @ rx_bytes r = line @ CHR 0x0A # text_of ls tail" using assms(5) by (simp add: text_of_def nl_def)
  have pl: "plain line" "CHR 0x0A \<notin> set line" "\<not> dbus_garbage line" using assms(3) by (simp_all add: plain_line_def)
  obtain b' r' where s1: "b' @ rx_bytes r' = text_of ls tail" "rx_clean r'"
    "conn_step h b r s =
       (case process_line h (strip_cr line) b' r' (got_line h s) of
          (Inl e, b2, r2, s2) \<Rightarrow> (case catch_exn e b2 r2 of (oc, b3, r3) \<Rightarrow> (oc, b3, r3, s2))
        | (Inr _, b2, r2, s2) \<Rightarrow> (Again, b2, r2, s2))"
    using conn_step_line [OF assms(1) pl(1,2) assms(4) t pl(3)] by blast
  have "conn_step h b r s = (Again, b', r', s')" using s1(3) assms(2,6) by (simp add: process_line_def)
  with s1(1,2) show thesis by (blast intro: that dest: conn_loop_again)
qed

lemma connection_ends:
  assumes "\<not> is_http_socket s" "OnConnection h (s\<lparr>tid := thread\<rparr>) = (Inr (), s1)"
    and "conn_loop h [] r s1 = (Closed, tail, s2\<lparr>status := IWAIT\<rparr>)" "plain_line tail" "\<not> is_http_socket s2"
    and "OnLine h (strip_cr tail) (s2\<lparr>last_activity := clock h (line_count s2), status := CLOSE\<rparr>) = (Inr (), s4)"
  shows "handle_connection h thread r s =
    (Closed, if strip_cr tail = [] then s2\<lparr>last_activity := clock h (line_count s2), status := CLOSE\<rparr> else s4)"
  using assms by (simp add: handle_connection_def Let_def drain_lines_one plain_line_def)

locale line_handler =
  fixes h :: "('a server_socket_scheme) handlers" and good :: "'a server_socket_scheme \<Rightarrow> bool" and accepts :: "string \<Rightarrow> bool"
  assumes telnet: "good s \<Longrightarrow> \<not> is_http_socket s" "good s \<Longrightarrow> \<not> do_frame_io s"
    and got: "good s \<Longrightarrow> good (got_line h s)"
    and closing: "good s \<Longrightarrow> good (s\<lparr>last_activity := t, status := CLOSE\<rparr>)"
    and handles: "good s \<Longrightarrow> accepts line \<Longrightarrow> \<exists>s'. OnLine h line s = (Inr (), s') \<and> good s'"
begin

lemma handled:
  assumes "good s" "accepts line"
  obtains s' where "OnLine h line (got_line h s) = (Inr (), s')" "good s'"
  using handles [OF got [OF assms(1)] assms(2)] by blast

lemma deliver_keeps: "good s \<Longrightarrow> list_all (\<lambda>l. accepts (strip_cr l)) ls \<Longrightarrow> good (deliver h ls s)"
proof (induction ls arbitrary: s)
  case (Cons line ls)
  obtain s' where "OnLine h (strip_cr line) (got_line h s) = (Inr (), s')" "good s'"
    using handled [OF Cons.prems(1), of "strip_cr line"] Cons.prems(2) by auto
  with Cons show ?case by simp
qed simp

lemma loop_lines:
  assumes "plain_line tail"
  shows "good s \<Longrightarrow> list_all (\<lambda>l. plain_line l \<and> accepts (strip_cr l)) ls \<Longrightarrow> rx_clean r \<Longrightarrow>
   b @ rx_bytes r = text_of ls tail \<Longrightarrow>
   conn_loop h b r s = (Closed, tail, (deliver h ls s)\<lparr>status := IWAIT\<rparr>)"
proof (induction ls arbitrary: b r s)
  case Nil
  with assms conn_loop_eof [OF telnet(2), of s b r h] show ?case
    by (simp add: text_of_def plain_line_def)
next
  case (Cons line ls)
  have a: "plain_line line" "accepts (strip_cr line)" using Cons.prems(2) by simp_all
  obtain s' where o: "OnLine h (strip_cr line) (got_line h s) = (Inr (), s')" "good s'"
    using handled [OF Cons.prems(1) a(2)] .
  obtain b' r' where "b' @ rx_bytes r' = text_of ls tail" "rx_clean r'" "conn_loop h b r s = conn_loop h b' r' s'"
    by (rule conn_loop_line [OF telnet(2,1) [OF Cons.prems(1)] a(1) Cons.prems(3,4) o(1)])
  with Cons.IH [OF o(2), of r' b'] Cons.prems(2) o(1) show ?case by simp
qed

lemma delivered:
  assumes "\<not> is_http_socket s" "OnConnection h (s\<lparr>tid := thread\<rparr>) = (Inr (), s1)" "good s1"
    and "rx_clean r" "rx_bytes r = text_of ls tail"
    and "list_all (\<lambda>l. plain_line l \<and> accepts (strip_cr l)) ls" "plain_line tail" "accepts (strip_cr tail)"
  shows "handle_connection h thread r s =
    (let s2 = deliver h ls s1;
         s3 = s2\<lparr>last_activity := clock h (line_count s2), status := CLOSE\<rparr>
     in (Closed, if strip_cr tail = [] then s3 else snd (OnLine h (strip_cr tail) s3)))"
proof -
  let ?s2 = "deliver h ls s1"
  have k: "good ?s2" using assms(3,6) by (intro deliver_keeps) (auto simp: list_all_iff)
  have l: "conn_loop h [] r s1 = (Closed, tail, ?s2\<lparr>status := IWAIT\<rparr>)"
    using assms by (intro loop_lines) auto
  obtain s4 where "OnLine h (strip_cr tail) (?s2\<lparr>last_activity := clock h (line_count ?s2), status := CLOSE\<rparr>) = (Inr (), s4)"
    using handles [OF closing [OF k] assms(8)] by blast
  with connection_ends [OF assms(1,2) l assms(7) telnet(1) [OF k]] show ?thesis by (simp add: Let_def)
qed

end

text \<open>
  A handler whose lines have an effect, described by a relation between states that composes over the lines; what the loop
  itself changes does not matter to it. A session then has the effect of its lines.
\<close>

definition session_lines :: "string list \<Rightarrow> string \<Rightarrow> string list" where
  "session_lines ls tail = map strip_cr ls @ (if strip_cr tail = [] then [] else [strip_cr tail])"

locale line_service = line_handler h good accepts
  for h :: "('a server_socket_scheme) handlers" and good accepts +
  fixes effect :: "string list \<Rightarrow> 'a server_socket_scheme \<Rightarrow> 'a server_socket_scheme \<Rightarrow> bool"
  assumes none: "effect [] s s"
    and composes: "effect ls s s' \<Longrightarrow> effect ks s' s'' \<Longrightarrow> effect (ls @ ks) s s''"
    and quiet: "effect [] s (got_line h s)" "effect [] s (s\<lparr>last_activity := t, status := CLOSE\<rparr>)"
    and has_effect: "good s \<Longrightarrow> accepts line \<Longrightarrow> OnLine h line s = (Inr (), s') \<Longrightarrow> effect [line] s s'"
begin

lemma deliver_effect:
  "good s \<Longrightarrow> list_all (\<lambda>l. accepts (strip_cr l)) ls \<Longrightarrow> effect (map strip_cr ls) s (deliver h ls s)"
proof (induction ls arbitrary: s)
  case (Cons line ls)
  have g: "good (got_line h s)" "accepts (strip_cr line)" using Cons.prems got by simp_all
  obtain s' where s': "OnLine h (strip_cr line) (got_line h s) = (Inr (), s')" "good s'"
    by (rule handled [OF Cons.prems(1) g(2)])
  have "effect [strip_cr line] s s'" using composes [OF quiet(1) has_effect [OF g s'(1)]] by simp
  moreover have "effect (map strip_cr ls) s' (deliver h ls s')" using Cons s'(2) by simp
  ultimately show ?case using s'(1) composes [of "[strip_cr line]"] by simp
qed (simp add: none)

lemma rest_of_session:
  assumes "\<not> is_http_socket s" "OnConnection h (s\<lparr>tid := thread\<rparr>) = (Inr (), s0)"
    and "conn_loop h [] r s0 = conn_loop h b' r' s1" "good s1" "rx_clean r'" "b' @ rx_bytes r' = text_of ls tail"
    and "list_all (\<lambda>l. plain_line l \<and> accepts (strip_cr l)) ls" "plain_line tail" "accepts (strip_cr tail)"
  obtains s' where "handle_connection h thread r s = (Closed, s')" "good s'" "effect (session_lines ls tail) s1 s'"
proof -
  let ?s2 = "deliver h ls s1"
  let ?s3 = "?s2\<lparr>last_activity := clock h (line_count ?s2), status := CLOSE\<rparr>"
  have l: "list_all (\<lambda>l. accepts (strip_cr l)) ls" using assms(7) by (simp add: list_all_iff)
  have k: "good ?s2" by (rule deliver_keeps [OF assms(4) l])
  have g: "good ?s3" using closing [OF k] .
  have e: "effect (map strip_cr ls) s1 ?s3"
    using composes [OF deliver_effect [OF assms(4) l] quiet(2)] by simp
  obtain s4 where s4: "OnLine h (strip_cr tail) ?s3 = (Inr (), s4)" "good s4" using handles [OF g assms(9)] by blast
  note t = composes [OF e has_effect [OF g assms(9) s4(1)]]
  have "conn_loop h [] r s0 = (Closed, tail, ?s2\<lparr>status := IWAIT\<rparr>)"
    using loop_lines [OF assms(8,4,7,5,6)] assms(3) by simp
  note h = connection_ends [OF assms(1,2) this assms(8) telnet(1) [OF k] s4(1)]
  show thesis
  proof (cases "strip_cr tail = []")
    case True
    with h g e show thesis by (intro that [of ?s3]) (simp_all add: session_lines_def)
  next
    case False
    with h s4 t show thesis by (intro that [of s4]) (simp_all add: session_lines_def)
  qed
qed

lemma session:
  assumes "\<not> is_http_socket s" "OnConnection h (s\<lparr>tid := thread\<rparr>) = (Inr (), s1)" "good s1"
    and "rx_clean r" "rx_bytes r = text_of ls tail"
    and "list_all (\<lambda>l. plain_line l \<and> accepts (strip_cr l)) ls" "plain_line tail" "accepts (strip_cr tail)"
  obtains s' where "handle_connection h thread r s = (Closed, s')" "good s'" "effect (session_lines ls tail) s1 s'"
  using rest_of_session [OF assms(1,2) refl assms(3,4) _ assms(6-8)] assms(5) by auto

text \<open>The first line may bring the object into its good state.\<close>

lemma session_after:
  assumes "\<not> is_http_socket s" "OnConnection h (s\<lparr>tid := thread\<rparr>) = (Inr (), s0)"
    and "\<not> do_frame_io s0" "\<not> is_http_socket s0" "plain_line line" "OnLine h (strip_cr line) (got_line h s0) = (Inr (), s1)" "good s1"
    and "rx_clean r" "rx_bytes r = text_of (line # ls) tail"
    and "list_all (\<lambda>l. plain_line l \<and> accepts (strip_cr l)) ls" "plain_line tail" "accepts (strip_cr tail)"
  obtains s' where "handle_connection h thread r s = (Closed, s')" "good s'" "effect (session_lines ls tail) s1 s'"
proof -
  obtain b' r' where "b' @ rx_bytes r' = text_of ls tail" "rx_clean r'" "conn_loop h [] r s0 = conn_loop h b' r' s1"
    by (rule conn_loop_line [OF assms(3-5,8) _ assms(6), where b = "[]"]) (use assms(9) in simp)
  with rest_of_session [OF assms(1,2) _ assms(7) _ _ assms(10-12)] that show thesis by blast
qed

end

text \<open>A handler that takes any line on a telnet connection.\<close>

definition telnet_handler :: "('a server_socket_scheme) handlers \<Rightarrow> bool" where
  "telnet_handler h \<longleftrightarrow> (\<forall>line s. \<not> is_http_socket s \<longrightarrow> \<not> do_frame_io s \<longrightarrow>
     (\<exists>s'. OnLine h line s = (Inr (), s') \<and> \<not> is_http_socket s' \<and> \<not> do_frame_io s'))"

lemma telnet_line_handler:
  "telnet_handler h \<Longrightarrow> line_handler h (\<lambda>s. \<not> is_http_socket s \<and> \<not> do_frame_io s) (\<lambda>_. True)"
  by unfold_locales (auto simp: telnet_handler_def)

text \<open>
  C1. A telnet connection, whatever way the network cuts its plain text into pieces: every complete
  line is handed to \<^verbatim>\<open>OnLine\<close> exactly once and in order, less its carriage return, then the unfinished
  last line if there is something in it; the connection is then closed in the ordinary way.
\<close>

theorem telnet_lines_delivered:
  assumes "telnet_handler h" "\<not> is_http_socket s"
    and "OnConnection h (s\<lparr>tid := thread\<rparr>) = (Inr (), s1)" "\<not> is_http_socket s1" "\<not> do_frame_io s1"
    and "rx_clean r" "rx_bytes r = text_of ls tail" "list_all plain_line ls" "plain_line tail"
  shows "handle_connection h thread r s =
    (let s2 = deliver h ls s1;
         s3 = s2\<lparr>last_activity := clock h (line_count s2), status := CLOSE\<rparr>
     in (Closed, if strip_cr tail = [] then s3 else snd (OnLine h (strip_cr tail) s3)))"
  using line_handler.delivered [OF telnet_line_handler [OF assms(1)], of s thread s1 r ls tail] assms(2-9) by simp

text \<open>A handler that answers each line with itself, to try the results on.\<close>

definition echo_handlers :: "server_socket handlers" where
  "echo_handlers = \<lparr>sha1 = (\<lambda>s. s), OnConnection = act_ret (),
     OnLine = (\<lambda>line s. (Inr (), s\<lparr>tx := tx s @ line @ nl\<rparr>)), clock = int\<rparr>"

lemma echo_sel [simp]:
  "OnConnection echo_handlers s = (Inr (), s)" "OnLine echo_handlers l s = (Inr (), s\<lparr>tx := tx s @ l @ nl\<rparr>)"
  by (simp_all add: echo_handlers_def)

lemma echo_telnet: "telnet_handler echo_handlers"
  by (simp add: telnet_handler_def)

interpretation echo: line_handler echo_handlers "\<lambda>s. \<not> is_http_socket s \<and> \<not> do_frame_io s" "\<lambda>_. True"
  by (rule telnet_line_handler [OF echo_telnet])

lemma got_line_tx [simp]: "tx (got_line h s) = tx s"
  by (simp add: got_line_def)

theorem telnet_lines_delivered_witness:
  "tx (snd (handle_connection echo_handlers 7
       [Chunk ''a'', Chunk [CHR ''b'', CHR 0x0D], Chunk (nl @ nl @ ''(c''), Chunk '')''] (new_server_socket 0)))
   = ''ab'' @ nl @ nl @ ''(c)'' @ nl"
  using telnet_lines_delivered [OF echo_telnet, of "new_server_socket 0" 7 "(new_server_socket 0)\<lparr>tid := 7\<rparr>"
      "[Chunk ''a'', Chunk [CHR ''b'', CHR 0x0D], Chunk (nl @ nl @ ''(c''), Chunk '')'']"
      "[''ab'' @ [CHR 0x0D], []]" "''(c)''"]
  by (simp add: new_server_socket_def text_of_def nl_def plain_line_def dbus_garbage_def strip_cr_def Let_def)

section \<open>HTTP requests\<close>

lemma strip_cr_crlf [simp]: "strip_cr (l @ [CHR 0x0D]) = l"
  by (simp add: strip_cr_def)

text \<open>One header line, ended by CR LF, on a connection that is still reading its header.\<close>

definition header_state :: "'a server_socket_scheme \<Rightarrow> bool" where
  "header_state s \<longleftrightarrow> is_http_socket s \<and> \<not> got_http_header s \<and> \<not> do_frame_io s"

lemma header_stateD:
  "header_state s \<Longrightarrow> is_http_socket s" "header_state s \<Longrightarrow> \<not> got_http_header s"
  "header_state s \<Longrightarrow> \<not> do_frame_io s"
  by (auto simp: header_state_def)

lemma header_state_keeps [simp]:
  "header_state (got_line h s) = header_state s"
  "header_state (s\<lparr>got_first_line := x\<rparr>) = header_state s"
  "header_state (s\<lparr>url := u\<rparr>) = header_state s"
  "header_state (s\<lparr>content_length := n\<rparr>) = header_state s"
  "header_state (s\<lparr>tid := i\<rparr>) = header_state s"
  by (auto simp: header_state_def)

lemma http_step:
  assumes "header_state s" "plain_line (l @ [CHR 0x0D])" "rx_clean r" "b @ rx_bytes r = l @ crlf @ t"
  obtains b' r' where "b' @ rx_bytes r' = t" "rx_clean r'"
    "conn_step h b r s =
       (case process_line h l b' r' (got_line h s) of
          (Inl e, b2, r2, s2) \<Rightarrow> (case catch_exn e b2 r2 of (oc, b3, r3) \<Rightarrow> (oc, b3, r3, s2))
        | (Inr _, b2, r2, s2) \<Rightarrow> (Again, b2, r2, s2))"
  using conn_step_line [of s "l @ [CHR 0x0D]" r b t h] assms
  by (auto simp: plain_line_def crlf_def header_stateD)

lemma http_header_step:
  assumes "header_state s" "plain_line (l @ [CHR 0x0D])" "rx_clean r" "b @ rx_bytes r = l @ crlf @ t"
    and "HandshakeLine (sha1 h) (OnConnection h) l (got_line h s) = (Inr (), s')" "header_state s'"
  obtains b' r' where "b' @ rx_bytes r' = t" "rx_clean r'" "conn_loop h b r s = conn_loop h b' r' s'"
proof (rule http_step [OF assms(1-4), of h])
  fix b' r' assume *: "b' @ rx_bytes r' = t" "rx_clean r'" "conn_step h b r s =
       (case process_line h l b' r' (got_line h s) of
          (Inl e, b2, r2, s2) \<Rightarrow> (case catch_exn e b2 r2 of (oc, b3, r3) \<Rightarrow> (oc, b3, r3, s2))
        | (Inr _, b2, r2, s2) \<Rightarrow> (Again, b2, r2, s2))"
  have "conn_step h b r s = (Again, b', r', s')"
    using * assms(1,5,6) by (simp add: process_line_def header_stateD)
  with * that show thesis by (blast dest: conn_loop_again)
qed

lemma rx_fill_ok:
  "rx_clean r \<Longrightarrow> n \<le> length (rx_bytes r) \<Longrightarrow>
   \<exists>r'. rx_fill n b r = (Inr (), b @ take n (rx_bytes r), r') \<and> rx_bytes r' = drop n (rx_bytes r) \<and> rx_clean r'"
proof (induction n b r rule: rx_fill.induct)
  case (3 n b c r)
  show ?case
  proof (cases "n = 0 \<or> n < length c")
    case False
    with 3 obtain r' where "rx_fill (n - length c) (b @ c) r = (Inr (), (b @ c) @ take (n - length c) (rx_bytes r), r')"
      "rx_bytes r' = drop (n - length c) (rx_bytes r)" "rx_clean r'" by fastforce
    with False show ?thesis by simp
  qed (use 3 in auto)
qed auto

lemma get_http_body_clean:
  assumes "rx_clean r" "b @ rx_bytes r = body @ t"
  shows "\<exists>b' r'. get_http_body (length body) b r = (Inr body, b', r') \<and> b' @ rx_bytes r' = t \<and> rx_clean r'"
proof (cases "length b < length body")
  case True
  then have "length body - length b \<le> length (rx_bytes r)"
    using assms(2) [THEN arg_cong, where f = length] by simp
  from rx_fill_ok [OF assms(1) this, of b] obtain r' where
    f: "rx_fill (length body - length b) b r = (Inr (), b @ take (length body - length b) (rx_bytes r), r')"
      "rx_bytes r' = drop (length body - length b) (rx_bytes r)" "rx_clean r'" by blast
  have "take (length body) (b @ rx_bytes r) = body" "drop (length body) (b @ rx_bytes r) = t"
    by (simp_all add: assms(2))
  then have "b @ take (length body - length b) (rx_bytes r) = body"
    "drop (length body - length b) (rx_bytes r) = t"
    using True by simp_all
  with f True show ?thesis by (cases "body = []") (simp_all add: get_http_body_def)
next
  case False
  have "take (length body) (b @ rx_bytes r) = body" "drop (length body) (b @ rx_bytes r) = t"
    by (simp_all add: assms(2))
  then have "take (length body) b = body" "drop (length body) b @ rx_bytes r = t"
    using False by simp_all
  with False assms show ?thesis by (cases "body = []") (auto simp: get_http_body_def)
qed

text \<open>The request line and a \<^verbatim>\<open>Content-Length\<close> line, as the handshake records them.\<close>

lemma request_url_ok:
  assumes "CHR '' '' \<notin> set u"
  shows "request_url (length m) (m @ u @ CHR '' '' # v) = Inr u"
  using assms by (simp add: request_url_def find_from_def find_chr_append substr_def)

lemma handshake_post:
  assumes "\<not> got_first_line s" "CHR '' '' \<notin> set u"
  shows "HandshakeLine f oc (''POST '' @ u @ '' HTTP/1.1'') s = (Inr (), s\<lparr>got_first_line := True, url := u\<rparr>)"
  using assms request_url_ok [of u "''POST ''" "''HTTP/1.1''"]
  by (simp add: HandshakeLine_def first_line_def eval_nat_numeral)

lemma handshake_content_length:
  assumes "got_first_line s" "\<not> got_http_header s"
  shows "HandshakeLine f oc (''Content-Length: '' @ num) s = set_content_length num s"
  using assms by (simp add: HandshakeLine_def header_line_def)

lemma set_content_length_ok:
  assumes "n < 2 ^ 31"
  shows "set_content_length (show_nat n) s = (Inr (), s\<lparr>content_length := n\<rparr>)"
proof -
  have "unat (word_of_nat n :: 64 word) = n"
    using assms by (simp add: unat_of_nat)
  with stoi_show_nat [OF assms] show ?thesis
    by (simp add: set_content_length_def)
qed

lemma plain_post: "plain u \<Longrightarrow> CHR 0x0A \<notin> set u \<Longrightarrow> plain_line ((''POST '' @ u @ '' HTTP/1.1'') @ [CHR 0x0D])"
  by (simp add: plain_line_def dbus_garbage_def)

lemma plain_content_length:
  "plain num \<Longrightarrow> CHR 0x0A \<notin> set num \<Longrightarrow> plain_line ((''Content-Length: '' @ num) @ [CHR 0x0D])"
  by (simp add: plain_line_def dbus_garbage_def)

lemma plain_show_nat: "plain (show_nat n)" "CHR 0x0A \<notin> set (show_nat n)"
  using show_nat_digits [of n] by (auto simp: plain_def is_digit_def)

text \<open>The state when the blank line after a two-line POST header is reached.\<close>

definition post_header ::
  "('a server_socket_scheme) handlers \<Rightarrow> string \<Rightarrow> nat \<Rightarrow> 'a server_socket_scheme \<Rightarrow> 'a server_socket_scheme" where
  "post_header h u n s =
     (got_line h ((got_line h ((got_line h s)\<lparr>got_first_line := True, url := u\<rparr>))\<lparr>content_length := n\<rparr>))
       \<lparr>got_http_header := True\<rparr>"

lemma post_header_lines:
  assumes "header_state s" "\<not> got_first_line s" "CHR '' '' \<notin> set u" "plain u" "CHR 0x0A \<notin> set u"
    and "plain num" "CHR 0x0A \<notin> set num" "rx_clean r"
    and "b @ rx_bytes r =
      ''POST '' @ u @ '' HTTP/1.1'' @ crlf @ ''Content-Length: '' @ num @ crlf @ t"
  obtains b' r' where "b' @ rx_bytes r' = ''Content-Length: '' @ num @ crlf @ t" "rx_clean r'"
    "conn_loop h b r s = conn_loop h b' r' ((got_line h s)\<lparr>got_first_line := True, url := u\<rparr>)"
proof (rule http_header_step [OF assms(1) plain_post [OF assms(4,5)] assms(8)])
  show "b @ rx_bytes r = (''POST '' @ u @ '' HTTP/1.1'') @ crlf @ ''Content-Length: '' @ num @ crlf @ t"
    using assms(9) by simp
  show "HandshakeLine (sha1 h) (OnConnection h) (''POST '' @ u @ '' HTTP/1.1'') (got_line h s)
      = (Inr (), (got_line h s)\<lparr>got_first_line := True, url := u\<rparr>)"
    using assms(2,3) by (intro handshake_post) auto
  show "header_state ((got_line h s)\<lparr>got_first_line := True, url := u\<rparr>)"
    using assms(1) by simp
qed (rule that)

lemma post_body_step:
  assumes "header_state s" "got_first_line s" "rx_clean r" "b @ rx_bytes r = crlf @ body @ t"
    and "OnConnection h ((got_line h s)\<lparr>got_http_header := True\<rparr>) = (Inr (), s1)"
    and "got_http_header s1" "\<not> got_websock_header s1" "\<not> do_frame_io s1" "content_length s1 = length body"
    and "OnLine h body s1 = (Inr (), s2)"
  obtains b' r' where "b' @ rx_bytes r' = t" "rx_clean r'"
    "conn_loop h b r s =
       conn_loop h b' r' (s2\<lparr>got_http_header := False, got_first_line := False, content_length := 0\<rparr>)"
proof (rule http_step [of s "[]" r b "body @ t" h])
  show "plain_line ([] @ [CHR 0x0D])" by (simp add: plain_line_def dbus_garbage_def)
  fix b' r' assume *: "b' @ rx_bytes r' = body @ t" "rx_clean r'" "conn_step h b r s =
       (case process_line h [] b' r' (got_line h s) of
          (Inl e, b2, r2, s2) \<Rightarrow> (case catch_exn e b2 r2 of (oc, b3, r3) \<Rightarrow> (oc, b3, r3, s2))
        | (Inr _, b2, r2, s2) \<Rightarrow> (Again, b2, r2, s2))"
  obtain b2 r2 where g: "get_http_body (length body) b' r' = (Inr body, b2, r2)"
    "b2 @ rx_bytes r2 = t" "rx_clean r2"
    using get_http_body_clean [OF *(2,1)] by blast
  have "HandshakeLine (sha1 h) (OnConnection h) [] (got_line h s) = (Inr (), s1)"
    using assms(1,2,5,7) by (simp add: HandshakeLine_def header_done_def header_stateD)
  with assms g(1) have "process_line h [] b' r' (got_line h s) =
      (Inr (), b2, r2, s2\<lparr>got_http_header := False, got_first_line := False, content_length := 0\<rparr>)"
    by (simp add: process_line_def http_request_def header_stateD)
  with *(3) have "conn_step h b r s =
      (Again, b2, r2, s2\<lparr>got_http_header := False, got_first_line := False, content_length := 0\<rparr>)"
    by simp
  with g that show thesis by (blast dest: conn_loop_again)
qed (use assms in simp_all)


text \<open>
  C37. A request whose \<^verbatim>\<open>Content-Length\<close> is no number, or too large a number: \<^verbatim>\<open>std::stoi\<close> throws, no
  handler of the connection loop catches it, and the whole server is terminated.
\<close>

theorem bad_content_length_terminates:
  assumes "header_state s" "\<not> got_first_line s" "CHR '' '' \<notin> set u" "plain u" "CHR 0x0A \<notin> set u"
    and "plain num" "CHR 0x0A \<notin> set num" "stoi num = Inl e" "rx_clean r"
    and "rx_bytes r = ''POST '' @ u @ '' HTTP/1.1'' @ crlf @ ''Content-Length: '' @ num @ crlf @ rest"
  shows "fst (handle_connection h thread r s) = Terminated e"
proof -
  let ?t = "s\<lparr>tid := thread\<rparr>"
  let ?s = "(got_line h ?t)\<lparr>got_first_line := True, url := u\<rparr>"
  have e: "e = Invalid_argument \<or> e = Out_of_range"
    using assms(8) by (auto simp: stoi_def split: option.splits if_splits)
  have hs: "header_state ?t" "\<not> got_first_line ?t" "header_state ?s"
    using assms(1,2) by simp_all
  have b0: "[] @ rx_bytes r = ''POST '' @ u @ '' HTTP/1.1'' @ crlf @ ''Content-Length: '' @ num @ crlf @ rest"
    using assms(10) by simp
  obtain b1 r1 where 1: "b1 @ rx_bytes r1 = ''Content-Length: '' @ num @ crlf @ rest" "rx_clean r1"
    "conn_loop h [] r ?t = conn_loop h b1 r1 ?s"
    by (rule post_header_lines [OF hs(1,2) assms(3-7,9) b0])
  have b1: "b1 @ rx_bytes r1 = (''Content-Length: '' @ num) @ crlf @ rest" using 1(1) by simp
  obtain b2 r2 where "conn_step h b1 r1 ?s =
       (case process_line h (''Content-Length: '' @ num) b2 r2 (got_line h ?s) of
          (Inl e, b2, r2, s2) \<Rightarrow> (case catch_exn e b2 r2 of (oc, b3, r3) \<Rightarrow> (oc, b3, r3, s2))
        | (Inr _, b2, r2, s2) \<Rightarrow> (Again, b2, r2, s2))"
    by (rule http_step [OF hs(3) plain_content_length [OF assms(6,7)] 1(2) b1, of h])
  moreover have "process_line h (''Content-Length: '' @ num) b2 r2 (got_line h ?s)
      = (Inl e, b2, r2, got_line h ?s)"
    using hs(3) assms(8)
    by (simp add: process_line_def handshake_content_length set_content_length_def header_stateD del: append.simps)
  ultimately have "conn_step h b1 r1 ?s = (Uncaught e, b2, r2, got_line h ?s)"
    using e by (auto simp: catch_exn_def)
  with 1(3) assms(1) show ?thesis
    by (simp add: handle_connection_def conn_loop.simps [of h b1] header_stateD)
qed

theorem bad_content_length_terminates_witness:
  "fst (handle_connection echo_handlers 7
      [Chunk (''POST /json HTTP/1.1'' @ crlf @ ''Content-Length: ''), Chunk (''many'' @ crlf)]
      ((new_server_socket 0)\<lparr>is_http_socket := True\<rparr>)) = Terminated Invalid_argument"
  using bad_content_length_terminates [of "(new_server_socket 0)\<lparr>is_http_socket := True\<rparr>" "''/json''" "''many''"
      Invalid_argument "[Chunk (''POST /json HTTP/1.1'' @ crlf @ ''Content-Length: ''), Chunk (''many'' @ crlf)]"
      "[]" echo_handlers 7]
  by (simp add: header_state_def new_server_socket_def stoi_def strtol_def is_digit_def is_space_def c_str_def Let_def)

lemma show_nat_3: "show_nat (Suc (Suc (Suc 0))) = ''3''"
  by code_simp


end
