(* ===== verification/Slots.thy ===== *)
theory Slots
  imports Cog_Prelude
begin

text \<open>
  The two counting mechanisms of \<^verbatim>\<open>SocketManager.cc\<close>, as state machines over the critical sections
  of their mutexes: the limit on open connections (\<^verbatim>\<open>wait_available_slot\<close>, \<^verbatim>\<open>release_slot\<close>) and the
  rendezvous of the sockets of one client (\<^verbatim>\<open>recv_barrier\<close>).
\<close>

section \<open>Connection slots\<close>

text \<open>
  \<^verbatim>\<open>_num_open_sockets\<close> counts the threads that are inside and the ones that wait to get in. A thread
  is a number; \<open>waiting\<close> are the threads in \<^verbatim>\<open>_max_cv.wait\<close>, \<open>admitted\<close> the ones that have a slot.
\<close>

record slots =
  max_open_sockets :: nat
  num_open_sockets :: nat
  num_open_stalls :: nat
  waiting :: "nat set"
  admitted :: "nat set"

definition init_slots :: "nat \<Rightarrow> slots" where
  "init_slots hwlim =
     \<lparr>max_open_sockets = (if hwlim = 0 then 32 else hwlim), num_open_sockets = 0,
      num_open_stalls = 0, waiting = {}, admitted = {}\<rparr>"

text \<open>The first critical section of \<^verbatim>\<open>wait_available_slot\<close>; the flag says that a half-ping is sent.\<close>

definition wait_available_slot :: "nat \<Rightarrow> slots \<Rightarrow> bool \<times> slots" where
  "wait_available_slot t s =
     (let n = Suc (num_open_sockets s);
          s1 = s\<lparr>num_open_sockets := n\<rparr>;
          full = (max_open_sockets s < n)
      in (max_open_sockets s \<le> n,
          if full then s1\<lparr>num_open_stalls := Suc (num_open_stalls s), waiting := insert t (waiting s)\<rparr>
          else s1\<lparr>admitted := insert t (admitted s)\<rparr>))"

text \<open>A notified waiter looks at the condition again: it goes on, or waits further.\<close>

definition recheck_slot :: "nat \<Rightarrow> slots \<Rightarrow> slots" where
  "recheck_slot t s =
     (if max_open_sockets s < num_open_sockets s then s
      else s\<lparr>waiting := waiting s - {t}, admitted := insert t (admitted s)\<rparr>)"

definition release_slot :: "nat \<Rightarrow> slots \<Rightarrow> slots" where
  "release_slot t s =
     s\<lparr>num_open_sockets := num_open_sockets s - 1, admitted := admitted s - {t}\<rparr>"

inductive slot_step :: "slots \<Rightarrow> slots \<Rightarrow> bool" where
  enter: "t \<notin> waiting s \<Longrightarrow> t \<notin> admitted s \<Longrightarrow> slot_step s (snd (wait_available_slot t s))"
| wake: "t \<in> waiting s \<Longrightarrow> slot_step s (recheck_slot t s)"
| leave: "t \<in> admitted s \<Longrightarrow> slot_step s (release_slot t s)"

inductive_cases slot_stepE: "slot_step s s'"

definition slots_inv :: "slots \<Rightarrow> bool" where
  "slots_inv s \<longleftrightarrow> finite (waiting s) \<and> finite (admitted s) \<and> waiting s \<inter> admitted s = {}
     \<and> num_open_sockets s = card (waiting s) + card (admitted s)
     \<and> card (admitted s) \<le> max_open_sockets s"

lemma slots_inv_init: "slots_inv (init_slots hw)"
  by (simp add: slots_inv_def init_slots_def)

lemma slots_inv_step: "slot_step s s' \<Longrightarrow> slots_inv s \<Longrightarrow> slots_inv s'"
proof (induction rule: slot_step.induct)
  case (enter t s)
  then show ?case by (auto simp: slots_inv_def wait_available_slot_def Let_def)
next
  case (wake t s)
  then have "card (waiting s - {t}) = card (waiting s) - 1" "0 < card (waiting s)"
    by (auto simp: slots_inv_def card_gt_0_iff)
  moreover have "t \<notin> admitted s"
    using wake by (auto simp: slots_inv_def)
  ultimately show ?case using wake by (auto simp: slots_inv_def recheck_slot_def)
next
  case (leave t s)
  then have "card (admitted s - {t}) = card (admitted s) - 1" "0 < card (admitted s)"
    by (auto simp: slots_inv_def card_gt_0_iff)
  with leave show ?case by (auto simp: slots_inv_def release_slot_def)
qed

lemma max_open_step [simp]: "slot_step s s' \<Longrightarrow> max_open_sockets s' = max_open_sockets s"
  by (auto elim!: slot_stepE simp: wait_available_slot_def recheck_slot_def release_slot_def Let_def)

lemma slots_inv_reach: "slot_step\<^sup>*\<^sup>* (init_slots hw) s \<Longrightarrow> slots_inv s"
  by (induction rule: rtranclp_induct) (auto intro: slots_inv_init slots_inv_step)

lemma max_open_reach: "slot_step\<^sup>*\<^sup>* s s' \<Longrightarrow> max_open_sockets s' = max_open_sockets s"
  by (induction rule: rtranclp_induct) auto

text \<open>
  However the threads interleave, the number of connections that are let in never exceeds the
  limit, and the counter is the number of threads inside plus the number that wait.
\<close>

theorem slots_bounded:
  assumes "slot_step\<^sup>*\<^sup>* (init_slots hw) s"
  shows "card (admitted s) \<le> max_open_sockets (init_slots hw)
    \<and> num_open_sockets s = card (waiting s) + card (admitted s)"
  using slots_inv_reach [OF assms] max_open_reach [OF assms] by (simp add: slots_inv_def)

theorem slots_bounded_witness:
  "card (admitted (snd (wait_available_slot 7 (init_slots 4)))) \<le> max_open_sockets (init_slots 4)
   \<and> num_open_sockets (snd (wait_available_slot 7 (init_slots 4)))
     = card (waiting (snd (wait_available_slot 7 (init_slots 4))))
       + card (admitted (snd (wait_available_slot 7 (init_slots 4))))"
  by (rule slots_bounded) (auto intro!: r_into_rtranclp slot_step.enter simp: init_slots_def)

text \<open>
  When every connection has ended, a thread that waits gets in, provided that no more threads
  wait than the limit admits.
\<close>

theorem slots_progress:
  assumes "slot_step\<^sup>*\<^sup>* (init_slots hw) s" "admitted s = {}" "t \<in> waiting s"
    and "card (waiting s) \<le> max_open_sockets s"
  shows "slot_step s (recheck_slot t s) \<and> t \<in> admitted (recheck_slot t s)"
proof
  show "slot_step s (recheck_slot t s)" using assms(3) by (rule slot_step.wake)
  show "t \<in> admitted (recheck_slot t s)"
    using assms slots_inv_reach [OF assms(1)] by (simp add: slots_inv_def recheck_slot_def)
qed

lemma stuck_step:
  "slot_step s s' \<Longrightarrow> slots_inv s \<and> admitted s = {} \<and> max_open_sockets s < card (waiting s) \<Longrightarrow>
   slots_inv s' \<and> admitted s' = {} \<and> max_open_sockets s' < card (waiting s')"
proof (intro conjI)
  assume st: "slot_step s s'" and i: "slots_inv s \<and> admitted s = {} \<and> max_open_sockets s < card (waiting s)"
  show inv: "slots_inv s'" using slots_inv_step st i by blast
  show "admitted s' = {}"
    using st i by (auto elim!: slot_stepE simp: slots_inv_def wait_available_slot_def recheck_slot_def Let_def)
  show "max_open_sockets s' < card (waiting s')"
    using st i by (auto elim!: slot_stepE simp: slots_inv_def wait_available_slot_def recheck_slot_def Let_def)
qed

text \<open>
  With more threads waiting than the limit, and no connection left to end, nobody gets in any
  more, ever: the counter that they wait for counts themselves.
\<close>

theorem slots_deadlock:
  assumes "slot_step\<^sup>*\<^sup>* (init_slots hw) s" "admitted s = {}" "max_open_sockets s < card (waiting s)"
    and "slot_step\<^sup>*\<^sup>* s s'"
  shows "admitted s' = {}"
proof -
  have "slots_inv s' \<and> admitted s' = {} \<and> max_open_sockets s' < card (waiting s')"
    using assms(4)
  proof (induction rule: rtranclp_induct)
    case base
    then show ?case using assms slots_inv_reach by blast
  next
    case (step y z)
    then show ?case using stuck_step by blast
  qed
  then show ?thesis by blast
qed

text \<open>
  The state is reached with two slots and three listeners (telnet, web and MCP share one manager): two connections are
  served, three more clients wait on the three listeners, and the two connections end.
\<close>

definition jammed :: slots where
  "jammed =
     release_slot 2 (release_slot 1 (snd (wait_available_slot 5 (snd (wait_available_slot 4
       (snd (wait_available_slot 3 (snd (wait_available_slot 2 (snd (wait_available_slot 1 (init_slots 2))))))))))))"

lemmas slot_ops = wait_available_slot_def release_slot_def init_slots_def Let_def

lemma reach_enter:
  "slot_step\<^sup>*\<^sup>* i s \<Longrightarrow> t \<notin> waiting s \<Longrightarrow> t \<notin> admitted s \<Longrightarrow>
   slot_step\<^sup>*\<^sup>* i (snd (wait_available_slot t s))"
  by (meson rtranclp.rtrancl_into_rtrancl slot_step.enter)

lemma reach_leave: "slot_step\<^sup>*\<^sup>* i s \<Longrightarrow> t \<in> admitted s \<Longrightarrow> slot_step\<^sup>*\<^sup>* i (release_slot t s)"
  by (meson rtranclp.rtrancl_into_rtrancl slot_step.leave)

lemma jammed_reachable: "slot_step\<^sup>*\<^sup>* (init_slots 2) jammed"
  unfolding jammed_def
  by (intro reach_enter reach_leave rtranclp.rtrancl_refl) (simp_all add: slot_ops)

theorem slots_deadlock_witness: "admitted (recheck_slot 3 jammed) = {}"
  by (rule slots_deadlock [OF jammed_reachable])
    (use slot_step.wake [of 3 jammed] in \<open>auto simp: jammed_def slot_ops\<close>)

theorem slots_progress_witness:
  "slot_step (release_slot 1 (snd (wait_available_slot 2 (snd (wait_available_slot 1 (init_slots 1))))))
     (recheck_slot 2 (release_slot 1 (snd (wait_available_slot 2 (snd (wait_available_slot 1 (init_slots 1)))))))
   \<and> 2 \<in> admitted (recheck_slot 2 (release_slot 1 (snd (wait_available_slot 2 (snd (wait_available_slot 1 (init_slots 1)))))))"
  by (intro slots_progress [of 1] reach_enter reach_leave rtranclp.rtrancl_refl) (auto simp: slot_ops)

section \<open>The rendezvous of one client's sockets\<close>

record BarrierState =
  remaining :: byte
  to_exit :: byte
  complete :: bool

type_synonym recv_barriers = "string \<rightharpoonup> BarrierState"

text \<open>Leaving: the last one erases the entry.\<close>

definition barrier_exit :: "string \<Rightarrow> BarrierState \<Rightarrow> recv_barriers \<Rightarrow> recv_barriers" where
  "barrier_exit uuid e m =
     (let e' = e\<lparr>to_exit := to_exit e - 1\<rparr>
      in if to_exit e' = 0 then m(uuid := None) else m(uuid \<mapsto> e'))"

text \<open>
  The critical section of an arriving socket: \<^const>\<open>True\<close> when it goes straight through,
  \<^const>\<open>False\<close> when it waits on the entry's condition variable.
\<close>

definition recv_barrier :: "byte \<Rightarrow> string \<Rightarrow> recv_barriers \<Rightarrow> bool \<times> recv_barriers" where
  "recv_barrier n uuid m =
     (let e = (case m uuid of
                 None \<Rightarrow> \<lparr>remaining = n - 1, to_exit = n, complete = False\<rparr>
               | Some e \<Rightarrow> e\<lparr>remaining := remaining e - 1\<rparr>);
          e1 = (if remaining e = 0 \<and> \<not> complete e then e\<lparr>complete := True\<rparr> else e)
      in if complete e1 then (True, barrier_exit uuid e1 m) else (False, m(uuid \<mapsto> e1)))"

text \<open>
  A waiter that wakes up: it leaves when the barrier is complete. \<^const>\<open>None\<close> when the entry it
  refers to has been erased under it, which C++ leaves undefined.
\<close>

definition recv_wakeup :: "string \<Rightarrow> recv_barriers \<Rightarrow> (bool \<times> recv_barriers) option" where
  "recv_wakeup uuid m =
     (case m uuid of
        None \<Rightarrow> None
      | Some e \<Rightarrow> Some (if complete e then (True, barrier_exit uuid e m) else (False, m)))"

fun arrivals :: "nat \<Rightarrow> byte \<Rightarrow> string \<Rightarrow> recv_barriers \<Rightarrow> bool list \<times> recv_barriers" where
  "arrivals 0 n uuid m = ([], m)"
| "arrivals (Suc k) n uuid m =
     (case arrivals k n uuid m of
        (outs, m') \<Rightarrow> (case recv_barrier n uuid m' of (out, m'') \<Rightarrow> (outs @ [out], m'')))"

fun wakeups :: "nat \<Rightarrow> string \<Rightarrow> recv_barriers \<Rightarrow> recv_barriers option" where
  "wakeups 0 uuid m = Some m"
| "wakeups (Suc k) uuid m =
     (case recv_wakeup uuid m of Some (True, m') \<Rightarrow> wakeups k uuid m' | _ \<Rightarrow> None)"

lemma word_of_nat_byte_neq_0:
  "0 < k \<Longrightarrow> k < 256 \<Longrightarrow> (of_nat k :: byte) \<noteq> 0"
  using unat_of_nat [of k, where 'a = 8] by (auto simp: unat_eq_zero)

lemma of_nat_Suc_diff: "(of_nat (Suc k) :: byte) - 1 = of_nat k"
  by simp

lemma arrivals_waiting:
  assumes "m uuid = None" "k < n" "n < 256" "0 < k"
  shows "arrivals k (of_nat n) uuid m =
    (replicate k False, m(uuid \<mapsto> \<lparr>remaining = of_nat (n - k), to_exit = of_nat n, complete = False\<rparr>))"
  using assms(2,4)
proof (induction k)
  case (Suc k)
  have nk: "(of_nat (n - Suc k) :: byte) \<noteq> 0"
    using Suc.prems assms by (intro word_of_nat_byte_neq_0) auto
  have d: "(of_nat (n - k) :: byte) - 1 = of_nat (n - Suc k)" if "k < n"
    using that of_nat_Suc_diff [of "n - Suc k"] by (simp only: Suc_diff_Suc)
  show ?case
  proof (cases "k = 0")
    case True
    with nk d assms Suc.prems show ?thesis
      by (auto simp: recv_barrier_def Let_def)
  next
    case False
    with Suc.prems have IH: "arrivals k (of_nat n) uuid m =
      (replicate k False, m(uuid \<mapsto> \<lparr>remaining = of_nat (n - k), to_exit = of_nat n, complete = False\<rparr>))"
      by (intro Suc.IH) auto
    have "recv_barrier (of_nat n) uuid
        (m(uuid \<mapsto> \<lparr>remaining = of_nat (n - k), to_exit = of_nat n, complete = False\<rparr>)) =
        (False, m(uuid \<mapsto> \<lparr>remaining = of_nat (n - Suc k), to_exit = of_nat n, complete = False\<rparr>))"
      using nk d Suc.prems by (simp add: recv_barrier_def Let_def del: of_nat_diff)
    then show ?thesis
      by (simp only: arrivals.simps IH prod.case replicate_Suc replicate_append_same)
  qed
qed simp

lemma wakeups_all:
  assumes "0 < k" "k < 256" "m uuid = None"
  shows "wakeups k uuid (m(uuid \<mapsto> \<lparr>remaining = 0, to_exit = of_nat k, complete = True\<rparr>)) = Some m"
  using assms(1,2)
proof (induction k)
  case (Suc k)
  show ?case
  proof (cases "k = 0")
    case True
    with assms(3) show ?thesis
      by (auto simp: recv_wakeup_def barrier_exit_def)
  next
    case False
    with Suc.prems have "(of_nat k :: byte) \<noteq> 0" by (intro word_of_nat_byte_neq_0) auto
    with Suc False show ?thesis
      by (simp add: recv_wakeup_def barrier_exit_def fun_upd_def [symmetric])
  qed
qed simp

text \<open>
  C21. \<^verbatim>\<open>recv_barrier\<close> with a count of 2 to 255: the first \<open>n - 1\<close> sockets wait, the \<open>n\<close>-th goes through, each
  waiter then gets out, and the last one leaves the table as it was before.
\<close>

theorem recv_barrier_round:
  assumes "m uuid = None" "1 < n" "n < 256"
  shows "\<exists>m'. arrivals n (of_nat n) uuid m = (replicate (n - 1) False @ [True], m')
     \<and> wakeups (n - 1) uuid m' = Some m"
proof -
  obtain k where n: "n = Suc k" and k: "0 < k" using assms(2) by (cases n) auto
  have a: "arrivals k (of_nat n) uuid m =
    (replicate k False, m(uuid \<mapsto> \<lparr>remaining = 1, to_exit = of_nat n, complete = False\<rparr>))"
    using arrivals_waiting [of m uuid k n] assms n k by simp
  have k0: "(of_nat k :: byte) \<noteq> 0"
    using word_of_nat_byte_neq_0 [of k] k assms n by simp
  have "arrivals (Suc k) (of_nat n) uuid m =
     (replicate k False @ [True], m(uuid \<mapsto> \<lparr>remaining = 0, to_exit = of_nat k, complete = True\<rparr>))"
    using a k0 n by (simp add: recv_barrier_def barrier_exit_def)
  with wakeups_all [of k m uuid] k n assms show ?thesis by simp
qed

theorem recv_barrier_round_witness:
  "\<exists>m'. arrivals 3 3 ''id'' Map.empty = ([False, False, True], m') \<and> wakeups 2 ''id'' m' = Some Map.empty"
  using recv_barrier_round [of Map.empty "''id''" 3] by (simp add: numeral_2_eq_2)

text \<open>
  The identifier is not free while sockets are still leaving: one more arrival goes through at
  once, and the waiter of the first round finds its entry erased.
\<close>

theorem recv_barrier_reuse_breaks:
  "m uuid = None \<Longrightarrow>
   \<exists>m1 m2. arrivals 2 2 uuid m = ([False, True], m1) \<and> recv_barrier 2 uuid m1 = (True, m2)
     \<and> recv_wakeup uuid m2 = None"
  by (simp add: numeral_2_eq_2 recv_barrier_def barrier_exit_def recv_wakeup_def)

theorem recv_barrier_reuse_breaks_witness:
  "\<exists>m1 m2. arrivals 2 2 ''id'' Map.empty = ([False, True], m1) \<and> recv_barrier 2 ''id'' m1 = (True, m2)
     \<and> recv_wakeup ''id'' m2 = None"
  using recv_barrier_reuse_breaks [of Map.empty "''id''"] by simp

end
