(* ===== verification/Socket_Manager.thy ===== *)
theory Socket_Manager
  imports WebSocket
begin

text \<open>
  \<^verbatim>\<open>ConsoleSocket\<close> (the socket all servers use), and the registry of open sockets in
  \<^verbatim>\<open>SocketManager.cc\<close>: registration, the liveness ping, \<^verbatim>\<open>kill\<close>, \<^verbatim>\<open>network_gone\<close>, the statistics
  display, and the global barrier as a step relation over its critical sections. The slot limit and
  \<^verbatim>\<open>recv_barrier\<close> are in the theory \<open>Slots\<close>.
\<close>

section \<open>Console sockets\<close>

text \<open>What the manager asks of a socket's shell.\<close>

record shell_view =
  sv_name :: string
  sv_queued :: nat
  sv_eval_done :: bool
  sv_pending :: nat
  sv_is_eval_thread :: bool

record console_socket = server_socket +
  use_count :: nat
  console_shell :: "shell_view option"

definition new_console_socket :: "int \<Rightarrow> console_socket" where
  "new_console_socket now =
     server_socket.extend (new_server_socket now) \<lparr>use_count = 0, console_shell = None\<rparr>"

definition SetShell :: "shell_view option \<Rightarrow> 'a console_socket_scheme \<Rightarrow> 'a console_socket_scheme" where
  "SetShell g s = s\<lparr>console_shell := g\<rparr>"

definition cs_get :: "'a console_socket_scheme \<Rightarrow> 'a console_socket_scheme" where
  "cs_get s = s\<lparr>use_count := Suc (use_count s)\<rparr>"

definition cs_put :: "'a console_socket_scheme \<Rightarrow> 'a console_socket_scheme" where
  "cs_put s = s\<lparr>use_count := use_count s - 1\<rparr>"

definition busyShell :: "'a console_socket_scheme \<Rightarrow> bool" where
  "busyShell s =
     (case console_shell s of
        None \<Rightarrow> False
      | Some sh \<Rightarrow> 0 < sv_queued sh \<or> \<not> sv_eval_done sh)"

text \<open>The destructor gets past its wait only when no request uses the socket any more.\<close>

definition console_dtor_ready :: "'a console_socket_scheme \<Rightarrow> bool" where
  "console_dtor_ready s \<longleftrightarrow> use_count s = 0"

definition console_header :: string where
  "console_header = connection_header @ '' U SHEL QZ E PENDG''"

definition console_stats :: "(int \<Rightarrow> string) \<Rightarrow> 'a console_socket_scheme \<Rightarrow> string" where
  "console_stats show_date s =
     connection_stats show_date s
     @ snprintf 40 ('' '' @ show_nat (use_count s) @ '' '')
     @ (case console_shell s of
          Some sh \<Rightarrow> sv_name sh
            @ snprintf 40 ('' '' @ pad_left 2 (show_nat (sv_queued sh)) @ '' ''
                @ (if sv_eval_done sh then ''F'' else ''T'') @ '' '' @ pad_left 5 (show_nat (sv_pending sh)))
        | None \<Rightarrow> ''cogs           '')"

section \<open>The registry\<close>

text \<open>
  \<^verbatim>\<open>std::set<ServerSocket*>\<close> is kept in the order of the addresses; an entry is an address and the
  object there.
\<close>

type_synonym sock_list = "(nat \<times> console_socket) list"

fun add_sock :: "nat \<Rightarrow> console_socket \<Rightarrow> sock_list \<Rightarrow> sock_list" where
  "add_sock p ss [] = [(p, ss)]"
| "add_sock p ss ((q, tt) # l) =
     (if p < q then (p, ss) # (q, tt) # l
      else if p = q then (q, tt) # l
      else (q, tt) # add_sock p ss l)"

definition rem_sock :: "nat \<Rightarrow> sock_list \<Rightarrow> sock_list" where
  "rem_sock p l = filter (\<lambda>(q, _). q \<noteq> p) l"

definition sock_list_inv :: "sock_list \<Rightarrow> bool" where
  "sock_list_inv l \<longleftrightarrow> sorted_wrt (<) (map fst l)"

text \<open>Ping a socket that waits for input and was idle for more than ten seconds.\<close>

definition ping_sock :: "int \<Rightarrow> (console_socket, unit) act" where
  "ping_sock now s =
     (if status s = IWAIT \<and> now - last_activity s > 10
      then if do_frame_io s then send_websocket_pong s else Send [CHR 0x16] s
      else (Inr (), s))"

fun half_ping :: "int \<Rightarrow> (sock_list, unit) act" where
  "half_ping now [] = (Inr (), [])"
| "half_ping now ((p, s) # l) =
     (case ping_sock now s of
        (Inl e, s') \<Rightarrow> (Inl e, (p, s') # l)
      | (Inr _, s') \<Rightarrow> (case half_ping now l of (res, l') \<Rightarrow> (res, (p, s') # l')))"

fun kill :: "int \<Rightarrow> sock_list \<Rightarrow> bool \<times> sock_list" where
  "kill t [] = (False, [])"
| "kill t ((p, s) # l) =
     (if t = tid s then (True, (p, Exit s) # l)
      else case kill t l of (found, l') \<Rightarrow> (found, (p, s) # l'))"

text \<open>The list and the flag \<^verbatim>\<open>_network_gone\<close>, which stays set.\<close>

definition network_gone :: "bool \<times> sock_list \<Rightarrow> bool \<times> sock_list" where
  "network_gone m = (True, map (\<lambda>(p, s). (p, Exit s)) (snd m))"

subsection \<open>Statistics\<close>

text \<open>The order of the display, by start time, then by thread, and \<^verbatim>\<open>std::sort\<close> on it.\<close>

fun stats_before :: "console_socket \<Rightarrow> console_socket \<Rightarrow> bool" where
  "stats_before sa sb = (if start_time sa = start_time sb then tid sa < tid sb else start_time sa < start_time sb)"

fun stats_insert :: "console_socket \<Rightarrow> console_socket list \<Rightarrow> console_socket list" where
  "stats_insert s [] = [s]"
| "stats_insert s (x # xs) = (if stats_before x s then x # stats_insert s xs else s # x # xs)"

definition stats_sort :: "console_socket list \<Rightarrow> console_socket list" where
  "stats_sort l = foldr stats_insert l []"

text \<open>The print loop, with its counter \<^verbatim>\<open>nprt\<close>.\<close>

fun print_loop :: "(int \<Rightarrow> string) \<Rightarrow> int \<Rightarrow> int \<Rightarrow> console_socket list \<Rightarrow> string" where
  "print_loop show_date nlines nprt [] = []"
| "print_loop show_date nlines nprt (ss # sov) =
     (let hdr = (if nprt = 0 then console_header @ nl else []);
          n1 = (if nprt = 0 then nprt + 1 else nprt);
          n2 = n1 + 1
      in hdr @ console_stats show_date ss @ nl
         @ (if 0 < nlines \<and> nlines < n2 then [] else print_loop show_date nlines n2 sov))"

definition display_stats :: "(int \<Rightarrow> string) \<Rightarrow> int \<Rightarrow> int \<Rightarrow> sock_list \<Rightarrow> string res \<times> sock_list" where
  "display_stats show_date now nlines l =
     (case half_ping now l of
        (Inl e, l') \<Rightarrow> (Inl e, l')
      | (Inr _, l') \<Rightarrow> (Inr (print_loop show_date nlines 0 (stats_sort (map snd l'))), l'))"

text \<open>What the operating system reports for the full display.\<close>

record os_stats =
  os_now :: int
  os_nfd :: nat
  os_cpu_clk :: nat
  ru_utime :: "int \<times> int"
  ru_stime :: "int \<times> int"
  ru_maxrss :: int
  ru_majflt :: int
  ru_inblock :: int
  ru_oublock :: int

definition pad_zero :: "nat \<Rightarrow> string \<Rightarrow> string" where
  "pad_zero w s = replicate (w - length s) (CHR ''0'') @ s"

definition clocks_per_sec :: nat where
  "clocks_per_sec = 1000000"

definition display_stats_full ::
  "(int \<Rightarrow> string) \<Rightarrow> (int \<Rightarrow> string) \<Rightarrow> os_stats \<Rightarrow> nat \<times> nat \<times> nat \<Rightarrow> nat \<Rightarrow>
   string \<Rightarrow> int \<Rightarrow> int \<Rightarrow> sock_list \<Rightarrow> string res \<times> sock_list" where
  "display_stats_full show_long show_date os counts tot_lines title start nlines l =
     (case counts of (max_open, num_open, stalls) \<Rightarrow>
      let clk = os_cpu_clk os;
          sec = clk div clocks_per_sec;
          rem = clk - sec * clocks_per_sec;
          msec = (1000 * rem) div clocks_per_sec;
          head = ''----- OpenCog '' @ title @ '': type help or ^C to exit'' @ nl
            @ show_long (os_now os) @ '' UTC ---- up-since: '' @ show_long start @ nl;
          socks = snprintf 180 (''max-open-socks: '' @ show_nat max_open @ ''   cur-open-socks: ''
            @ show_nat num_open @ ''   num-open-fds: '' @ show_nat (os_nfd os) @ ''  stalls: ''
            @ show_nat stalls @ nl);
          cpu = snprintf 180 (''cpu: '' @ show_nat sec @ ''.'' @ pad_zero 3 (show_nat msec)
            @ '' secs  user: '' @ show_int (fst (ru_utime os)) @ ''.'' @ pad_zero 3 (show_int (snd (ru_utime os) div 1000))
            @ ''  sys: '' @ show_int (fst (ru_stime os)) @ ''.'' @ pad_zero 3 (show_int (snd (ru_stime os) div 1000))
            @ ''     tot-lines: '' @ show_nat tot_lines @ nl);
          mem = snprintf 180 (''maxrss: '' @ show_int (ru_maxrss os) @ '' KB  majflt: '' @ show_int (ru_majflt os)
            @ ''  inblk: '' @ show_int (ru_inblock os) @ ''  outblk: '' @ show_int (ru_oublock os) @ nl)
      in case display_stats show_date (os_now os) (nlines - 9) l of
           (Inl e, l') \<Rightarrow> (Inl e, l')
         | (Inr st, l') \<Rightarrow> (Inr (head @ socks @ cpu @ mem @ nl @ st), l'))"

section \<open>The registry: lemmas\<close>

lemma set_add_sock: "p \<notin> fst ` set l \<Longrightarrow> set (add_sock p ss l) = insert (p, ss) (set l)"
  by (induction l rule: add_sock.induct) auto

lemma fst_add_sock: "fst ` set (add_sock p ss l) = insert p (fst ` set l)"
  by (induction l rule: add_sock.induct) auto

lemma add_sock_inv: "sock_list_inv l \<Longrightarrow> sock_list_inv (add_sock p ss l)"
proof (induction l rule: add_sock.induct)
  case (2 p ss q tt l)
  have "set (map fst (add_sock p ss l)) = insert p (set (map fst l))"
    using fst_add_sock [of p ss l] by simp
  with 2 show ?case by (fastforce simp: sock_list_inv_def)
qed (simp add: sock_list_inv_def)

lemma rem_sock_inv: "sock_list_inv l \<Longrightarrow> sock_list_inv (rem_sock p l)"
  unfolding sock_list_inv_def rem_sock_def
  by (induction l) auto

lemma rem_add_sock:
  "p \<notin> fst ` set l \<Longrightarrow> rem_sock p (add_sock p ss l) = l"
proof (induction l rule: add_sock.induct)
  case (2 p ss q tt l)
  then have "filter (\<lambda>(r, _). r \<noteq> p) l = l" by (force simp: filter_id_conv)
  with 2 show ?case by (auto simp: rem_sock_def)
qed (simp add: rem_sock_def)

lemma kill_notin: "tid s \<noteq> t \<Longrightarrow> kill t ((p, s) # l) = (fst (kill t l), (p, s) # snd (kill t l))"
  by (simp split: prod.splits)

text \<open>
  \<^verbatim>\<open>kill\<close> reports success exactly when a registered socket has the thread number; then the first such
  socket, and no other, is shut down.
\<close>

theorem kill_spec:
  "kill t l =
     (case find (\<lambda>i. tid (snd (l ! i)) = t) [0..<length l] of
        None \<Rightarrow> (False, l)
      | Some i \<Rightarrow> (True, l[i := (fst (l ! i), Exit (snd (l ! i)))]))"
proof (induction l)
  case (Cons x l)
  obtain p s where x: "x = (p, s)" by (cases x)
  have u: "[0..<length (x # l)] = 0 # map Suc [0..<length l]"
    by (simp add: map_Suc_upt upt_conv_Cons del: upt_Suc)
  have f: "find P (map Suc is) = map_option Suc (find (\<lambda>i. P (Suc i)) is)" for P "is"
    by (induction "is") auto
  show ?case
    unfolding u using Cons by (cases "tid s = t") (auto simp: x f split: option.splits)
qed simp

lemma half_ping_spec:
  assumes "\<forall>(p, s) \<in> set l. has_socket s"
  shows "half_ping now l = (Inr (), map (\<lambda>(p, s). (p, snd (ping_sock now s))) l)"
  using assms
proof (induction now l rule: half_ping.induct)
  case (2 now p s l)
  then have "fst (ping_sock now s) = Inr ()"
    by (auto simp: ping_sock_def send_websocket_pong_def Send_def send_buffer_def)
  with 2 show ?case by (cases "ping_sock now s") auto
qed simp

text \<open>
  The half-ping writes one SYN byte, or on a websocket an empty pong frame, to each socket that waits for
  input and has been idle for more than ten seconds; it changes nothing else and never fails.
\<close>

theorem half_ping_pings_idle:
  assumes "\<forall>(p, s) \<in> set l. has_socket s \<and> sock_up s"
  shows "half_ping now l =
    (Inr (), map (\<lambda>(p, s). (p, if status s = IWAIT \<and> now - last_activity s > 10
        then s\<lparr>tx := tx s @ (if do_frame_io s then [CHR 0x8A, CHR 0x00] else [CHR 0x16])\<rparr> else s)) l)"
  using assms
  by (subst half_ping_spec)
    (auto simp: ping_sock_def send_websocket_pong_def Send_def split: prod.splits)

theorem half_ping_pings_idle_witness:
  "half_ping 100 [(1, (set_connection (new_console_socket 0))\<lparr>status := IWAIT\<rparr>)] =
     (Inr (), [(1, (set_connection (new_console_socket 0))\<lparr>status := IWAIT, tx := [CHR 0x16]\<rparr>)])"
  using half_ping_pings_idle [of "[(1, (set_connection (new_console_socket 0))\<lparr>status := IWAIT\<rparr>)]" 100]
  by (simp add: set_connection_def new_console_socket_def new_server_socket_def server_socket.extend_def)

lemma print_loop_rest:
  "1 \<le> nprt \<Longrightarrow> print_loop sd nlines nprt sov =
     concat (map (\<lambda>s. console_stats sd s @ nl)
       (if 0 < nlines then take (max 1 (nat (nlines - nprt + 1))) sov else sov))"
proof (induction sd nlines nprt sov rule: print_loop.induct)
  case (2 sd nlines nprt ss sov)
  have "max 1 (nat (nlines - nprt + 1)) = Suc (max 1 (nat (nlines - (nprt + 1) + 1)))"
    if "\<not> nlines < nprt + 1" "0 < nlines"
    using that by arith
  with 2 show ?case
    by (auto simp: Let_def)
qed simp

text \<open>
  The display has the header and then one row per socket, at most \<open>nlines\<close> rows when \<open>nlines\<close> is
  positive, all of them otherwise; it is empty when there is no socket.
\<close>

theorem display_rows:
  "print_loop sd nlines 0 sov =
     (if sov = [] then []
      else console_header @ nl
        @ concat (map (\<lambda>s. console_stats sd s @ nl) (if 0 < nlines then take (nat nlines) sov else sov)))"
proof (cases sov)
  case (Cons s rest)
  then show ?thesis
  proof (cases "1 < nlines")
    case True
    then have "nat nlines = Suc (max 1 (nat (nlines - 1)))" by arith
    with True Cons show ?thesis by (auto simp: print_loop_rest Let_def)
  next
    case False
    then have "nlines = 1 \<or> nlines \<le> 0" by auto
    with Cons show ?thesis by (auto simp: print_loop_rest Let_def)
  qed
qed simp

section \<open>The global barrier\<close>

text \<open>
  \<^verbatim>\<open>global_barrier\<close> takes three different locks, and none for the flag \<^verbatim>\<open>_in_barrier\<close>. Its steps, in the
  order of the code, for the socket \<open>t\<close> whose eval thread calls it: raise the flag of the socket, switch
  the barrier on, poll until all other shells are idle, lower the flag, look whether any socket is
  still in a barrier, switch the barrier off. Meanwhile shells finish work, and take new work when
  \<^verbatim>\<open>block_on_bar\<close> lets them.
\<close>

datatype bar_pc = Bar_out | Bar_flagged | Bar_polling | Bar_idle | Bar_lowered | Bar_last

record bar_state =
  bar_socks :: "nat set"
  bar_at :: "nat \<Rightarrow> bar_pc"
  bar_flag :: "nat \<Rightarrow> bool"
  bar_busy :: "nat \<Rightarrow> bool"
  global_barrier_active :: bool

text \<open>The test of the polling loop.\<close>

definition all_idle :: "nat \<Rightarrow> bar_state \<Rightarrow> bool" where
  "all_idle t s \<longleftrightarrow> (\<forall>u \<in> bar_socks s. u \<noteq> t \<longrightarrow> \<not> bar_flag s u \<longrightarrow> \<not> bar_busy s u)"

text \<open>\<open>callers\<close> are the sockets on which the barrier is used.\<close>

inductive bar_step :: "nat set \<Rightarrow> bar_state \<Rightarrow> bar_state \<Rightarrow> bool" for callers where
  raise_flag: "t \<in> callers \<Longrightarrow> t \<in> bar_socks s \<Longrightarrow> bar_at s t = Bar_out \<Longrightarrow>
     bar_step callers s (s\<lparr>bar_flag := (bar_flag s)(t := True), bar_at := (bar_at s)(t := Bar_flagged)\<rparr>)"
| switch_on: "bar_at s t = Bar_flagged \<Longrightarrow>
     bar_step callers s (s\<lparr>global_barrier_active := True, bar_at := (bar_at s)(t := Bar_polling)\<rparr>)"
| poll: "bar_at s t = Bar_polling \<Longrightarrow> all_idle t s \<Longrightarrow>
     bar_step callers s (s\<lparr>bar_at := (bar_at s)(t := Bar_idle)\<rparr>)"
| lower_flag: "bar_at s t = Bar_idle \<Longrightarrow>
     bar_step callers s (s\<lparr>bar_flag := (bar_flag s)(t := False), bar_at := (bar_at s)(t := Bar_lowered)\<rparr>)"
| not_last: "bar_at s t = Bar_lowered \<Longrightarrow> \<exists>u \<in> bar_socks s. bar_flag s u \<Longrightarrow>
     bar_step callers s (s\<lparr>bar_at := (bar_at s)(t := Bar_out)\<rparr>)"
| last_out: "bar_at s t = Bar_lowered \<Longrightarrow> \<forall>u \<in> bar_socks s. \<not> bar_flag s u \<Longrightarrow>
     bar_step callers s (s\<lparr>bar_at := (bar_at s)(t := Bar_last)\<rparr>)"
| switch_off: "bar_at s t = Bar_last \<Longrightarrow>
     bar_step callers s (s\<lparr>global_barrier_active := False, bar_at := (bar_at s)(t := Bar_out)\<rparr>)"
| new_work: "\<not> global_barrier_active s \<Longrightarrow>
     bar_step callers s (s\<lparr>bar_busy := (bar_busy s)(u := True)\<rparr>)"
| work_done: "bar_step callers s (s\<lparr>bar_busy := (bar_busy s)(u := False)\<rparr>)"

inductive_cases bar_stepE: "bar_step callers s s'"

definition bar_init :: "nat set \<Rightarrow> bar_state" where
  "bar_init socks =
     \<lparr>bar_socks = socks, bar_at = (\<lambda>_. Bar_out), bar_flag = (\<lambda>_. False), bar_busy = (\<lambda>_. False),
      global_barrier_active = False\<rparr>"

text \<open>With one caller, the barrier is on from the switch to the end, and idle shells stay idle.\<close>

definition bar_inv :: "nat \<Rightarrow> bar_state \<Rightarrow> bool" where
  "bar_inv t s \<longleftrightarrow> (\<forall>u. u \<noteq> t \<longrightarrow> bar_at s u = Bar_out \<and> \<not> bar_flag s u)
     \<and> (bar_at s t \<in> {Bar_polling, Bar_idle, Bar_lowered, Bar_last} \<longrightarrow> global_barrier_active s)
     \<and> (bar_at s t \<in> {Bar_idle, Bar_lowered, Bar_last} \<longrightarrow> (\<forall>u \<in> bar_socks s. u \<noteq> t \<longrightarrow> \<not> bar_busy s u))"

lemma bar_inv_init: "bar_inv t (bar_init socks)"
  by (simp add: bar_inv_def bar_init_def)

lemma bar_inv_step: "bar_step {t} s s' \<Longrightarrow> bar_inv t s \<Longrightarrow> bar_inv t s'"
proof (induction rule: bar_step.induct)
  case (switch_on s v)
  then have "v = t" by (metis bar_inv_def bar_pc.distinct)
  with switch_on show ?case by (simp add: bar_inv_def)
next
  case (poll s v)
  then have "v = t" by (metis bar_inv_def bar_pc.distinct)
  with poll show ?case by (simp add: bar_inv_def all_idle_def)
next
  case (lower_flag s v)
  then have "v = t" by (metis bar_inv_def bar_pc.distinct)
  with lower_flag show ?case by (simp add: bar_inv_def)
next
  case (last_out s v)
  then have "v = t" by (metis bar_inv_def bar_pc.distinct)
  with last_out show ?case by (simp add: bar_inv_def)
next
  case (switch_off s v)
  then have "v = t" by (metis bar_inv_def bar_pc.distinct)
  with switch_off show ?case by (simp add: bar_inv_def)
qed (auto simp: bar_inv_def)

lemma bar_inv_reach: "(bar_step {t})\<^sup>*\<^sup>* (bar_init socks) s \<Longrightarrow> bar_inv t s"
  by (induction rule: rtranclp_induct) (auto intro: bar_inv_init bar_inv_step)


text \<open>One step more on a path.\<close>

lemmas bar_path = rtranclp.rtrancl_into_rtrancl [where r = "bar_step c" for c]

definition bar_polled :: bar_state where
  "bar_polled = (bar_init {1, 2})\<lparr>bar_flag := (\<lambda>_. False)(1 := True), bar_at := (\<lambda>_. Bar_out)(1 := Bar_idle),
     global_barrier_active := True\<rparr>"

lemma bar_polled_reach: "(bar_step {1})\<^sup>*\<^sup>* (bar_init {1, 2}) bar_polled"
proof -
  let ?i = "bar_init {1, 2}"
  let ?a = "?i\<lparr>bar_flag := (bar_flag ?i)(1 := True), bar_at := (bar_at ?i)(1 := Bar_flagged)\<rparr>"
  let ?b = "?a\<lparr>global_barrier_active := True, bar_at := (bar_at ?a)(1 := Bar_polling)\<rparr>"
  let ?c = "?b\<lparr>bar_at := (bar_at ?b)(1 := Bar_idle)\<rparr>"
  have 1: "bar_step {1} ?i ?a" by (rule bar_step.raise_flag) (simp_all add: bar_init_def)
  have 2: "bar_step {1} ?a ?b" by (rule bar_step.switch_on) simp
  have 3: "bar_step {1} ?b ?c" by (rule bar_step.poll) (simp_all add: all_idle_def bar_init_def)
  have "(bar_step {1})\<^sup>*\<^sup>* ?i ?c"
    by (rule bar_path, rule bar_path, rule bar_path, rule rtranclp.rtrancl_refl) (rule 1 2 3)+
  moreover have "?c = bar_polled" by (simp add: bar_polled_def bar_init_def)
  ultimately show ?thesis by simp
qed


text \<open>
  With two callers the barrier can be lost: the one that leaves finds no flag raised, the other one
  enters and switches the barrier on, the first switches it off. The second then polls with the
  barrier off, and a shell takes new work under it.
\<close>

theorem global_barrier_race:
  "\<exists>s. (bar_step {1, 2})\<^sup>*\<^sup>* (bar_init {1, 2, 3}) s \<and> bar_at s 2 = Bar_polling
     \<and> \<not> global_barrier_active s \<and> bar_busy s 3"
proof -
  let ?i = "bar_init {1, 2, 3}"
  let ?a = "?i\<lparr>bar_flag := (bar_flag ?i)(1 := True), bar_at := (bar_at ?i)(1 := Bar_flagged)\<rparr>"
  let ?b = "?a\<lparr>global_barrier_active := True, bar_at := (bar_at ?a)(1 := Bar_polling)\<rparr>"
  let ?c = "?b\<lparr>bar_at := (bar_at ?b)(1 := Bar_idle)\<rparr>"
  let ?d = "?c\<lparr>bar_flag := (bar_flag ?c)(1 := False), bar_at := (bar_at ?c)(1 := Bar_lowered)\<rparr>"
  let ?e = "?d\<lparr>bar_at := (bar_at ?d)(1 := Bar_last)\<rparr>"
  let ?f = "?e\<lparr>bar_flag := (bar_flag ?e)(2 := True), bar_at := (bar_at ?e)(2 := Bar_flagged)\<rparr>"
  let ?g = "?f\<lparr>global_barrier_active := True, bar_at := (bar_at ?f)(2 := Bar_polling)\<rparr>"
  let ?h = "?g\<lparr>global_barrier_active := False, bar_at := (bar_at ?g)(1 := Bar_out)\<rparr>"
  let ?k = "?h\<lparr>bar_busy := (bar_busy ?h)(3 := True)\<rparr>"
  have 1: "bar_step {1, 2} ?i ?a" by (rule bar_step.raise_flag) (simp_all add: bar_init_def)
  have 2: "bar_step {1, 2} ?a ?b" by (rule bar_step.switch_on) simp
  have 3: "bar_step {1, 2} ?b ?c" by (rule bar_step.poll) (simp_all add: all_idle_def bar_init_def)
  have 4: "bar_step {1, 2} ?c ?d" by (rule bar_step.lower_flag) simp
  have 5: "bar_step {1, 2} ?d ?e" by (rule bar_step.last_out) (simp_all add: bar_init_def)
  have 6: "bar_step {1, 2} ?e ?f" by (rule bar_step.raise_flag) (simp_all add: bar_init_def)
  have 7: "bar_step {1, 2} ?f ?g" by (rule bar_step.switch_on) simp
  have 8: "bar_step {1, 2} ?g ?h" by (rule bar_step.switch_off) simp
  have 9: "bar_step {1, 2} ?h ?k" by (rule bar_step.new_work) simp
  have "(bar_step {1, 2})\<^sup>*\<^sup>* ?i ?k"
    by (rule bar_path, rule bar_path, rule bar_path, rule bar_path, rule bar_path, rule bar_path,
        rule bar_path, rule bar_path, rule bar_path, rule rtranclp.rtrancl_refl)
      (rule 1 2 3 4 5 6 7 8 9)+
  then show ?thesis by (rule exI [where x = ?k, OF conjI]) simp
qed

end
