(* ===== verification/Socket_Life.thy ===== *)
theory Socket_Life
  imports Slots Socket_Manager
begin

text \<open>
  The life of the connection objects of all ports, from the constructor to the end of the destructor (\<^verbatim>\<open>ServerSocket.cc\<close>,
  \<^verbatim>\<open>NetworkServer::listen\<close>), with the limit of \<open>Slots\<close> and the registry of \<open>Socket_Manager\<close>, as one step relation over the critical sections.
\<close>

section \<open>The constructor of the manager\<close>

text \<open>
  The limit on open files: the soft limit is raised to sixteen files per connection, or to the hard limit when that is less. \<open>rlim\<close> is
  the soft and the hard limit, absent when \<^verbatim>\<open>getrlimit\<close> fails; the first result is the value that is recommended on \<^verbatim>\<open>stderr\<close>.
\<close>

definition raise_nofile :: "nat \<Rightarrow> (nat \<times> nat) option \<Rightarrow> nat option \<times> (nat \<times> nat) option" where
  "raise_nofile max_open rlim =
     (case rlim of
        None \<Rightarrow> (None, None)
      | Some (cur, hard) \<Rightarrow>
          (let wanted = 16 * max_open
           in if cur < wanted
              then (if hard < wanted then (Some wanted, Some (hard, hard)) else (None, Some (wanted, hard)))
              else (None, rlim)))"

text \<open>
  A process whose soft limit does not exceed its hard limit keeps that, is never left with a lower limit than before, and
  has enough files for every connection unless it is warned.
\<close>

lemma raise_nofile_spec:
  assumes "raise_nofile n (Some (cur, hard)) = (warned, Some (cur', hard'))" "cur \<le> hard"
  shows "hard' = hard" "cur \<le> cur'" "cur' \<le> hard" "warned = None \<Longrightarrow> 16 * n \<le> cur'"
  using assms by (auto simp: raise_nofile_def Let_def split: if_splits)

definition set_max_open_sockets :: "nat \<Rightarrow> slots \<Rightarrow> slots" where
  "set_max_open_sockets m s = s\<lparr>max_open_sockets := m\<rparr>"

section \<open>The objects\<close>

text \<open>
  An object is under construction by the listener of its port (in \<^verbatim>\<open>wait_available_slot\<close>, or just past it), has a connection and its thread,
  is in its destructor after \<^verbatim>\<open>Exit\<close>, or after \<^verbatim>\<open>rem_sock\<close>. No object: the memory is free.
\<close>

datatype life = Building | Serving | Finishing | Unlisted

text \<open>
  Objects are known by their address, listeners by their port. \<open>lw_making\<close> is the object that a listener constructs, and \<open>lw_leaked\<close> counts the
  sockets of \<^verbatim>\<open>asio\<close> that are not deleted.
\<close>

record sock_world =
  lw_slots :: slots
  lw_list :: sock_list
  lw_gone :: bool
  lw_life :: "nat \<Rightarrow> life option"
  lw_making :: "nat \<Rightarrow> nat option"
  lw_leaked :: nat

definition first_world :: "nat \<Rightarrow> sock_world" where
  "first_world hwlim =
     \<lparr>lw_slots = init_slots hwlim, lw_list = [], lw_gone = False, lw_life = Map.empty, lw_making = Map.empty, lw_leaked = 0\<rparr>"

text \<open>
  The constructor, as far as it does not block: the slot is counted, and when there are few left the idle connections are
  pinged. What the ping throws leaves the constructor.
\<close>

definition begin_socket :: "nat \<Rightarrow> nat \<Rightarrow> int \<Rightarrow> sock_world \<Rightarrow> unit res \<times> sock_world" where
  "begin_socket p a now w =
     (case wait_available_slot a (lw_slots w) of (ping, sl) \<Rightarrow>
      case (if ping then half_ping now (lw_list w) else (Inr (), lw_list w)) of (res, l) \<Rightarrow>
        (res, w\<lparr>lw_slots := sl, lw_list := l, lw_life := (lw_life w)(a \<mapsto> Building), lw_making := (lw_making w)(p \<mapsto> a)\<rparr>))"

text \<open>The end of the constructor and \<^verbatim>\<open>set_connection\<close>; the listener starts the thread and is free again.\<close>

definition connect_socket :: "nat \<Rightarrow> nat \<Rightarrow> int \<Rightarrow> sock_world \<Rightarrow> sock_world" where
  "connect_socket p a now w =
     w\<lparr>lw_list := add_sock a (set_connection ((new_console_socket now)\<lparr>status := START\<rparr>)) (lw_list w),
       lw_life := (lw_life w)(a \<mapsto> Serving), lw_making := (lw_making w)(p := None)\<rparr>"

text \<open>The thread of a connection works on its object.\<close>

definition at_socket :: "nat \<Rightarrow> (console_socket \<Rightarrow> console_socket) \<Rightarrow> sock_list \<Rightarrow> sock_list" where
  "at_socket a f l = map (\<lambda>(q, s). (q, if q = a then f s else s)) l"

text \<open>
  The destructor in three parts: \<^verbatim>\<open>Exit\<close>, after the wait of \<^verbatim>\<open>~ConsoleSocket\<close> for the requests that still use the object; \<^verbatim>\<open>rem_sock\<close>; and \<^verbatim>\<open>release_slot\<close> with
  the deletion of the socket, which is left out when the network is gone.
\<close>

definition dtor_exit :: "nat \<Rightarrow> sock_world \<Rightarrow> sock_world" where
  "dtor_exit a w =
     w\<lparr>lw_list := at_socket a (\<lambda>s. Exit (s\<lparr>status := DTOR\<rparr>)) (lw_list w), lw_life := (lw_life w)(a \<mapsto> Finishing)\<rparr>"

definition dtor_unlist :: "nat \<Rightarrow> sock_world \<Rightarrow> sock_world" where
  "dtor_unlist a w = w\<lparr>lw_list := rem_sock a (lw_list w), lw_life := (lw_life w)(a \<mapsto> Unlisted)\<rparr>"

definition dtor_release :: "nat \<Rightarrow> sock_world \<Rightarrow> sock_world" where
  "dtor_release a w =
     w\<lparr>lw_slots := release_slot a (lw_slots w), lw_life := (lw_life w)(a := None),
       lw_leaked := (if lw_gone w then Suc (lw_leaked w) else lw_leaked w)\<rparr>"

text \<open>
  The steps, for the listeners of \<open>ports\<close>; the limit may be changed at any time, up to \<open>M\<close>. The memory of a new object is free, and a
  listener constructs one object at a time.
\<close>

inductive life_step :: "nat set \<Rightarrow> nat \<Rightarrow> sock_world \<Rightarrow> sock_world \<Rightarrow> bool" for ports M where
  accept: "p \<in> ports \<Longrightarrow> lw_making w p = None \<Longrightarrow> lw_life w a = None \<Longrightarrow> life_step ports M w (snd (begin_socket p a now w))"
| wake: "a \<in> waiting (lw_slots w) \<Longrightarrow> life_step ports M w (w\<lparr>lw_slots := recheck_slot a (lw_slots w)\<rparr>)"
| connect: "lw_making w p = Some a \<Longrightarrow> a \<in> admitted (lw_slots w) \<Longrightarrow> life_step ports M w (connect_socket p a now w)"
| serve: "lw_life w a = Some Serving \<Longrightarrow> (\<And>s. has_socket (f s) = has_socket s) \<Longrightarrow>
    life_step ports M w (w\<lparr>lw_list := at_socket a f (lw_list w)\<rparr>)"
| finish: "lw_life w a = Some Serving \<Longrightarrow> (a, s) \<in> set (lw_list w) \<Longrightarrow> console_dtor_ready s \<Longrightarrow> life_step ports M w (dtor_exit a w)"
| unlist: "lw_life w a = Some Finishing \<Longrightarrow> life_step ports M w (dtor_unlist a w)"
| release: "lw_life w a = Some Unlisted \<Longrightarrow> life_step ports M w (dtor_release a w)"
| ping: "life_step ports M w (w\<lparr>lw_list := snd (half_ping now (lw_list w))\<rparr>)"
| kill: "life_step ports M w (w\<lparr>lw_list := snd (kill t (lw_list w))\<rparr>)"
| gone: "network_gone (lw_gone w, lw_list w) = (g, l) \<Longrightarrow> life_step ports M w (w\<lparr>lw_gone := g, lw_list := l\<rparr>)"
| limit: "m \<le> M \<Longrightarrow> life_step ports M w (w\<lparr>lw_slots := set_max_open_sockets m (lw_slots w)\<rparr>)"

section \<open>The invariant\<close>

definition registered :: "sock_world \<Rightarrow> nat set" where
  "registered w = fst ` set (lw_list w)"

definition counted :: "nat \<Rightarrow> slots \<Rightarrow> bool" where
  "counted M s \<longleftrightarrow> finite (waiting s) \<and> finite (admitted s) \<and> waiting s \<inter> admitted s = {}
     \<and> num_open_sockets s = card (waiting s) + card (admitted s) \<and> card (admitted s) \<le> M \<and> max_open_sockets s \<le> M"

definition life_inv :: "nat set \<Rightarrow> nat \<Rightarrow> sock_world \<Rightarrow> bool" where
  "life_inv ports M w \<longleftrightarrow> counted M (lw_slots w) \<and> sock_list_inv (lw_list w)
     \<and> waiting (lw_slots w) \<union> admitted (lw_slots w) = dom (lw_life w)
     \<and> (\<forall>a \<in> waiting (lw_slots w). lw_life w a = Some Building)
     \<and> registered w = {a. lw_life w a = Some Serving \<or> lw_life w a = Some Finishing}
     \<and> (\<forall>(a, s) \<in> set (lw_list w). has_socket s)
     \<and> {a. lw_life w a = Some Building} = ran (lw_making w) \<and> dom (lw_making w) \<subseteq> ports
     \<and> inj_on (lw_making w) (dom (lw_making w))"

text \<open>Slots.\<close>

lemma counted_enter: "counted M s \<Longrightarrow> a \<notin> waiting s \<Longrightarrow> a \<notin> admitted s \<Longrightarrow> counted M (snd (wait_available_slot a s))"
  by (auto simp: counted_def wait_available_slot_def Let_def)

lemma counted_wake: "counted M s \<Longrightarrow> a \<in> waiting s \<Longrightarrow> counted M (recheck_slot a s)"
proof -
  assume *: "counted M s" "a \<in> waiting s"
  then have "card (waiting s - {a}) = card (waiting s) - 1" "0 < card (waiting s)" "a \<notin> admitted s"
    by (auto simp: counted_def card_gt_0_iff)
  with * show ?thesis by (auto simp: counted_def recheck_slot_def)
qed

lemma counted_leave: "counted M s \<Longrightarrow> a \<in> admitted s \<Longrightarrow> counted M (release_slot a s)"
proof -
  assume *: "counted M s" "a \<in> admitted s"
  then have "card (admitted s - {a}) = card (admitted s) - 1" "0 < card (admitted s)"
    by (auto simp: counted_def card_gt_0_iff)
  with * show ?thesis by (auto simp: counted_def release_slot_def)
qed

lemma slots_enter:
  "waiting (snd (wait_available_slot a s)) \<union> admitted (snd (wait_available_slot a s)) = insert a (waiting s \<union> admitted s)"
  "waiting (snd (wait_available_slot a s)) \<subseteq> insert a (waiting s)"
  by (auto simp: wait_available_slot_def Let_def)

lemma slots_wake:
  "a \<in> waiting s \<Longrightarrow> waiting (recheck_slot a s) \<union> admitted (recheck_slot a s) = waiting s \<union> admitted s"
  "waiting (recheck_slot a s) \<subseteq> waiting s"
  by (auto simp: recheck_slot_def)

text \<open>Operations on the registry that keep its sockets.\<close>

definition same_sockets :: "sock_list \<Rightarrow> sock_list \<Rightarrow> bool" where
  "same_sockets l l' \<longleftrightarrow> map fst l' = map fst l \<and> map (has_socket \<circ> snd) l' = map (has_socket \<circ> snd) l"

lemma same_sockets_has: "same_sockets l l' \<Longrightarrow> (\<forall>(a, s) \<in> set l'. has_socket s) = (\<forall>(a, s) \<in> set l. has_socket s)"
proof -
  have "(\<forall>(a, s) \<in> set k. has_socket s) = (\<forall>b \<in> set (map (has_socket \<circ> snd) k). b)" for k :: sock_list by auto
  then show "same_sockets l l' \<Longrightarrow> ?thesis" by (simp only: same_sockets_def)
qed

lemma same_sockets_keys: "same_sockets l l' \<Longrightarrow> fst ` set l' = fst ` set l"
  by (metis same_sockets_def set_map)

lemma same_refl [simp]: "same_sockets l l"
  by (simp add: same_sockets_def)

lemma same_map: "(\<And>a s. has_socket (f a s) = has_socket s) \<Longrightarrow> same_sockets l (map (\<lambda>(a, s). (a, f a s)) l)"
  by (induction l) (auto simp: same_sockets_def)

lemma same_at_socket: "(\<And>s. has_socket (f s) = has_socket s) \<Longrightarrow> same_sockets l (at_socket a f l)"
  unfolding at_socket_def by (rule same_map) simp

lemma has_socket_Exit [simp]: "has_socket (Exit s) = has_socket s"
  by (simp add: Exit_def)

lemma same_kill: "same_sockets l (snd (kill t l))"
  by (induction t l rule: kill.induct) (auto simp: same_sockets_def split: prod.splits)

lemma same_gone: "network_gone (g, l) = (g', l') \<Longrightarrow> same_sockets l l'"
  using same_map [of "\<lambda>a. Exit" l] by (auto simp: network_gone_def)

lemma has_socket_ping: "has_socket (snd (ping_sock now s)) = has_socket s"
  by (auto simp: ping_sock_def send_websocket_pong_def Send_def send_buffer_def)

lemma same_ping: "\<forall>(a, s) \<in> set l. has_socket s \<Longrightarrow> same_sockets l (snd (half_ping now l))"
  using same_map [of "\<lambda>a s. snd (ping_sock now s)" l] has_socket_ping by (simp add: half_ping_spec)

lemma life_inv_list:
  assumes "life_inv ports M w" "same_sockets (lw_list w) l"
  shows "life_inv ports M (w\<lparr>lw_list := l\<rparr>)"
  using assms(1) same_sockets_has [OF assms(2)] same_sockets_keys [OF assms(2)] assms(2)
  by (simp add: life_inv_def registered_def sock_list_inv_def same_sockets_def)

lemma life_invs:
  assumes "life_inv ports M w"
  shows "counted M (lw_slots w)" "sock_list_inv (lw_list w)" "waiting (lw_slots w) \<union> admitted (lw_slots w) = dom (lw_life w)"
    "\<And>a. a \<in> waiting (lw_slots w) \<Longrightarrow> lw_life w a = Some Building"
    "registered w = {a. lw_life w a = Some Serving \<or> lw_life w a = Some Finishing}"
    "\<forall>(a, s) \<in> set (lw_list w). has_socket s" "\<And>a. a \<in> ran (lw_making w) \<longleftrightarrow> lw_life w a = Some Building"
    "dom (lw_making w) \<subseteq> ports" "inj_on (lw_making w) (dom (lw_making w))"
  using assms by (auto simp: life_inv_def)

lemma admitted_life:
  "life_inv ports M w \<Longrightarrow> lw_life w a = Some x \<Longrightarrow> x \<noteq> Building \<Longrightarrow> a \<in> admitted (lw_slots w)"
  using life_invs(3) [of ports M w] life_invs(4) [of ports M w a] by auto

lemma inv_accept:
  assumes "life_inv ports M w" "p \<in> ports" "lw_making w p = None" "lw_life w a = None"
  shows "life_inv ports M (snd (begin_socket p a now w))"
proof -
  let ?sl = "snd (wait_available_slot a (lw_slots w))"
  let ?l = "if fst (wait_available_slot a (lw_slots w)) then snd (half_ping now (lw_list w)) else lw_list w"
  let ?w = "w\<lparr>lw_list := ?l\<rparr>"
  note i = life_invs [OF assms(1)]
  have e: "snd (begin_socket p a now w) =
      ?w\<lparr>lw_slots := ?sl, lw_life := (lw_life w)(a \<mapsto> Building), lw_making := (lw_making w)(p \<mapsto> a)\<rparr>"
    by (simp add: begin_socket_def split: prod.splits)
  have "life_inv ports M ?w" using assms(1) same_ping [OF i(6)] by (intro life_inv_list) simp_all
  note j = life_invs [OF this, simplified]
  have n: "a \<notin> waiting (lw_slots w)" "a \<notin> admitted (lw_slots w)" using i(3) assms(4) by auto
  have "a \<notin> ran (lw_making w)" using i(7) assms(4) by simp
  then have "inj_on ((lw_making w)(p \<mapsto> a)) (insert p (dom (lw_making w)))"
    using i(9) by (auto simp: inj_on_def ran_def dom_def)
  moreover have "ran ((lw_making w)(p \<mapsto> a)) = insert a (ran (lw_making w))" using assms(3) by (rule ran_map_upd)
  moreover have "\<And>b. b \<in> waiting ?sl \<Longrightarrow> b = a \<or> lw_life w b = Some Building"
    using slots_enter(2) i(4) by blast
  ultimately show ?thesis
    unfolding e life_inv_def using j i counted_enter [OF i(1) n] slots_enter(1) [of a "lw_slots w"] assms(2,4)
    by (auto simp: registered_def)
qed

lemma inv_connect:
  assumes "life_inv ports M w" "lw_making w p = Some a" "a \<in> admitted (lw_slots w)"
  shows "life_inv ports M (connect_socket p a now w)"
proof -
  note i = life_invs [OF assms(1)]
  have b: "lw_life w a = Some Building" using i(7) [of a] assms(2) by (auto simp: ran_def)
  then have "a \<notin> fst ` set (lw_list w)" using i(5) by (auto simp: registered_def)
  note l = set_add_sock [OF this] add_sock_inv [OF i(2)] fst_add_sock
  have "\<And>b. b \<in> waiting (lw_slots w) \<Longrightarrow> b \<noteq> a" using i(1) assms(3) by (auto simp: counted_def)
  moreover have "ran ((lw_making w)(p := None)) = ran (lw_making w) - {a}"
  proof -
    have "q \<noteq> p" if "lw_making w q = Some b" "b \<noteq> a" for q b using that assms(2) by auto
    moreover have "b \<noteq> a" if "lw_making w q = Some b" "q \<noteq> p" for q b
      using inj_onD [OF i(9), of q p] that assms(2) by auto
    ultimately show ?thesis by (auto simp: ran_def)
  qed
  moreover have "inj_on ((lw_making w)(p := None)) (dom (lw_making w) - {p})"
    using i(9) by (auto simp: inj_on_def)
  ultimately show ?thesis
    unfolding life_inv_def using i b l by (auto simp: connect_socket_def registered_def set_connection_def)
qed

lemma inv_finish:
  assumes "life_inv ports M w" "lw_life w a = Some Serving"
  shows "life_inv ports M (dtor_exit a w)"
proof -
  let ?w = "w\<lparr>lw_list := at_socket a (\<lambda>s. Exit (s\<lparr>status := DTOR\<rparr>)) (lw_list w)\<rparr>"
  have "life_inv ports M ?w" using assms(1) by (rule life_inv_list) (rule same_at_socket, simp)
  note j = life_invs [OF this, simplified]
  show ?thesis
    unfolding life_inv_def using j assms(2) by (auto simp: dtor_exit_def registered_def)
qed

lemma inv_unlist:
  assumes "life_inv ports M w" "lw_life w a = Some Finishing"
  shows "life_inv ports M (dtor_unlist a w)"
proof -
  note i = life_invs [OF assms(1)]
  have "fst ` set (rem_sock a (lw_list w)) = registered w - {a}" by (auto simp: rem_sock_def registered_def)
  then show ?thesis
    unfolding life_inv_def using i assms(2) rem_sock_inv [OF i(2), of a]
    by (auto simp: dtor_unlist_def registered_def rem_sock_def)
qed

lemma inv_release:
  assumes "life_inv ports M w" "lw_life w a = Some Unlisted"
  shows "life_inv ports M (dtor_release a w)"
proof -
  note i = life_invs [OF assms(1)]
  have a: "a \<in> admitted (lw_slots w)" using assms by (rule admitted_life) simp
  then have "a \<notin> waiting (lw_slots w)" using i(1) by (auto simp: counted_def)
  with a show ?thesis
    unfolding life_inv_def using i assms(2) counted_leave [OF i(1) a]
    by (auto simp: dtor_release_def registered_def release_slot_def)
qed

lemma inv_slots:
  assumes "life_inv ports M w" "counted M sl" "waiting sl \<union> admitted sl = waiting (lw_slots w) \<union> admitted (lw_slots w)"
    "waiting sl \<subseteq> waiting (lw_slots w)"
  shows "life_inv ports M (w\<lparr>lw_slots := sl\<rparr>)"
  using assms by (auto simp: life_inv_def registered_def)

lemma life_inv_step: "life_step ports M w w' \<Longrightarrow> life_inv ports M w \<Longrightarrow> life_inv ports M w'"
proof (induction rule: life_step.induct)
  case (wake a w)
  then show ?case
    using slots_wake [of a "lw_slots w"] counted_wake [OF life_invs(1)] by (intro inv_slots) simp_all
next
  case (limit m w)
  then show ?case
    using life_invs(1) [OF limit.prems] by (intro inv_slots) (simp_all add: set_max_open_sockets_def counted_def)
next
  case (gone w g l)
  have "life_inv ports M (w\<lparr>lw_list := l\<rparr>)" using gone.prems same_gone [OF gone.hyps] by (rule life_inv_list)
  then show ?case by (simp add: life_inv_def registered_def)
qed (simp_all add: inv_accept inv_connect inv_finish inv_unlist inv_release life_inv_list same_at_socket same_kill same_ping life_invs(6))

lemma life_inv_first: "(if hw = 0 then 32 else hw) \<le> M \<Longrightarrow> life_inv ports M (first_world hw)"
  by (simp add: life_inv_def first_world_def init_slots_def counted_def registered_def sock_list_inv_def)

lemma life_inv_reach:
  assumes "(life_step ports M)\<^sup>*\<^sup>* (first_world hw) w" "(if hw = 0 then 32 else hw) \<le> M"
  shows "life_inv ports M w"
  using assms(1) by (induction rule: rtranclp_induct) (auto intro: life_inv_first [OF assms(2)] life_inv_step)

section \<open>Results\<close>

lemma registered_admitted: "life_inv ports M w \<Longrightarrow> registered w \<subseteq> admitted (lw_slots w)"
  using life_invs(5) [of ports M w] admitted_life [of ports M w] by force

lemma registry_length: "life_inv ports M w \<Longrightarrow> length (lw_list w) \<le> card (admitted (lw_slots w))"
proof -
  assume i: "life_inv ports M w"
  have "distinct (map fst (lw_list w))"
    using life_invs(2) [OF i] by (auto simp: sock_list_inv_def strict_sorted_iff)
  then have "length (lw_list w) = card (registered w)" by (metis distinct_card length_map registered_def set_map)
  also have "\<dots> \<le> card (admitted (lw_slots w))"
    using registered_admitted [OF i] life_invs(1) [OF i] by (intro card_mono) (auto simp: counted_def)
  finally show ?thesis .
qed

text \<open>
  C11. The registry of connections, in every interleaving of the listeners, the connections that come and go, pings, kills, the end of the network
  and changes of the limit: it never holds more connections than the highest limit, each of its pointers is to an object that is not
  deleted yet and has its socket, so that pinging them all follows no null pointer, and every object that has a socket and is not yet
  in the last part of its destructor is in it.
\<close>

theorem registry_live:
  assumes "(life_step ports M)\<^sup>*\<^sup>* (first_world hw) w" "(if hw = 0 then 32 else hw) \<le> M"
  shows "length (lw_list w) \<le> M \<and> fst (half_ping now (lw_list w)) = Inr ()
    \<and> (a \<in> registered w \<longleftrightarrow> lw_life w a = Some Serving \<or> lw_life w a = Some Finishing)
    \<and> ((a, s) \<in> set (lw_list w) \<longrightarrow> has_socket s)"
proof -
  note i = life_inv_reach [OF assms]
  have "length (lw_list w) \<le> M" using registry_length [OF i] life_invs(1) [OF i] by (simp add: counted_def)
  with life_invs(5,6) [OF i] show ?thesis by (auto simp: half_ping_spec)
qed


text \<open>One port and one slot: the second connection waits until the first is gone.\<close>

definition one_open :: sock_world where
  "one_open = connect_socket 1 100 0 (snd (begin_socket 1 100 0 (first_world 1)))"

definition one_waits :: sock_world where
  "one_waits = dtor_release 100 (dtor_unlist 100 (dtor_exit 100 (snd (begin_socket 1 101 0 one_open))))"

lemmas life_ops = begin_socket_def connect_socket_def dtor_exit_def dtor_unlist_def dtor_release_def first_world_def
  at_socket_def rem_sock_def new_console_socket_def new_server_socket_def set_connection_def server_socket.extend_def
  console_dtor_ready_def ping_sock_def Exit_def

lemma reach_life: "(life_step P M)\<^sup>*\<^sup>* i w \<Longrightarrow> life_step P M w w' \<Longrightarrow> (life_step P M)\<^sup>*\<^sup>* i w'"
  by (rule rtranclp.rtrancl_into_rtrancl)

lemma one_open_reached: "(life_step {1} 1)\<^sup>*\<^sup>* (first_world 1) one_open"
  unfolding one_open_def
  by (intro reach_life [OF reach_life [OF rtranclp.rtrancl_refl life_step.accept] life_step.connect])
    (simp_all add: life_ops slot_ops)

lemma one_waits_reached: "(life_step {1} 1)\<^sup>*\<^sup>* (first_world 1) one_waits"
  unfolding one_waits_def
  by (intro reach_life [OF reach_life [OF reach_life [OF reach_life [OF one_open_reached life_step.accept] life_step.finish]
        life_step.unlist] life_step.release])
    (simp_all add: one_open_def life_ops slot_ops, simp)

theorem registry_live_witness: "length (lw_list one_open) \<le> 1 \<and> fst (half_ping 5 (lw_list one_open)) = Inr ()"
  using registry_live [OF one_open_reached] by simp


section \<open>The global barrier on the registry\<close>

text \<open>
  The parts of \<^verbatim>\<open>global_barrier\<close> that go through the registry. It looks for the socket on whose evaluation thread it runs, and asserts that there is one;
  then it raises the flag of that socket.
\<close>

definition our_socket :: "sock_list \<Rightarrow> nat option" where
  "our_socket l =
     map_option fst (find (\<lambda>(a, s). case console_shell s of None \<Rightarrow> False | Some g \<Rightarrow> sv_is_eval_thread g) l)"

definition enter_barrier :: "(sock_list, nat) act" where
  "enter_barrier l =
     (case our_socket l of
        None \<Rightarrow> (Inl Assert_fail, l)
      | Some a \<Rightarrow> (Inr a, at_socket a (\<lambda>s. s\<lparr>in_barrier := True, status := BAR\<rparr>) l))"

text \<open>One turn of the polling loop, and the end: the flag is lowered, and the barrier goes off when no other flag is up.\<close>

definition poll_shells :: "nat \<Rightarrow> sock_list \<Rightarrow> bool" where
  "poll_shells a l = list_all (\<lambda>(q, s). q = a \<or> in_barrier s \<or> \<not> busyShell s) l"

definition leave_barrier :: "nat \<Rightarrow> sock_list \<Rightarrow> sock_list" where
  "leave_barrier a l = at_socket a (\<lambda>s. s\<lparr>in_barrier := False\<rparr>) l"

definition last_out_of_barrier :: "sock_list \<Rightarrow> bool" where
  "last_out_of_barrier l = list_all (\<lambda>(q, s). \<not> in_barrier s) l"

text \<open>The state of the barrier machine that a registry shows.\<close>

definition shows_barrier :: "sock_list \<Rightarrow> bar_state \<Rightarrow> bool" where
  "shows_barrier l b \<longleftrightarrow> bar_socks b = fst ` set l
     \<and> (\<forall>(a, s) \<in> set l. bar_flag b a = in_barrier s \<and> bar_busy b a = busyShell s)"

lemma shows_pair: "shows_barrier l b \<Longrightarrow> (a, s) \<in> set l \<Longrightarrow> bar_flag b a = in_barrier s \<and> bar_busy b a = busyShell s"
  by (auto simp: shows_barrier_def)

lemma shows_socks: "shows_barrier l b \<Longrightarrow> bar_socks b = fst ` set l"
  by (simp add: shows_barrier_def)

lemma shows_poll: "shows_barrier l b \<Longrightarrow> poll_shells a l = all_idle a b"
  by (force simp: poll_shells_def all_idle_def list_all_iff shows_socks dest: shows_pair)

lemma shows_last: "shows_barrier l b \<Longrightarrow> last_out_of_barrier l = (\<forall>u \<in> bar_socks b. \<not> bar_flag b u)"
  by (force simp: last_out_of_barrier_def list_all_iff shows_socks dest: shows_pair)

lemma fst_at_socket [simp]: "fst ` set (at_socket a f l) = fst ` set l"
  by (force simp: at_socket_def image_image)

lemma at_socket_flag:
  assumes "shows_barrier l b" "\<And>s. in_barrier (f s) = v" "\<And>s. console_shell (f s) = console_shell s"
  shows "shows_barrier (at_socket a f l) (b\<lparr>bar_flag := (bar_flag b)(a := v), bar_at := pc\<rparr>)"
proof -
  let ?b = "b\<lparr>bar_flag := (bar_flag b)(a := v), bar_at := pc\<rparr>"
  have "bar_flag ?b q = in_barrier s' \<and> bar_busy ?b q = busyShell s'" if m: "(q, s') \<in> set (at_socket a f l)" for q s'
  proof -
    obtain s where s: "(q, s) \<in> set l" "s' = (if q = a then f s else s)" using m by (auto simp: at_socket_def)
    have "busyShell (f s) = busyShell s" using assms(3) by (simp add: busyShell_def)
    with shows_pair [OF assms(1) s(1)] s(2) assms(2) show ?thesis by simp
  qed
  with shows_socks [OF assms(1)] show ?thesis by (auto simp: shows_barrier_def)
qed

lemma our_socket_listed: "our_socket l = Some a \<Longrightarrow> a \<in> fst ` set l"
  by (auto simp: our_socket_def find_Some_iff intro!: image_eqI dest: nth_mem)


definition barrier_caller :: console_socket where
  "barrier_caller = (new_console_socket 0)\<lparr>console_shell := Some \<lparr>sv_name = ''scm'', sv_queued = 0, sv_eval_done = True, sv_pending = 0,
     sv_is_eval_thread = True\<rparr>\<rparr>"


end
