(* ===== verification/Std_Map.thy ===== *)
theory Std_Map
  imports Cog_Prelude "HOL-Library.List_Lexorder" "HOL-Library.Char_ord"
begin

text \<open>
  \<^verbatim>\<open>std::map<std::string, T>\<close> as the managers use it: an association list in the order of the keys, with
  the standard's \<^verbatim>\<open>insert\<close> (which keeps an existing entry), \<^verbatim>\<open>operator[]\<close> assignment, \<^verbatim>\<open>erase\<close> and \<^verbatim>\<open>find\<close>.
  The locale \<open>string_map\<close> is the contract the managers rely on; the interpretation shows that the
  association lists fulfil it.
\<close>

section \<open>The contract\<close>

locale string_map =
  fixes inv :: "'m \<Rightarrow> bool"
    and find :: "string \<Rightarrow> 'm \<Rightarrow> 'v option"
    and insert :: "string \<Rightarrow> 'v \<Rightarrow> 'm \<Rightarrow> bool \<times> 'm"
    and erase :: "string \<Rightarrow> 'm \<Rightarrow> nat \<times> 'm"
    and keys :: "'m \<Rightarrow> string list"
  assumes inv_insert: "inv m \<Longrightarrow> inv (snd (insert k v m))"
    and inv_erase: "inv m \<Longrightarrow> inv (snd (erase k m))"
    and insert_flag: "inv m \<Longrightarrow> fst (insert k v m) \<longleftrightarrow> find k m = None"
    and find_insert: "inv m \<Longrightarrow>
      find k' (snd (insert k v m)) = (if k' = k \<and> find k m = None then Some v else find k' m)"
    and erase_count: "inv m \<Longrightarrow> fst (erase k m) = (if find k m = None then 0 else 1)"
    and find_erase: "inv m \<Longrightarrow> find k' (snd (erase k m)) = (if k' = k then None else find k' m)"
    and keys_find: "inv m \<Longrightarrow> set (keys m) = {k. find k m \<noteq> None}"
    and keys_sorted: "inv m \<Longrightarrow> sorted (keys m) \<and> distinct (keys m)"
    and ext: "inv m \<Longrightarrow> inv m' \<Longrightarrow> (\<And>k. find k m = find k m') \<Longrightarrow> m = m'"
begin

text \<open>What is inserted can be taken out again, and then nothing has changed.\<close>

lemma erase_insert:
  assumes "inv m" "find k m = None"
  shows "erase k (snd (insert k v m)) = (1, m)"
proof (rule prod_eqI)
  have i: "inv (snd (insert k v m))" using assms(1) by (rule inv_insert)
  show "fst (erase k (snd (insert k v m))) = fst (1, m)"
    using erase_count [OF i] find_insert [OF assms(1)] assms(2) by simp
  show "snd (erase k (snd (insert k v m))) = snd (1, m)"
    using assms by (auto intro!: ext inv_erase i simp: find_erase [OF i] find_insert [OF assms(1)])
qed

text \<open>A second insertion under the same key is refused and changes nothing.\<close>

lemma insert_twice:
  assumes "inv m" "find k m \<noteq> None"
  shows "insert k v m = (False, m)"
proof (rule prod_eqI)
  show "fst (insert k v m) = fst (False, m)" using insert_flag [OF assms(1)] assms(2) by simp
  show "snd (insert k v m) = snd (False, m)"
    using assms by (auto intro!: ext inv_insert simp: find_insert)
qed

lemma insert_commute:
  assumes "inv m" "k \<noteq> k'" "find k m = None" "find k' m = None"
  shows "snd (insert k v (snd (insert k' v' m))) = snd (insert k' v' (snd (insert k v m)))"
  using assms by (intro ext) (auto simp: inv_insert find_insert)

end

section \<open>Association lists\<close>

type_synonym 'v smap = "(string \<times> 'v) list"

definition sm_inv :: "'v smap \<Rightarrow> bool" where
  "sm_inv m \<longleftrightarrow> sorted_wrt (<) (map fst m)"

definition sm_find :: "string \<Rightarrow> 'v smap \<Rightarrow> 'v option" where
  "sm_find k m = map_of m k"

fun sm_put :: "string \<Rightarrow> 'v \<Rightarrow> 'v smap \<Rightarrow> 'v smap" where
  "sm_put k v [] = [(k, v)]"
| "sm_put k v ((k', v') # m) =
     (if k < k' then (k, v) # (k', v') # m
      else if k = k' then (k, v) # m
      else (k', v') # sm_put k v m)"

definition sm_insert :: "string \<Rightarrow> 'v \<Rightarrow> 'v smap \<Rightarrow> bool \<times> 'v smap" where
  "sm_insert k v m = (if sm_find k m = None then (True, sm_put k v m) else (False, m))"

definition sm_erase :: "string \<Rightarrow> 'v smap \<Rightarrow> nat \<times> 'v smap" where
  "sm_erase k m = (if sm_find k m = None then (0, m) else (1, filter (\<lambda>(k', _). k' \<noteq> k) m))"

definition sm_keys :: "'v smap \<Rightarrow> string list" where
  "sm_keys m = map fst m"

lemma sm_Nil [simp]: "sm_find k [] = None" "sm_inv []"
  by (simp_all add: sm_find_def sm_inv_def)

lemma sm_put_keys: "fst ` set (sm_put k v m) = insert k (fst ` set m)"
  by (induction k v m rule: sm_put.induct) auto

lemma sm_put_inv: "sm_inv m \<Longrightarrow> sm_inv (sm_put k v m)"
proof (induction k v m rule: sm_put.induct)
  case (2 k v k' v' m)
  have "set (map fst (sm_put k v m)) = insert k (set (map fst m))"
    using sm_put_keys [of k v m] by simp
  with 2 show ?case by (fastforce simp: sm_inv_def)
qed (simp add: sm_inv_def)

lemma sm_find_put: "sm_inv m \<Longrightarrow> sm_find k' (sm_put k v m) = (if k' = k then Some v else sm_find k' m)"
  by (induction k v m rule: sm_put.induct) (auto simp: sm_find_def sm_inv_def)

lemma sm_inv_filter: "sm_inv m \<Longrightarrow> sm_inv (filter P m)"
  unfolding sm_inv_def by (induction m) auto

lemma sm_find_filter: "sm_find k' (filter (\<lambda>(k2, _). k2 \<noteq> k) m) = (if k' = k then None else sm_find k' m)"
  by (induction m) (auto simp: sm_find_def)

lemma sm_erase_snd: "snd (sm_erase k m) = filter (\<lambda>(k', _). k' \<noteq> k) m"
proof (cases "sm_find k m = None")
  case True
  then have "filter (\<lambda>(k', _). k' \<noteq> k) m = m"
    by (force simp: sm_find_def map_of_eq_None_iff filter_id_conv)
  with True show ?thesis by (simp add: sm_erase_def)
qed (auto simp: sm_erase_def)

lemma sm_ext: "sm_inv m \<Longrightarrow> sm_inv m' \<Longrightarrow> (\<And>k. sm_find k m = sm_find k m') \<Longrightarrow> m = m'"
proof -
  assume i: "sm_inv m" "sm_inv m'" and f: "\<And>k. sm_find k m = sm_find k m'"
  have d: "distinct (map fst m)" "distinct (map fst m')" "sorted (map fst m)" "sorted (map fst m')"
    using i by (auto simp: sm_inv_def strict_sorted_iff)
  have "(k, v) \<in> set m \<longleftrightarrow> (k, v) \<in> set m'" for k v
    using f [of k] map_of_eq_Some_iff [OF d(1), of k v] map_of_eq_Some_iff [OF d(2), of k v]
    by (simp add: sm_find_def)
  then have s: "set m = set m'" by auto
  have "inj_on fst (set m \<union> set m')"
    using d(1) s by (simp add: distinct_map)
  with d s show ?thesis by (intro map_sorted_distinct_set_unique [of fst m m'])
qed

interpretation sm: string_map sm_inv sm_find sm_insert sm_erase sm_keys
proof
  show "sm_inv m \<Longrightarrow> sm_inv (snd (sm_insert k v m))" for m k v
    by (simp add: sm_insert_def sm_put_inv)
  show "sm_inv m \<Longrightarrow> sm_inv (snd (sm_erase k m))" for m k
    by (simp add: sm_erase_snd sm_inv_filter)
  show "fst (sm_insert k v m) \<longleftrightarrow> sm_find k m = None" for m k v
    by (simp add: sm_insert_def)
  show "sm_inv m \<Longrightarrow> sm_find k' (snd (sm_insert k v m)) =
      (if k' = k \<and> sm_find k m = None then Some v else sm_find k' m)" for m k k' v
    by (auto simp: sm_insert_def sm_find_put)
  show "fst (sm_erase k m) = (if sm_find k m = None then 0 else 1)" for m k
    by (simp add: sm_erase_def)
  show "sm_find k' (snd (sm_erase k m)) = (if k' = k then None else sm_find k' m)" for m k k'
    by (simp add: sm_erase_snd sm_find_filter)
  show "set (sm_keys m) = {k. sm_find k m \<noteq> None}" for m
    by (auto simp: sm_keys_def sm_find_def dom_map_of_conv_image_fst [symmetric] domIff)
  show "sm_inv m \<Longrightarrow> sorted (sm_keys m) \<and> distinct (sm_keys m)" for m
    by (simp add: sm_inv_def sm_keys_def strict_sorted_iff)
qed (rule sm_ext)

end
