(* ===== verification/Generic_Shell.thy ===== *)
theory Generic_Shell
  imports WebSocket
begin

text \<open>
  \<^verbatim>\<open>GenericShell.cc\<close>: the line discipline that stands between the socket and the evaluator, the output
  path, and the three threads of a shell (receiver, evaluator, poller) as a step relation. The work
  queue (\<^verbatim>\<open>concurrent_queue\<close>, of another library) and the evaluator (\<^verbatim>\<open>GenericEval\<close>, an abstract class)
  are arguments; what the queue has to do is the predicate \<open>cq_laws\<close>.
\<close>

section \<open>What a shell is built on\<close>

text \<open>\<open>cq_pop\<close> gives \<^const>\<open>None\<close> when it would block.\<close>

record ('x, 'q) cq_ops =
  cq_push :: "'x \<Rightarrow> 'q \<Rightarrow> unit res \<times> 'q"
  cq_pop :: "'q \<Rightarrow> ('x res \<times> 'q) option"
  cq_try_pop :: "'q \<Rightarrow> 'x option \<times> 'q"
  cq_size :: "'q \<Rightarrow> nat"
  cq_cancel :: "'q \<Rightarrow> 'q"
  cq_cancel_reset :: "'q \<Rightarrow> 'q"

text \<open>
  The documented behaviour of the queue: first in, first out; cancelling makes pushes and pops throw
  and loses nothing; resetting undoes it. \<open>items\<close> and \<open>canceled\<close> read the abstract content.
\<close>

definition cq_laws :: "('x, 'q) cq_ops \<Rightarrow> ('q \<Rightarrow> 'x list) \<Rightarrow> ('q \<Rightarrow> bool) \<Rightarrow> bool" where
  "cq_laws ops items canceled \<longleftrightarrow>
     (\<forall>q x. \<not> canceled q \<longrightarrow> (\<exists>q'. cq_push ops x q = (Inr (), q') \<and> items q' = items q @ [x] \<and> \<not> canceled q'))
   \<and> (\<forall>q x. canceled q \<longrightarrow> cq_push ops x q = (Inl Canceled, q))
   \<and> (\<forall>q. canceled q \<longrightarrow> cq_pop ops q = Some (Inl Canceled, q))
   \<and> (\<forall>q. \<not> canceled q \<longrightarrow> items q = [] \<longrightarrow> cq_pop ops q = None)
   \<and> (\<forall>q x xs. \<not> canceled q \<longrightarrow> items q = x # xs \<longrightarrow>
        (\<exists>q'. cq_pop ops q = Some (Inr x, q') \<and> items q' = xs \<and> \<not> canceled q'))
   \<and> (\<forall>q. \<not> canceled q \<longrightarrow> items q = [] \<longrightarrow> cq_try_pop ops q = (None, q))
   \<and> (\<forall>q x xs. \<not> canceled q \<longrightarrow> items q = x # xs \<longrightarrow>
        (\<exists>q'. cq_try_pop ops q = (Some x, q') \<and> items q' = xs \<and> \<not> canceled q'))
   \<and> (\<forall>q. cq_size ops q = length (items q))
   \<and> (\<forall>q. items (cq_cancel ops q) = items q \<and> canceled (cq_cancel ops q))
   \<and> (\<forall>q. items (cq_cancel_reset ops q) = items q \<and> \<not> canceled (cq_cancel_reset ops q))"

text \<open>
  The evaluator's methods. \<open>ev_ready\<close> says that \<^verbatim>\<open>poll_result\<close> would return rather than block.
\<close>

record 'e eval_ops =
  ev_begin :: "'e \<Rightarrow> 'e"
  ev_eval :: "string \<Rightarrow> 'e \<Rightarrow> unit res \<times> 'e"
  ev_ready :: "'e \<Rightarrow> bool"
  ev_poll :: "'e \<Rightarrow> string \<times> 'e"
  ev_interrupt :: "'e \<Rightarrow> 'e"
  ev_clear_pending :: "'e \<Rightarrow> 'e"
  ev_input_pending :: "'e \<Rightarrow> bool"
  ev_error :: "'e \<Rightarrow> bool"
  ev_error_string :: "'e \<Rightarrow> string"

text \<open>\<open>sent\<close> collects what the shell passed to \<^verbatim>\<open>socket->Send\<close>; \<open>has_sock\<close> is \<^verbatim>\<open>socket != nullptr\<close>.\<close>

record ('q, 'e) shell =
  pending_output :: string
  evalque :: 'q
  abort_prompt :: string
  normal_prompt :: string
  pending_prompt :: string
  show_output :: bool
  show_prompt :: bool
  self_destruct :: bool
  apply_discipline :: bool
  eval_done :: bool
  evaluator :: "'e option"
  has_sock :: bool
  sent :: "string list"

definition new_shell :: "'q \<Rightarrow> ('q, 'e) shell" where
  "new_shell q =
     \<lparr>pending_output = [], evalque = q, abort_prompt = ''> '', normal_prompt = ''> '',
      pending_prompt = ''... '', show_output = True, show_prompt = True, self_destruct = False,
      apply_discipline = True, eval_done = True, evaluator = None, has_sock = False, sent = []\<rparr>"

type_synonym ('q, 'e, 'a) sh_act = "(('q, 'e) shell, 'a) act"

definition hush_output :: "bool \<Rightarrow> ('q, 'e) shell \<Rightarrow> ('q, 'e) shell" where
  "hush_output hush s = s\<lparr>show_output := \<not> hush\<rparr>"

definition hush_prompt :: "bool \<Rightarrow> ('q, 'e) shell \<Rightarrow> ('q, 'e) shell" where
  "hush_prompt hush s = s\<lparr>show_prompt := \<not> hush\<rparr>"

definition discipline :: "bool \<Rightarrow> ('q, 'e) shell \<Rightarrow> ('q, 'e) shell" where
  "discipline d s = s\<lparr>apply_discipline := d\<rparr>"

definition get_prompt :: "'e eval_ops \<Rightarrow> ('q, 'e) shell \<Rightarrow> string" where
  "get_prompt eo s =
     (if \<not> show_prompt s then []
      else case evaluator s of
             Some e \<Rightarrow> if ev_input_pending eo e then pending_prompt s else normal_prompt s
           | None \<Rightarrow> normal_prompt s)"

definition set_socket :: "('q, 'e, unit) sh_act" where
  "set_socket s = (if has_sock s then (Inl Assert_fail, s) else (Inr (), s\<lparr>has_sock := True\<rparr>))"

section \<open>Output\<close>

definition put_output :: "string \<Rightarrow> ('q, 'e) shell \<Rightarrow> ('q, 'e) shell" where
  "put_output str s = s\<lparr>pending_output := pending_output s @ str\<rparr>"

definition get_output :: "('q, 'e) shell \<Rightarrow> string \<times> ('q, 'e) shell" where
  "get_output s = (pending_output s, s\<lparr>pending_output := []\<rparr>)"

definition start_eval :: "('q, 'e, unit) sh_act" where
  "start_eval s = (if \<not> eval_done s then (Inl Assert_fail, s) else (Inr (), s\<lparr>eval_done := False\<rparr>))"

definition finish_eval :: "('q, 'e) shell \<Rightarrow> ('q, 'e) shell" where
  "finish_eval s = s\<lparr>eval_done := True\<rparr>"

text \<open>\<^verbatim>\<open>poll_output\<close>, when the evaluator does not block.\<close>

definition poll_output :: "'e eval_ops \<Rightarrow> ('q, 'e, string) sh_act" where
  "poll_output eo s =
     (case get_output s of (pend, s1) \<Rightarrow>
        if 0 < length pend then (Inr pend, s1)
        else case evaluator s1 of
          None \<Rightarrow> (Inl Null_pointer, s1)
        | Some e \<Rightarrow>
            (case ev_poll eo e of (result, e1) \<Rightarrow>
              let s2 = s1\<lparr>evaluator := Some e1\<rparr>
              in if 0 < length result
                 then (case get_output s2 of (extra, s3) \<Rightarrow> (Inr (extra @ result), s3))
                 else if eval_done s2
                 then (if ev_error eo e1
                       then (Inr (if show_output s2 then ev_error_string eo e1 else []),
                             s2\<lparr>evaluator := Some (ev_clear_pending eo e1)\<rparr>)
                       else (Inr [], s2))
                 else let s3 = finish_eval s2
                      in (Inr (if show_output s3 \<and> show_prompt s3
                               then (if ev_input_pending eo e1 then pending_prompt s3 else normal_prompt s3)
                               else []), s3)))"

definition poll_and_send :: "'e eval_ops \<Rightarrow> ('q, 'e, unit) sh_act" where
  "poll_and_send eo =
     act_bind (poll_output eo)
       (\<lambda>retstr. act_mod (\<lambda>s. if 0 < length retstr then s\<lparr>sent := sent s @ [retstr]\<rparr> else s))"

section \<open>Input\<close>

text \<open>\<^verbatim>\<open>enqueue_work\<close>, once \<^verbatim>\<open>block_on_bar\<close> has let it through; a cancelled queue is ignored.\<close>

definition enqueue_work :: "(string, 'q) cq_ops \<Rightarrow> string \<Rightarrow> ('q, 'e) shell \<Rightarrow> ('q, 'e) shell" where
  "enqueue_work qo expr s = s\<lparr>evalque := snd (cq_push qo expr (evalque s))\<rparr>"

text \<open>
  The destructor, up to the point where it waits for the evaluation thread: an empty command wakes the thread up; when the queue is cancelled,
  the exception is ignored.
\<close>

definition shell_dtor :: "(string, 'q) cq_ops \<Rightarrow> ('q, 'e) shell \<Rightarrow> ('q, 'e) shell" where
  [simp]: "shell_dtor qo s = enqueue_work qo [] (s\<lparr>self_destruct := True\<rparr>)"

text \<open>The loop that throws the queue away: one pop per element that \<^verbatim>\<open>size\<close> reports.\<close>

definition discard_queue :: "(string, 'q) cq_ops \<Rightarrow> 'q \<Rightarrow> 'q" where
  "discard_queue qo q = ((snd \<circ> cq_try_pop qo) ^^ cq_size qo q) q"

definition user_interrupt :: "(string, 'q) cq_ops \<Rightarrow> 'e eval_ops \<Rightarrow> ('q, 'e) shell \<Rightarrow> ('q, 'e) shell" where
  "user_interrupt qo eo s =
     (let s1 = s\<lparr>evalque := discard_queue qo (evalque s)\<rparr>
      in case evaluator s1 of
           None \<Rightarrow> s1
         | Some e \<Rightarrow>
             finish_eval (put_output (abort_prompt s1)
               (s1\<lparr>evaluator := Some (ev_clear_pending eo (ev_interrupt eo e))\<rparr>)))"

text \<open>Leaving the shell.\<close>

definition exit_shell :: "(string, 'q) cq_ops \<Rightarrow> ('q, 'e) shell \<Rightarrow> ('q, 'e) shell" where
  "exit_shell qo s =
     (let s1 = s\<lparr>self_destruct := True, evalque := cq_cancel qo (evalque s)\<rparr>
      in if show_prompt s1 then put_output (''Exiting the shell'' @ nl) s1 else s1)"

text \<open>\<^verbatim>\<open>expr[k]\<close>: at the end of the string there is a NUL.\<close>

definition at :: "string \<Rightarrow> nat \<Rightarrow> char" where
  "at expr k = (if k < length expr then expr ! k else CHR 0x00)"

text \<open>The first IAC among the last twenty bytes, the very last one excepted; or the end of the search.\<close>

function iac_search :: "string \<Rightarrow> nat \<Rightarrow> nat" where
  "iac_search expr m =
     (if m + 2 \<le> length expr \<and> at expr m \<noteq> CHR 0xFF then iac_search expr (Suc m) else m)"
  by pat_completeness auto
termination
  by (relation "measure (\<lambda>(expr, m). length expr - m)") auto

declare iac_search.simps [simp del]

text \<open>A reply written as a C string: it ends at the first NUL.\<close>

definition put_cstr :: "string \<Rightarrow> ('q, 'e) shell \<Rightarrow> ('q, 'e) shell" where
  "put_cstr str = put_output (c_str str)"

text \<open>
  Telnet: negotiation of an option \<open>a\<close> after \<^verbatim>\<open>IAC DO\<close>; \<open>brk\<close> is the break point, if there was one. The method
  \<^verbatim>\<open>user_interrupt\<close> is virtual: \<open>ui\<close> is the one of the shell's class.
\<close>

definition telnet_do ::
  "(string, 'q) cq_ops \<Rightarrow> (('q, 'e) shell \<Rightarrow> ('q, 'e) shell) \<Rightarrow> string \<Rightarrow> nat option \<Rightarrow> char \<Rightarrow>
   ('q, 'e) shell \<Rightarrow> ('q, 'e) shell" where
  "telnet_do qo ui expr brk a s =
     (if a = CHR 0x06
      then let s1 = put_cstr [CHR 0xFF, CHR 0xFB, CHR 0x06, CHR 0x0A] s
           in (case brk of
                 Some bp \<Rightarrow> enqueue_work qo (expr[bp := CHR 0x00]) s1
               | None \<Rightarrow> ui s1)
      else if a = CHR 0x03 then put_cstr [CHR 0xFF, CHR 0xFB, CHR 0x03] s
      else if a = CHR 0x01 then put_cstr [CHR 0xFF, CHR 0xFC, CHR 0x01, CHR 0x0A] s
      else put_cstr [CHR 0xFF, CHR 0xFC, a, CHR 0x0A] s)"

text \<open>
  The loop over telnet commands: \<^const>\<open>None\<close> when the line was dealt with, \<^const>\<open>Some\<close> when the loop
  ran through and the line goes on. The break point is kept in an \<^verbatim>\<open>unsigned char\<close>.
\<close>

function telnet_loop ::
  "(string, 'q) cq_ops \<Rightarrow> 'e eval_ops \<Rightarrow> (('q, 'e) shell \<Rightarrow> ('q, 'e) shell) \<Rightarrow> string \<Rightarrow> nat \<Rightarrow> nat option \<Rightarrow>
   ('q, 'e) shell \<Rightarrow> bool \<times> ('q, 'e) shell" where
  "telnet_loop qo eo ui expr m brk s =
     (if \<not> m + 2 \<le> length expr then (True, s)
      else if at expr m \<noteq> CHR 0xFF then (False, put_output (get_prompt eo s) s)
      else let c = of_char (at expr (m + 1)) :: nat
      in if c = 0xF4 \<or> c = 0xF5 \<or> c = 0xED
      then (False, ui (put_cstr [CHR 0xFF, CHR 0xFB, CHR 0x06, CHR 0x0A] s))
      else if c = 0xF8 \<or> c = 0xF7 \<or> c = 0xEE \<or> c = 0xF6 \<or> c = 0xF9 \<or> c = 0xF1
      then (False, put_output (get_prompt eo s) s)
      else if c = 0xEC then (False, exit_shell qo s)
      else if c = 0xF3 then telnet_loop qo eo ui expr (m + 2) (Some (m mod 256)) s
      else if c = 0xFD then (False, telnet_do qo ui expr brk (at expr (m + 2)) s)
      else if c = 0xFB
      then (False, if at expr (m + 2) = CHR 34
                   then put_cstr [CHR 0xFF, CHR 0xFE, CHR 34, CHR 0x0A] s else s)
      else telnet_loop qo eo ui expr (m + 2) brk s)"
  by pat_completeness auto
termination
  by (relation "measure (\<lambda>(qo, eo, ui, expr, m, brk, s). length expr - m)") auto

declare telnet_loop.simps [simp del]

definition line_discipline ::
  "(string, 'q) cq_ops \<Rightarrow> 'e eval_ops \<Rightarrow> (('q, 'e) shell \<Rightarrow> ('q, 'e) shell) \<Rightarrow> string \<Rightarrow> ('q, 'e, unit) sh_act" where
  "line_discipline qo eo ui expr s =
     (let len = length expr
      in if len = 0 then (Inr (), enqueue_work qo nl s)
      else case telnet_loop qo eo ui expr (iac_search expr (len - 20)) None s of
        (False, s1) \<Rightarrow> (Inr (), s1)
      | (True, s1) \<Rightarrow>
          (let c = at expr (len - 1)
           in if c = CHR 0x16 \<or> c = CHR 0x18 \<or> c = CHR 0x1B
              then (Inr (), ui s1)
              else case evaluator s1 of
                None \<Rightarrow> (Inl Null_pointer, s1)
              | Some e \<Rightarrow>
                  (if \<not> ev_input_pending eo e \<and> (c = CHR 0x04 \<or> (len = 1 \<and> at expr 0 = CHR ''.''))
                   then (Inr (), exit_shell qo s1)
                   else (Inr (), enqueue_work qo (expr @ nl) s1))))"

section \<open>Classes of shells\<close>

text \<open>
  The virtual methods that \<^verbatim>\<open>eval\<close> depends on. \<open>get_evaluator\<close> is what the evaluation thread gets the first time; a
  class that does not override the other two has those of \<^verbatim>\<open>GenericShell\<close>.
\<close>

record ('q, 'e) shell_class =
  vt_user_interrupt :: "('q, 'e) shell \<Rightarrow> ('q, 'e) shell"
  vt_line_discipline :: "string \<Rightarrow> ('q, 'e, unit) sh_act"
  vt_get_evaluator :: 'e

definition GenericShell :: "(string, 'q) cq_ops \<Rightarrow> 'e eval_ops \<Rightarrow> 'e \<Rightarrow> ('q, 'e) shell_class" where
  "GenericShell qo eo e0 =
     \<lparr>vt_user_interrupt = user_interrupt qo eo, vt_line_discipline = line_discipline qo eo (user_interrupt qo eo),
      vt_get_evaluator = e0\<rparr>"

text \<open>\<^verbatim>\<open>eval\<close>, as the receiver thread runs it. The result says that the shell has deleted itself.\<close>

definition shell_eval ::
  "(string, 'q) cq_ops \<Rightarrow> 'e eval_ops \<Rightarrow> ('q, 'e) shell_class \<Rightarrow> string \<Rightarrow> ('q, 'e, bool) sh_act" where
  "shell_eval qo eo vt expr s =
     (if self_destruct s then (Inl Assert_fail, s)
      else let s1 = (case evaluator s of
                       None \<Rightarrow> s\<lparr>evaluator := Some (ev_clear_pending eo (vt_get_evaluator vt))\<rparr> | Some _ \<Rightarrow> s)
      in case (if apply_discipline s1 then vt_line_discipline vt expr s1
               else (Inr (), enqueue_work qo expr s1)) of
           (Inl ex, s2) \<Rightarrow> (Inl ex, s2)
         | (Inr _, s2) \<Rightarrow>
             (if self_destruct s2 then (Inr True, s2\<lparr>sent := sent s2 @ [''goodbye!'' @ nl]\<rparr>)
              else (Inr False, s2)))"

text \<open>The lines that reach a shell one after the other, as long as it lives.\<close>

fun shell_session ::
  "(string, 'q) cq_ops \<Rightarrow> 'e eval_ops \<Rightarrow> ('q, 'e) shell_class \<Rightarrow> string list \<Rightarrow> ('q, 'e, bool) sh_act" where
  "shell_session qo eo vt [] s = (Inr False, s)"
| "shell_session qo eo vt (l # ls) s =
     (case shell_eval qo eo vt l s of
        (Inr False, s1) \<Rightarrow> shell_session qo eo vt ls s1
      | other \<Rightarrow> other)"

end
