(* ===== verification/Shell_Input.thy ===== *)
theory Shell_Input
  imports Generic_Shell
begin

text \<open>
  What the line discipline of \<^verbatim>\<open>GenericShell.cc\<close> does with each kind of line, and what becomes of the
  output: the sequential results about the theory \<open>Generic_Shell\<close>.
\<close>

section \<open>The queue\<close>

lemma cq_lawsD:
  assumes "cq_laws qo items canceled"
  shows "\<not> canceled q \<Longrightarrow> \<exists>q'. cq_push qo x q = (Inr (), q') \<and> items q' = items q @ [x] \<and> \<not> canceled q'"
    and "canceled q \<Longrightarrow> cq_push qo x q = (Inl Canceled, q)"
    and "canceled q \<Longrightarrow> cq_pop qo q = Some (Inl Canceled, q)"
    and "\<not> canceled q \<Longrightarrow> items q = [] \<Longrightarrow> cq_pop qo q = None"
    and "\<not> canceled q \<Longrightarrow> items q = x # xs \<Longrightarrow>
        \<exists>q'. cq_pop qo q = Some (Inr x, q') \<and> items q' = xs \<and> \<not> canceled q'"
    and "\<not> canceled q \<Longrightarrow> items q = [] \<Longrightarrow> cq_try_pop qo q = (None, q)"
    and "\<not> canceled q \<Longrightarrow> items q = x # xs \<Longrightarrow>
        \<exists>q'. cq_try_pop qo q = (Some x, q') \<and> items q' = xs \<and> \<not> canceled q'"
    and "cq_size qo q = length (items q)"
    and "items (cq_cancel qo q) = items q" and "canceled (cq_cancel qo q)"
    and "items (cq_cancel_reset qo q) = items q" and "\<not> canceled (cq_cancel_reset qo q)"
  using assms unfolding cq_laws_def by blast+

lemma try_pop_tl:
  assumes "cq_laws qo items canceled" "\<not> canceled q"
  shows "items (snd (cq_try_pop qo q)) = tl (items q) \<and> \<not> canceled (snd (cq_try_pop qo q))"
  using cq_lawsD(6,7) [OF assms] assms(2) by (cases "items q") fastforce+

lemma discard_queue_empty:
  assumes "cq_laws qo items canceled" "\<not> canceled q"
  shows "items (discard_queue qo q) = [] \<and> \<not> canceled (discard_queue qo q)"
proof -
  have "items (((snd \<circ> cq_try_pop qo) ^^ n) q) = drop n (items q) \<and> \<not> canceled (((snd \<circ> cq_try_pop qo) ^^ n) q)" for n
    by (induction n) (simp_all add: assms(2) try_pop_tl [OF assms(1)] drop_Suc tl_drop)
  then show ?thesis
    by (simp add: discard_queue_def cq_lawsD(8) [OF assms(1)])
qed

lemma enqueue_open:
  assumes "cq_laws qo items canceled" "\<not> canceled (evalque s)"
  shows "items (evalque (enqueue_work qo x s)) = items (evalque s) @ [x]"
    and "\<not> canceled (evalque (enqueue_work qo x s))"
  using cq_lawsD(1) [OF assms, of x] by (auto simp: enqueue_work_def)

lemma enqueue_canceled:
  assumes "cq_laws qo items canceled" "canceled (evalque s)"
  shows "enqueue_work qo x s = s"
  using cq_lawsD(2) [OF assms] by (simp add: enqueue_work_def)

text \<open>A list with a flag is such a queue.\<close>

definition list_cq :: "('x, 'x list \<times> bool) cq_ops" where
  "list_cq =
     \<lparr>cq_push = (\<lambda>x (xs, c). if c then (Inl Canceled, (xs, c)) else (Inr (), (xs @ [x], c))),
      cq_pop = (\<lambda>(xs, c). if c then Some (Inl Canceled, (xs, c))
                 else case xs of [] \<Rightarrow> None | x # ys \<Rightarrow> Some (Inr x, (ys, c))),
      cq_try_pop = (\<lambda>(xs, c). case xs of [] \<Rightarrow> (None, (xs, c)) | x # ys \<Rightarrow> (Some x, (ys, c))), cq_size = (\<lambda>(xs, c). length xs),
      cq_cancel = (\<lambda>(xs, c). (xs, True)), cq_cancel_reset = (\<lambda>(xs, c). (xs, False))\<rparr>"

lemma list_cq_laws: "cq_laws list_cq fst snd"
  by (auto simp: cq_laws_def list_cq_def)

section \<open>Lines\<close>

lemma iac_search_end:
  "CHR 0xFF \<notin> set (drop m expr) \<Longrightarrow> length expr < iac_search expr m + 2"
proof (induction expr m rule: iac_search.induct)
  case (1 expr m)
  show ?case
  proof (cases "m + 2 \<le> length expr")
    case True
    then have d: "drop m expr = expr ! m # drop (Suc m) expr"
      by (simp add: Cons_nth_drop_Suc)
    with 1 True show ?thesis
      by (auto simp: iac_search.simps [of expr m] at_def)
  qed (simp add: iac_search.simps [of expr m])
qed

text \<open>No telnet command starts among the last twenty bytes.\<close>

definition no_iac :: "string \<Rightarrow> bool" where
  "no_iac expr \<longleftrightarrow> CHR 0xFF \<notin> set (drop (length expr - 20) expr)"

lemma telnet_loop_none:
  "no_iac expr \<Longrightarrow> telnet_loop qo eo ui expr (iac_search expr (length expr - 20)) None s = (True, s)"
  using iac_search_end [of "length expr - 20" expr] by (simp add: telnet_loop.simps no_iac_def)

lemma at_last: "expr \<noteq> [] \<Longrightarrow> at expr (length expr - Suc 0) = last expr"
  by (simp add: at_def last_conv_nth)

lemma at_dot: "length expr = Suc 0 \<and> at expr 0 = CHR ''.'' \<longleftrightarrow> expr = ''.''"
  by (auto simp: at_def length_Suc_conv)

text \<open>
  The three kinds of line without a telnet command: one that ends in an interrupt character, one that asks to leave
  (when no input is pending), and an ordinary one.
\<close>

definition interrupt_line :: "string \<Rightarrow> bool" where
  "interrupt_line expr \<longleftrightarrow> expr \<noteq> [] \<and> no_iac expr \<and> last expr \<in> {CHR 0x16, CHR 0x18, CHR 0x1B}"

definition exit_line :: "string \<Rightarrow> bool" where
  "exit_line expr \<longleftrightarrow> no_iac expr \<and> (expr = ''.'' \<or> expr \<noteq> [] \<and> last expr = CHR 0x04)"

definition ordinary_line :: "bool \<Rightarrow> string \<Rightarrow> bool" where
  "ordinary_line pending expr \<longleftrightarrow> expr \<noteq> [] \<and> no_iac expr \<and> \<not> interrupt_line expr \<and> (pending \<or> \<not> exit_line expr)"

lemma discipline_interrupt:
  "interrupt_line expr \<Longrightarrow> line_discipline qo eo ui expr s = (Inr (), ui s)"
  by (auto simp: line_discipline_def interrupt_line_def telnet_loop_none at_last)

lemma discipline_exit:
  assumes "exit_line expr" "evaluator s = Some e" "\<not> ev_input_pending eo e"
  shows "line_discipline qo eo ui expr s = (Inr (), exit_shell qo s)"
proof -
  have "expr \<noteq> []" "last expr \<notin> {CHR 0x16, CHR 0x18, CHR 0x1B}" "no_iac expr"
    "last expr = CHR 0x04 \<or> length expr = Suc 0 \<and> at expr 0 = CHR ''.''"
    using assms(1) by (auto simp: exit_line_def at_def)
  with assms(2,3) show ?thesis
    by (simp add: line_discipline_def telnet_loop_none at_last)
qed

lemma discipline_plain:
  assumes "ordinary_line (ev_input_pending eo e) expr" "evaluator s = Some e"
  shows "line_discipline qo eo ui expr s = (Inr (), enqueue_work qo (expr @ nl) s)"
  using assms
  by (auto simp: line_discipline_def ordinary_line_def interrupt_line_def exit_line_def telnet_loop_none at_last at_dot)

lemma interrupt_open:
  assumes "cq_laws qo items canceled" "\<not> canceled (evalque s)" "evaluator s = Some e"
  shows "items (evalque (user_interrupt qo eo s)) = []" "\<not> canceled (evalque (user_interrupt qo eo s))"
    and "evaluator (user_interrupt qo eo s) = Some (ev_clear_pending eo (ev_interrupt eo e))"
    and "pending_output (user_interrupt qo eo s) = pending_output s @ abort_prompt s"
    and "eval_done (user_interrupt qo eo s)" "self_destruct (user_interrupt qo eo s) = self_destruct s"
    and "sent (user_interrupt qo eo s) = sent s"
  using assms(3) discard_queue_empty [OF assms(1,2)]
  by (simp_all add: user_interrupt_def finish_eval_def put_output_def)

lemma exit_shell_sel:
  assumes "cq_laws qo items canceled"
  shows "self_destruct (exit_shell qo s)" "canceled (evalque (exit_shell qo s))"
    and "items (evalque (exit_shell qo s)) = items (evalque s)" "sent (exit_shell qo s) = sent s"
  using cq_lawsD(9,10) [OF assms] by (simp_all add: exit_shell_def put_output_def Let_def)

lemma same_evaluator: "evaluator s = Some e \<Longrightarrow> s\<lparr>evaluator := Some e\<rparr> = s"
  by simp

section \<open>What every class of shells does with its lines\<close>

text \<open>
  The contract between \<^verbatim>\<open>GenericShell::eval\<close> and the virtual methods of a class: an ordinary line is queued once with
  its newline put back, an interrupt throws the queue away, and a line that asks to leave cancels the queue. A class
  may act on its evaluator meanwhile, as long as that leaves pending input pending.
\<close>

locale shell_family =
  fixes qo :: "(string, 'q) cq_ops" and items :: "'q \<Rightarrow> string list" and canceled :: "'q \<Rightarrow> bool"
    and eo :: "'e eval_ops" and vt :: "('q, 'e) shell_class"
  assumes laws: "cq_laws qo items canceled"
    and plain: "evaluator s = Some e \<Longrightarrow> ordinary_line (ev_input_pending eo e) expr \<Longrightarrow>
      \<exists>e'. vt_line_discipline vt expr s = (Inr (), enqueue_work qo (expr @ nl) (s\<lparr>evaluator := Some e'\<rparr>))
         \<and> ev_input_pending eo e' = ev_input_pending eo e"
    and exits: "evaluator s = Some e \<Longrightarrow> \<not> ev_input_pending eo e \<Longrightarrow> exit_line expr \<Longrightarrow>
      \<exists>e'. vt_line_discipline vt expr s = (Inr (), exit_shell qo (s\<lparr>evaluator := Some e'\<rparr>))"
    and interrupts: "evaluator s = Some e \<Longrightarrow> \<not> canceled (evalque s) \<Longrightarrow> interrupt_line expr \<Longrightarrow>
      \<exists>s'. vt_line_discipline vt expr s = (Inr (), s') \<and> items (evalque s') = [] \<and> sent s' = sent s
         \<and> pending_output s' = pending_output s @ abort_prompt s \<and> eval_done s'"
begin

lemma eval_plain:
  assumes "evaluator s = Some e" "ordinary_line (ev_input_pending eo e) expr"
    and "\<not> self_destruct s" "apply_discipline s" "\<not> canceled (evalque s)"
  obtains s' e' where "shell_eval qo eo vt expr s = (Inr False, s')" "items (evalque s') = items (evalque s) @ [expr @ nl]"
    and "\<not> self_destruct s'" "apply_discipline s'" "\<not> canceled (evalque s')" "sent s' = sent s"
    and "evaluator s' = Some e'" "ev_input_pending eo e' = ev_input_pending eo e"
proof -
  obtain e' where e': "vt_line_discipline vt expr s = (Inr (), enqueue_work qo (expr @ nl) (s\<lparr>evaluator := Some e'\<rparr>))"
    "ev_input_pending eo e' = ev_input_pending eo e"
    using plain [OF assms(1,2)] by blast
  let ?s = "enqueue_work qo (expr @ nl) (s\<lparr>evaluator := Some e'\<rparr>)"
  have "\<not> self_destruct ?s" "apply_discipline ?s" "sent ?s = sent s" "evaluator ?s = Some e'"
    using assms(3,4) by (simp_all add: enqueue_work_def)
  moreover have "items (evalque ?s) = items (evalque s) @ [expr @ nl]" "\<not> canceled (evalque ?s)"
    using enqueue_open [OF laws, of "s\<lparr>evaluator := Some e'\<rparr>"] assms(5) by simp_all
  ultimately show thesis
    using e' assms(1,3,4) by (intro that [of ?s e']) (simp_all add: shell_eval_def)
qed

lemma session_queues:
  assumes "evaluator s = Some e" "list_all (ordinary_line (ev_input_pending eo e)) ls"
    and "\<not> self_destruct s" "apply_discipline s" "\<not> canceled (evalque s)"
  shows "\<exists>s' e'. shell_session qo eo vt (ls @ rest) s = shell_session qo eo vt rest s'
     \<and> items (evalque s') = items (evalque s) @ map (\<lambda>l. l @ nl) ls \<and> \<not> self_destruct s' \<and> apply_discipline s'
     \<and> \<not> canceled (evalque s') \<and> sent s' = sent s
     \<and> evaluator s' = Some e' \<and> ev_input_pending eo e' = ev_input_pending eo e"
  using assms
proof (induction ls arbitrary: s e)
  case (Cons l ls)
  from Cons.prems obtain s1 e1 where s1: "shell_eval qo eo vt l s = (Inr False, s1)"
    "items (evalque s1) = items (evalque s) @ [l @ nl]" "\<not> self_destruct s1" "apply_discipline s1"
    "\<not> canceled (evalque s1)" "sent s1 = sent s" "evaluator s1 = Some e1"
    "ev_input_pending eo e1 = ev_input_pending eo e"
    by (auto elim: eval_plain)
  with Cons.IH [OF s1(7)] Cons.prems(2) show ?case by simp
qed auto

lemma session_leaves:
  assumes "evaluator s = Some e" "list_all (ordinary_line False) ls" "\<not> ev_input_pending eo e" "exit_line x"
    and "\<not> self_destruct s" "apply_discipline s" "\<not> canceled (evalque s)"
  shows "\<exists>s'. shell_session qo eo vt (ls @ x # rest) s = (Inr True, s') \<and> self_destruct s' \<and> canceled (evalque s')
     \<and> items (evalque s') = items (evalque s) @ map (\<lambda>l. l @ nl) ls \<and> sent s' = sent s @ [''goodbye!'' @ nl]"
proof -
  obtain s1 e1 where s1: "shell_session qo eo vt (ls @ x # rest) s = shell_session qo eo vt (x # rest) s1"
    "items (evalque s1) = items (evalque s) @ map (\<lambda>l. l @ nl) ls" "\<not> self_destruct s1" "apply_discipline s1"
    "sent s1 = sent s" "evaluator s1 = Some e1" "\<not> ev_input_pending eo e1"
    using session_queues [OF assms(1), of ls "x # rest"] assms(2-7) by auto
  then obtain e2 where "vt_line_discipline vt x s1 = (Inr (), exit_shell qo (s1\<lparr>evaluator := Some e2\<rparr>))"
    using exits [OF s1(6,7) assms(4)] by blast
  with s1 exit_shell_sel [OF laws, of "s1\<lparr>evaluator := Some e2\<rparr>"] show ?thesis
    by (simp add: shell_eval_def)
qed

end

text \<open>A class that overrides nothing but \<^verbatim>\<open>get_evaluator\<close>, over any queue.\<close>

locale work_queue =
  fixes qo :: "(string, 'q) cq_ops" and items :: "'q \<Rightarrow> string list" and canceled :: "'q \<Rightarrow> bool"
  assumes laws: "cq_laws qo items canceled"

lemma GenericShell_sel [simp]:
  "vt_line_discipline (GenericShell qo eo e0) = line_discipline qo eo (user_interrupt qo eo)"
  "vt_user_interrupt (GenericShell qo eo e0) = user_interrupt qo eo" "vt_get_evaluator (GenericShell qo eo e0) = e0"
  by (simp_all add: GenericShell_def)

sublocale work_queue \<subseteq> generic: shell_family qo items canceled eo "GenericShell qo eo e0"
  for eo :: "'e eval_ops" and e0
proof
  show "cq_laws qo items canceled" by (rule laws)
next
  fix s :: "('q, 'e) shell" and e expr assume "evaluator s = Some e" "ordinary_line (ev_input_pending eo e) expr"
  then show "\<exists>e'. vt_line_discipline (GenericShell qo eo e0) expr s = (Inr (), enqueue_work qo (expr @ nl) (s\<lparr>evaluator := Some e'\<rparr>))
     \<and> ev_input_pending eo e' = ev_input_pending eo e"
    by (intro exI [of _ e]) (simp add: discipline_plain same_evaluator)
next
  fix s :: "('q, 'e) shell" and e expr assume "evaluator s = Some e" "\<not> ev_input_pending eo e" "exit_line expr"
  then show "\<exists>e'. vt_line_discipline (GenericShell qo eo e0) expr s = (Inr (), exit_shell qo (s\<lparr>evaluator := Some e'\<rparr>))"
    by (intro exI [of _ e]) (simp add: discipline_exit same_evaluator)
next
  fix s :: "('q, 'e) shell" and e expr assume "evaluator s = Some e" "\<not> canceled (evalque s)" "interrupt_line expr"
  then show "\<exists>s'. vt_line_discipline (GenericShell qo eo e0) expr s = (Inr (), s') \<and> items (evalque s') = []
     \<and> sent s' = sent s \<and> pending_output s' = pending_output s @ abort_prompt s \<and> eval_done s'"
    using interrupt_open [OF laws, of s e eo] by (simp add: discipline_interrupt)
qed

context work_queue
begin

lemmas generic_leaves = generic.session_leaves

end

interpretation list_queue: work_queue list_cq fst snd
  by unfold_locales (rule list_cq_laws)

text \<open>An evaluator that does nothing, to try the results on.\<close>

definition null_eval :: "unit eval_ops" where
  "null_eval =
     \<lparr>ev_begin = (\<lambda>e. e), ev_eval = (\<lambda>x e. (Inr (), e)), ev_ready = (\<lambda>e. True), ev_poll = (\<lambda>e. ([], e)),
      ev_interrupt = (\<lambda>e. e), ev_clear_pending = (\<lambda>e. e), ev_input_pending = (\<lambda>e. False),
      ev_error = (\<lambda>e. False), ev_error_string = (\<lambda>e. [])\<rparr>"

abbreviation shell0 :: "(string list \<times> bool, unit) shell" where
  "shell0 \<equiv> (new_shell (['' old ''], False))\<lparr>evaluator := Some ()\<rparr>"

text \<open>
  C29. A session with a shell of a class that overrides nothing (scheme, JSON, s-expressions, MCP): every ordinary line
  is queued once, with its newline, in the order in which the lines came, and nothing is sent; the line that asks to
  leave cancels the queue and keeps what is in it, the shell says goodbye and deletes itself, and whatever comes after
  that line does not reach it.
\<close>

theorem session_queued_until_exit:
  assumes "cq_laws qo items canceled" "\<not> canceled (evalque s)" "evaluator s = Some e" "\<not> self_destruct s" "apply_discipline s"
    and "list_all (ordinary_line False) ls" "\<not> ev_input_pending eo e" "exit_line x"
  shows "\<exists>s'. shell_session qo eo (GenericShell qo eo e0) (ls @ x # rest) s = (Inr True, s') \<and> self_destruct s'
     \<and> canceled (evalque s') \<and> items (evalque s') = items (evalque s) @ map (\<lambda>l. l @ nl) ls
     \<and> sent s' = sent s @ [''goodbye!'' @ nl]"
  by (rule work_queue.generic_leaves [OF work_queue.intro [OF assms(1)] assms(3,6-8,4,5,2)])

theorem session_queued_until_exit_witness:
  "\<exists>s'. shell_session list_cq null_eval (GenericShell list_cq null_eval ()) ([''(list)'', ''(+ 1 2)''] @ ''.'' # [''late'']) shell0 =
       (Inr True, s') \<and> self_destruct s' \<and> snd (evalque s')
     \<and> fst (evalque s') = fst (evalque shell0) @ map (\<lambda>l. l @ nl) [''(list)'', ''(+ 1 2)'']
     \<and> sent s' = sent shell0 @ [''goodbye!'' @ nl]"
  by (rule session_queued_until_exit [OF list_cq_laws, where e = "()"])
    (simp_all add: new_shell_def null_eval_def ordinary_line_def exit_line_def interrupt_line_def no_iac_def)

text \<open>
  A line that ends in an interrupt character throws away all queued work, interrupts the evaluator
  and clears its input, shows the abort prompt, and marks the evaluation as done; the line itself is
  not evaluated.
\<close>

theorem line_discipline_interrupt:
  assumes "cq_laws qo items canceled" "\<not> canceled (evalque s)" "evaluator s = Some e" "interrupt_line expr"
  shows "\<exists>s'. line_discipline qo eo (user_interrupt qo eo) expr s = (Inr (), s') \<and> items (evalque s') = []
     \<and> evaluator s' = Some (ev_clear_pending eo (ev_interrupt eo e))
     \<and> pending_output s' = pending_output s @ abort_prompt s \<and> eval_done s'"
  using interrupt_open [OF assms(1-3)] by (simp add: discipline_interrupt [OF assms(4)])

theorem line_discipline_interrupt_witness:
  "\<exists>s'. line_discipline list_cq null_eval (user_interrupt list_cq null_eval) [CHR ''x'', CHR 0x18] shell0 = (Inr (), s')
     \<and> fst (evalque s') = [] \<and> evaluator s' = Some (ev_clear_pending null_eval (ev_interrupt null_eval ()))
     \<and> pending_output s' = pending_output shell0 @ abort_prompt shell0 \<and> eval_done s'"
  by (rule line_discipline_interrupt [OF list_cq_laws]) (simp_all add: new_shell_def interrupt_line_def no_iac_def)

section \<open>The break point\<close>

text \<open>
  The position of a telnet break is kept in an 8-bit variable. On a line where the break stands at
  position 256 or later, the NUL that is meant to cut the garbled end off is written at the position
  modulo 256, into the text that was good.
\<close>

theorem break_point_truncated:
  assumes "256 \<le> length t" "CHR 0xFF \<notin> set t"
  shows "line_discipline qo eo ui (t @ [CHR 0xFF, CHR 0xF3, CHR 0xFF, CHR 0xFD, CHR 0x06]) s =
    (Inr (), enqueue_work qo ((t @ [CHR 0xFF, CHR 0xF3, CHR 0xFF, CHR 0xFD, CHR 0x06])[length t mod 256 := CHR 0x00])
       (put_output [CHR 0xFF, CHR 0xFB, CHR 0x06, CHR 0x0A] s))"
proof -
  let ?x = "t @ [CHR 0xFF, CHR 0xF3, CHR 0xFF, CHR 0xFD, CHR 0x06]"
  have srch: "iac_search ?x m = length t" if "m \<le> length t" for m
    using that
  proof (induction "length t - m" arbitrary: m)
    case 0
    then have "m = length t" by simp
    then show ?case by (simp add: iac_search.simps [of ?x "length t"] at_def)
  next
    case (Suc k)
    then have "m < length t" by simp
    then have "?x ! m \<noteq> CHR 0xFF"
      using assms(2) by (metis nth_append nth_mem)
    with Suc show ?case by (simp add: iac_search.simps [of ?x m] at_def)
  qed
  have "telnet_loop qo eo ui ?x (length t) None s = (False, enqueue_work qo (?x[length t mod 256 := CHR 0x00])
       (put_output [CHR 0xFF, CHR 0xFB, CHR 0x06, CHR 0x0A] s))"
    by (simp add: telnet_loop.simps [of qo eo ui ?x] at_def nth_append telnet_do_def put_cstr_def c_str_def)
  with srch [of "length ?x - 20"] show ?thesis
    by (simp add: line_discipline_def)
qed

theorem break_point_truncated_witness:
  "line_discipline list_cq null_eval id (replicate 300 CHR ''a'' @ [CHR 0xFF, CHR 0xF3, CHR 0xFF, CHR 0xFD, CHR 0x06]) shell0 =
    (Inr (), enqueue_work list_cq
       ((replicate 300 CHR ''a'' @ [CHR 0xFF, CHR 0xF3, CHR 0xFF, CHR 0xFD, CHR 0x06])[300 mod 256 := CHR 0x00])
       (put_output [CHR 0xFF, CHR 0xFB, CHR 0x06, CHR 0x0A] shell0))"
  using break_point_truncated [of "replicate 300 CHR ''a''" list_cq null_eval id shell0]
  by (simp only: length_replicate set_replicate_conv_if) simp

end
