(* ===== verification/Requests.thy ===== *)
theory Requests
  imports Std_Map Shell_Input
begin

text \<open>
  The command system: \<^verbatim>\<open>RequestClassInfo.h\<close>, \<^verbatim>\<open>Factory.h\<close>, \<^verbatim>\<open>Request.cc\<close>, the macro
  \<^verbatim>\<open>DECLARE_CMD_REQUEST\<close> of \<^verbatim>\<open>Request.h\<close>, and \<^verbatim>\<open>RequestManager.cc\<close>. The queue of requests is a
  \<^verbatim>\<open>concurrent_queue\<close>, so its operations are an argument, as in the shells.
\<close>

section \<open>Requests\<close>

record RequestClassInfo =
  rci_id :: string
  description :: string
  rci_help :: string
  is_shell :: bool
  hidden :: bool

definition emptyClassInfo :: RequestClassInfo where
  "emptyClassInfo = \<lparr>rci_id = [], description = [], rci_help = [], is_shell = False, hidden = False\<rparr>"

text \<open>
  A factory is the metadata of its request class; a request is an object of that class with a
  console (by its address) and parameters. What differs between request classes is \<^verbatim>\<open>execute\<close>, an argument
  of the operations below.
\<close>

record request =
  rq_info :: RequestClassInfo
  rq_console :: "nat option"
  parameters :: "string list"

definition factory_create :: "RequestClassInfo \<Rightarrow> request" where
  "factory_create f = \<lparr>rq_info = f, rq_console = None, parameters = []\<rparr>"

text \<open>
  What requests do to consoles: the use count, the shell, the prompt, what was given to \<^verbatim>\<open>Send\<close>, and whether \<^verbatim>\<open>Exit\<close> has
  closed the socket. Consoles live at addresses.
\<close>

record req_console =
  rc_use_count :: nat
  rc_has_shell :: bool
  rc_is_server_console :: bool
  rc_prompt :: string
  rc_sent :: "string list"
  rc_open :: bool

type_synonym consoles = "nat \<Rightarrow> req_console"

definition con_get :: "nat \<Rightarrow> consoles \<Rightarrow> consoles" where
  "con_get a cs = cs(a := (cs a)\<lparr>rc_use_count := Suc (rc_use_count (cs a))\<rparr>)"

definition con_put :: "nat \<Rightarrow> consoles \<Rightarrow> consoles" where
  "con_put a cs = cs(a := (cs a)\<lparr>rc_use_count := rc_use_count (cs a) - 1\<rparr>)"

definition con_send :: "nat \<Rightarrow> string \<Rightarrow> consoles \<Rightarrow> consoles" where
  "con_send a msg cs = cs(a := (cs a)\<lparr>rc_sent := rc_sent (cs a) @ [msg]\<rparr>)"

definition con_exit :: "nat \<Rightarrow> consoles \<Rightarrow> consoles" where
  "con_exit a cs = cs(a := (cs a)\<lparr>rc_open := False\<rparr>)"

text \<open>\<^verbatim>\<open>Request::set_console\<close>: a null argument gives the console back; setting it twice is an error.\<close>

definition set_console :: "nat option \<Rightarrow> request \<times> consoles \<Rightarrow> unit res \<times> request \<times> consoles" where
  "set_console con rc =
     (case rc of (r, cs) \<Rightarrow>
      (case con of
         None \<Rightarrow>
           (case rq_console r of
              None \<Rightarrow> (Inl Null_pointer, r, cs)
            | Some a \<Rightarrow> (Inr (), r\<lparr>rq_console := None\<rparr>, con_put a cs))
       | Some a \<Rightarrow>
           (case rq_console r of
              Some _ \<Rightarrow> (Inl Assert_fail, r, cs)
            | None \<Rightarrow> (Inr (), r\<lparr>rq_console := Some a\<rparr>, con_get a cs))))"

definition req_send :: "string \<Rightarrow> request \<Rightarrow> consoles \<Rightarrow> consoles" where
  "req_send msg r cs = (case rq_console r of None \<Rightarrow> cs | Some a \<Rightarrow> con_send a msg cs)"

definition setParameters :: "string list \<Rightarrow> request \<Rightarrow> request" where
  "setParameters ps r = r\<lparr>parameters := ps\<rparr>"

definition addParameter :: "string \<Rightarrow> request \<Rightarrow> request" where
  "addParameter p r = r\<lparr>parameters := parameters r @ [p]\<rparr>"

text \<open>The destructor: a prompt for a telnet user without a shell, and the console is given back.\<close>

definition request_dtor :: "request \<Rightarrow> consoles \<Rightarrow> consoles" where
  "request_dtor r cs =
     (case rq_console r of
        None \<Rightarrow> cs
      | Some a \<Rightarrow>
          con_put a
            (if \<not> rc_has_shell (cs a) \<and> rc_is_server_console (cs a) \<and> 0 < length (rc_prompt (cs a))
             then con_send a (rc_prompt (cs a)) cs else cs))"

text \<open>
  \<^verbatim>\<open>execute\<close> as \<^verbatim>\<open>DECLARE_CMD_REQUEST\<close> generates it: run the method of the \<open>module\<close> and send what it returns. The method
  may change the request (the exit command gives its console back) and the consoles.
\<close>

type_synonym do_cmd = "request \<times> consoles \<Rightarrow> string res \<times> request \<times> consoles"

definition cmd_execute :: "nat option \<Rightarrow> do_cmd \<Rightarrow> request \<times> consoles \<Rightarrow> unit res \<times> request \<times> consoles" where
  "cmd_execute module m rc =
     (case module of
        None \<Rightarrow> (Inl Null_pointer, rc)
      | Some _ \<Rightarrow>
          (case m rc of
             (Inl e, rc') \<Rightarrow> (Inl e, rc')
           | (Inr rs, r, cs) \<Rightarrow> (Inr (), r, req_send rs r cs)))"

section \<open>The manager\<close>

record 'q request_manager =
  factories :: "RequestClassInfo smap"
  requestQueue :: 'q
  rm_consoles :: consoles

definition registerRequest ::
  "string \<Rightarrow> RequestClassInfo \<Rightarrow> 'q request_manager \<Rightarrow> bool \<times> 'q request_manager" where
  "registerRequest name f m =
     (case sm_insert name f (factories m) of (ok, fs) \<Rightarrow> (ok, m\<lparr>factories := fs\<rparr>))"

definition unregisterRequest :: "string \<Rightarrow> 'q request_manager \<Rightarrow> bool \<times> 'q request_manager" where
  "unregisterRequest name m =
     (case sm_erase name (factories m) of (n, fs) \<Rightarrow> (n = 1, m\<lparr>factories := fs\<rparr>))"

definition createRequest :: "string \<Rightarrow> 'q request_manager \<Rightarrow> request option" where
  "createRequest name m = map_option factory_create (sm_find name (factories m))"

definition requestInfo :: "string \<Rightarrow> 'q request_manager \<Rightarrow> RequestClassInfo" where
  "requestInfo name m = (case sm_find name (factories m) of None \<Rightarrow> emptyClassInfo | Some f \<Rightarrow> f)"

definition requestIds :: "'q request_manager \<Rightarrow> string list" where
  "requestIds m = map c_str (sm_keys (factories m))"

text \<open>A canceled queue throws on \<^verbatim>\<open>push\<close> and on \<^verbatim>\<open>pop\<close>; neither method catches that.\<close>

definition pushRequest ::
  "(request, 'q) cq_ops \<Rightarrow> request \<Rightarrow> ('q, 'a) request_manager_scheme \<Rightarrow> unit res \<times> ('q, 'a) request_manager_scheme" where
  "pushRequest qo r m = (case cq_push qo r (requestQueue m) of (res, q) \<Rightarrow> (res, m\<lparr>requestQueue := q\<rparr>))"

definition getRequestQueueSize :: "(request, 'q) cq_ops \<Rightarrow> ('q, 'a) request_manager_scheme \<Rightarrow> nat" where
  "getRequestQueueSize qo m = cq_size qo (requestQueue m)"

text \<open>
  Executing a request and deleting it; \<open>exec\<close> is the virtual \<^verbatim>\<open>execute\<close>.
\<close>

definition run_request ::
  "(request \<Rightarrow> request \<times> consoles \<Rightarrow> request \<times> consoles) \<Rightarrow> request \<Rightarrow> consoles \<Rightarrow> consoles" where
  "run_request exec r cs = (case exec r (r, cs) of (r', cs') \<Rightarrow> request_dtor r' cs')"

text \<open>
  \<^verbatim>\<open>processRequests\<close>: it runs under a mutex until the queue is empty. \<^const>\<open>None\<close> means that it does not
  return: it blocks in the pop, or goes on for ever. On a canceled queue the pop throws.
\<close>

partial_function (option) processRequests ::
  "(request, 'q) cq_ops \<Rightarrow> (request \<Rightarrow> request \<times> consoles \<Rightarrow> request \<times> consoles) \<Rightarrow>
   'q request_manager \<Rightarrow> (unit res \<times> 'q request_manager) option" where
  "processRequests qo exec m =
     (if 0 < getRequestQueueSize qo m
      then case cq_pop qo (requestQueue m) of
             Some (Inr r, q) \<Rightarrow>
               processRequests qo exec
                 (m\<lparr>requestQueue := q, rm_consoles := run_request exec r (rm_consoles m)\<rparr>)
           | Some (Inl e, q) \<Rightarrow> Some (Inl e, m\<lparr>requestQueue := q\<rparr>)
           | None \<Rightarrow> None
      else Some (Inr (), m))"

declare processRequests.simps [code]

section \<open>Properties\<close>

text \<open>
  The registry: a command that is registered under a free name can be created, under that name and
  with its own metadata; registering the name again is refused and changes nothing; unregistering
  brings back the manager as it was before.
\<close>

theorem register_unregister:
  assumes "sm_inv (factories m)" "createRequest name m = None"
  shows "fst (registerRequest name f m)
    \<and> createRequest name (snd (registerRequest name f m)) = Some (factory_create f)
    \<and> registerRequest name g (snd (registerRequest name f m)) = (False, snd (registerRequest name f m))
    \<and> unregisterRequest name (snd (registerRequest name f m)) = (True, m)"
proof (intro conjI)
  let ?m1 = "snd (registerRequest name f m)"
  have n: "sm_find name (factories m) = None" using assms(2) by (simp add: createRequest_def)
  have f1: "factories ?m1 = snd (sm_insert name f (factories m))"
    by (simp add: registerRequest_def split: prod.splits)
  have m1: "?m1 = m\<lparr>factories := snd (sm_insert name f (factories m))\<rparr>"
    by (simp add: registerRequest_def split: prod.splits)
  have fd: "sm_find name (factories ?m1) = Some f"
    unfolding f1 using sm.find_insert [OF assms(1)] n by simp
  show "fst (registerRequest name f m)"
    using sm.insert_flag [OF assms(1), of name f] n by (auto simp: registerRequest_def split: prod.splits)
  show "createRequest name ?m1 = Some (factory_create f)" using fd by (simp add: createRequest_def)
  have i1: "sm_inv (factories ?m1)" unfolding f1 using assms(1) by (rule sm.inv_insert)
  show "registerRequest name g ?m1 = (False, ?m1)"
    unfolding registerRequest_def [of name g] using sm.insert_twice [OF i1] fd by simp
  show "unregisterRequest name ?m1 = (True, m)"
    unfolding unregisterRequest_def f1 sm.erase_insert [OF assms(1) n] by (simp add: m1)
qed

definition help_info :: RequestClassInfo where
  "help_info = emptyClassInfo\<lparr>rci_id := ''help''\<rparr>"

definition idle_console :: req_console where
  "idle_console = \<lparr>rc_use_count = 0, rc_has_shell = False, rc_is_server_console = True,
     rc_prompt = ''> '', rc_sent = [], rc_open = True\<rparr>"

theorem register_unregister_witness:
  "fst (registerRequest ''h'' help_info \<lparr>factories = [(''exit'', emptyClassInfo)], requestQueue = (), rm_consoles = (\<lambda>_. idle_console)\<rparr>)"
  using register_unregister [of "\<lparr>factories = [(''exit'', emptyClassInfo)], requestQueue = (), rm_consoles = (\<lambda>_. idle_console)\<rparr>"
      "''h''" help_info help_info]
  by (simp add: sm_inv_def createRequest_def sm_find_def)

text \<open>
  \<^verbatim>\<open>processRequests\<close> returns, with an empty queue, after it has executed and deleted the queued
  requests one by one in the order in which they were pushed.
\<close>

theorem processRequests_fifo:
  assumes "cq_laws qo items canceled" "\<not> canceled (requestQueue m)"
  shows "\<exists>q. processRequests qo exec m =
      Some (Inr (), m\<lparr>requestQueue := q, rm_consoles := fold (run_request exec) (items (requestQueue m)) (rm_consoles m)\<rparr>)
    \<and> items q = []"
  using assms(2)
proof (induction "items (requestQueue m)" arbitrary: m)
  case Nil
  then have "processRequests qo exec m = Some (Inr (), m)"
    by (simp add: processRequests.simps getRequestQueueSize_def cq_lawsD(8) [OF assms(1)])
  with Nil show ?case by (intro exI [of _ "requestQueue m"]) simp
next
  case (Cons r rs)
  obtain q where q: "cq_pop qo (requestQueue m) = Some (Inr r, q)" "items q = rs" "\<not> canceled q"
    using cq_lawsD(5) [OF assms(1) Cons.prems Cons.hyps(2) [symmetric]] by blast
  let ?m = "m\<lparr>requestQueue := q, rm_consoles := run_request exec r (rm_consoles m)\<rparr>"
  have "processRequests qo exec m = processRequests qo exec ?m"
    using q(1) Cons.hyps(2) [symmetric]
    by (subst processRequests.simps) (simp add: getRequestQueueSize_def cq_lawsD(8) [OF assms(1)])
  moreover obtain q' where "processRequests qo exec ?m =
      Some (Inr (), ?m\<lparr>requestQueue := q', rm_consoles := fold (run_request exec) (items (requestQueue ?m)) (rm_consoles ?m)\<rparr>)"
    "items q' = []"
    using Cons.hyps(1) [of ?m] q by auto
  ultimately show ?case
    using q(2) Cons.hyps(2) [symmetric] by auto
qed

theorem processRequests_fifo_witness:
  "\<exists>q. processRequests list_cq (\<lambda>_ rc. rc)
      \<lparr>factories = [], requestQueue = ([factory_create help_info], False), rm_consoles = (\<lambda>_. idle_console)\<rparr> =
      Some (Inr (), \<lparr>factories = [], requestQueue = q,
            rm_consoles = fold (run_request (\<lambda>_ rc. rc)) [factory_create help_info] (\<lambda>_. idle_console)\<rparr>)
    \<and> fst q = []"
  using processRequests_fifo [OF list_cq_laws, of "\<lparr>factories = [],
      requestQueue = ([factory_create help_info], False), rm_consoles = (\<lambda>_. idle_console)\<rparr>" "\<lambda>_ rc. rc"]
  by simp

text \<open>
  The use count of a console is balanced: what \<^verbatim>\<open>set_console\<close> takes is given back once, by the request's
  destructor or, when the command gives the console back itself, by \<^verbatim>\<open>set_console\<close> with a null pointer.
\<close>

theorem request_use_count_balanced:
  assumes "rq_console r = None" "set_console (Some a) (r, cs) = (Inr (), r1, cs1)"
    and "exec r1 (r1, cs1) = (r2, cs2)"
    and "rq_console r2 = Some a \<and> rc_use_count (cs2 a) = rc_use_count (cs1 a)
       \<or> rq_console r2 = None \<and> rc_use_count (cs2 a) = rc_use_count (cs1 a) - 1"
  shows "rc_use_count (run_request exec r1 cs1 a) = rc_use_count (cs a)"
  using assms
  by (auto simp: set_console_def run_request_def request_dtor_def con_put_def con_get_def con_send_def)

theorem request_use_count_balanced_witness:
  "rc_use_count (run_request (\<lambda>_ rc. rc) ((factory_create help_info)\<lparr>rq_console := Some 5\<rparr>)
     (con_get 5 (\<lambda>_. \<lparr>rc_use_count = 0, rc_has_shell = False, rc_is_server_console = True,
        rc_prompt = ''> '', rc_sent = [], rc_open = True\<rparr>)) 5) = 0"
  using request_use_count_balanced [of "factory_create help_info" 5 "\<lambda>_. \<lparr>rc_use_count = 0, rc_has_shell = False,
      rc_is_server_console = True, rc_prompt = ''> '', rc_sent = [], rc_open = True\<rparr>"
      "(factory_create help_info)\<lparr>rq_console := Some 5\<rparr>"
      "con_get 5 (\<lambda>_. \<lparr>rc_use_count = 0, rc_has_shell = False, rc_is_server_console = True,
        rc_prompt = ''> '', rc_sent = [], rc_open = True\<rparr>)" "\<lambda>_ rc. rc"]
  by (simp add: factory_create_def set_console_def)

end
