(* ===== verification/Console.thy ===== *)
theory Console
  imports Requests Socket_Manager Connection
begin

text \<open>
  \<^verbatim>\<open>ServerConsole.cc\<close>: the telnet command prompt. Telnet negotiation, the tokenizer of command lines, and
  \<^verbatim>\<open>OnLine\<close>, which gives a line to the shell, answers telnet commands, enters the scheme or JSON shell on
  its own, or looks up the command and queues a request.
\<close>

section \<open>State\<close>

record server_console = console_socket +
  prompt :: string

text \<open>
  The prompt is taken from values on the CogServerNode. The atomspace is not modelled: \<open>get_value\<close> gives
  the value at a predicate of that name. An empty vector has no element 0.
\<close>

datatype avalue = Bool_value "bool list" | String_value "string list" | Node_value string | Other_value

definition vec0 :: "'a list \<Rightarrow> 'a res" where
  "vec0 v = (case v of [] \<Rightarrow> Inl Null_pointer | x # _ \<Rightarrow> Inr x)"

definition console_prompt :: "(string \<Rightarrow> avalue option) \<Rightarrow> string res" where
  "console_prompt get_value =
     (case get_value ''*-ansi-enabled-*'' of
        Some (Bool_value b) \<Rightarrow>
          res_bind (vec0 b) (\<lambda>ansi.
            case get_value (if ansi then ''*-ansi-prompt-*'' else ''*-prompt-*'') of
              Some (String_value v) \<Rightarrow> vec0 v
            | Some (Node_value n) \<Rightarrow> Inr n
            | _ \<Rightarrow> Inr [])
      | _ \<Rightarrow> Inr [])"

definition sendPrompt :: "('a server_console_scheme, unit) act" where
  "sendPrompt s = (if 0 < length (prompt s) then Send (prompt s) s else (Inr (), s))"

definition console_OnConnection :: "('a server_console_scheme, unit) act" where
  "console_OnConnection = sendPrompt"

section \<open>Telnet negotiation\<close>

text \<open>\<^verbatim>\<open>Send((const char *) ok)\<close>: the reply ends at its first NUL.\<close>

definition send_cstr :: "string \<Rightarrow> ('a server_socket_scheme, unit) act" where
  "send_cstr ok = Send (c_str ok)"

definition reply_do :: "char \<Rightarrow> string" where
  "reply_do a =
     (if a = CHR 0x03 then [CHR 0xFF, CHR 0xFC, CHR 0x03]
      else if a = CHR 0x01 then [CHR 0xFF, CHR 0xFC, CHR 0x01]
      else if a = CHR 0x00 then [CHR 0xFF, CHR 0xFB, CHR 0x00]
      else [CHR 0xFF, CHR 0xFC, a])"

text \<open>The loop, on what is left of the line; the result is \<^verbatim>\<open>true\<close> when everything was telnet commands.\<close>

fun handle_telnet_iac :: "string \<Rightarrow> ('a server_socket_scheme, bool) act" where
  "handle_telnet_iac [] s = (Inr True, s)"
| "handle_telnet_iac [c0] s = (Inr False, s)"
| "handle_telnet_iac (c0 # c1 # rest) s =
     (if c0 \<noteq> CHR 0xFF then (Inr False, s)
      else let c = of_char c1 :: nat
      in if c = 0xFC \<or> c = 0xFE
      then (if rest = [] then (Inr False, s) else handle_telnet_iac (tl rest) s)
      else if c = 0xFD
      then (if rest = [] then (Inr False, s)
            else act_bind (send_cstr (reply_do (hd rest))) (\<lambda>_. handle_telnet_iac (tl rest)) s)
      else if c = 0xFB
      then (if rest = [] then (Inr False, s)
            else if hd rest = CHR 34
            then act_bind (send_cstr [CHR 0xFF, CHR 0xFE, CHR 34]) (\<lambda>_. handle_telnet_iac (tl rest)) s
            else handle_telnet_iac (tl rest) s)
      else if c = 0xF4 \<or> c = 0xF5 \<or> c = 0xED
      then act_bind (send_cstr nl) (\<lambda>_. handle_telnet_iac rest) s
      else if c = 0xF8 \<or> c = 0xF7 \<or> c = 0xEE \<or> c = 0xF6 \<or> c = 0xF9 \<or> c = 0xF1
      then handle_telnet_iac rest s
      else if c = 0xF3 then handle_telnet_iac rest s
      else if c = 0xEC then (Inr False, s)
      else handle_telnet_iac rest s)"

section \<open>The tokenizer\<close>

lemma length_dropWhile_Cons: "P x \<Longrightarrow> length (dropWhile P (x # xs)) < Suc (length xs)"
  by (simp add: le_imp_less_Suc length_dropWhile_le)

function simple_tokenize :: "string \<Rightarrow> string list" where
  "simple_tokenize line =
     (case line of
        [] \<Rightarrow> []
      | c # cs \<Rightarrow>
          if c = CHR 0x22
          then takeWhile (\<lambda>x. x \<noteq> CHR 0x22) cs # simple_tokenize (drop 1 (dropWhile (\<lambda>x. x \<noteq> CHR 0x22) cs))
          else if c \<noteq> CHR '' ''
          then takeWhile (\<lambda>x. x \<noteq> CHR '' '') line # simple_tokenize (dropWhile (\<lambda>x. x \<noteq> CHR '' '') line)
          else simple_tokenize (dropWhile (\<lambda>x. x = CHR '' '') line))"
  by pat_completeness auto
termination
proof (relation "measure length", goal_cases)
  case (2 line c cs)
  have "length (dropWhile (\<lambda>x. x \<noteq> CHR 0x22) cs) \<le> length cs" by (rule length_dropWhile_le)
  with 2 show ?case by simp
qed (auto simp: le_imp_less_Suc length_dropWhile_le)

declare simple_tokenize.simps [simp del]

section \<open>Lines\<close>

text \<open>
  What a console needs of the rest of the server: the shell's \<^verbatim>\<open>eval\<close>, \<^verbatim>\<open>CogServer::running\<close>, and the request
  system; \<open>create\<close> gives the metadata of a registered command, \<open>push\<close> queues a request for this console and
  \<open>process\<close> drains the queue (which is how a shell command puts its shell on the console).
\<close>

record 's console_env =
  env_shell_eval :: "string \<Rightarrow> ('s, unit) act"
  env_running :: bool
  env_create :: "string \<Rightarrow> RequestClassInfo option"
  env_push :: "RequestClassInfo \<Rightarrow> string list \<Rightarrow> 's \<Rightarrow> 's"
  env_process :: "'s \<Rightarrow> 's"

text \<open>The request is made, tied to the console (use count), queued, and for a shell command run at once.\<close>

definition push_request ::
  "('a server_console_scheme) console_env \<Rightarrow> RequestClassInfo \<Rightarrow> string list \<Rightarrow>
   'a server_console_scheme \<Rightarrow> 'a server_console_scheme" where
  "push_request env f params s =
     (let s1 = env_push env f params (cs_get s)
      in if is_shell f then env_process env s1 else s1)"

definition not_found_msg :: "string \<Rightarrow> string" where
  "not_found_msg cmd = snprintf 256 (''command '' @ [CHR 0x22] @ c_str cmd @ [CHR 0x22] @ '' not found'' @ nl)"

definition on_command ::
  "('a server_console_scheme) console_env \<Rightarrow> string \<Rightarrow> ('a server_console_scheme, unit) act" where
  "on_command env line =
     (case simple_tokenize line of
        [] \<Rightarrow> sendPrompt
      | cmdName # params \<Rightarrow>
          (case env_create env cmdName of
             Some f \<Rightarrow> act_mod (push_request env f params)
           | None \<Rightarrow>
               act_seq (Send (not_found_msg cmdName))
                 (case env_create env ''help'' of
                    None \<Rightarrow> sendPrompt
                  | Some f \<Rightarrow> act_mod (push_request env f params))))"

text \<open>The lines after which the console enters a shell by itself.\<close>

definition auto_shell :: "string \<Rightarrow> string option" where
  "auto_shell line =
     (if at line 0 = CHR ''('' \<or> at line 0 = CHR '';'' then Some ''scm''
      else if at line 0 = CHR ''{'' then Some ''json'' else None)"

text \<open>\<^verbatim>\<open>OnLine\<close>, with its two calls of itself.\<close>

function console_OnLine ::
  "('a server_console_scheme) console_env \<Rightarrow> string \<Rightarrow> ('a server_console_scheme, unit) act" where
  "console_OnLine env line s =
     (if console_shell s \<noteq> None then env_shell_eval env line s
      else if \<not> env_running env then (Inr (), Exit s)
      else case (if at line 0 = CHR 0xFF \<and> length line < 40 then handle_telnet_iac line s
                 else (Inr False, s)) of
        (Inl e, s1) \<Rightarrow> (Inl e, s1)
      | (Inr True, s1) \<Rightarrow> sendPrompt s1
      | (Inr False, s1) \<Rightarrow>
          (case auto_shell line of
             None \<Rightarrow> on_command env line s1
           | Some cmd \<Rightarrow>
               (case console_OnLine env cmd s1 of
                  (Inl e, s2) \<Rightarrow> (Inl e, s2)
                | (Inr _, s2) \<Rightarrow>
                    (if console_shell s2 \<noteq> None then console_OnLine env line s2
                     else on_command env line s2))))"
  by pat_completeness auto
termination
  by (relation "measure (\<lambda>(env, line, s). if console_shell s \<noteq> None then 0
        else if auto_shell line = None then 1 else 2)")
    (auto simp: auto_shell_def at_def split: if_splits)

section \<open>The tokenizer is the inverse of quoting\<close>

text \<open>An argument as a user writes it: a bare word, or a quoted text.\<close>

datatype arg = Word string | Quoted string

fun arg_val :: "arg \<Rightarrow> string" where
  "arg_val (Word w) = w"
| "arg_val (Quoted q) = q"

fun arg_text :: "arg \<Rightarrow> string" where
  "arg_text (Word w) = w"
| "arg_text (Quoted q) = [CHR 0x22] @ q @ [CHR 0x22]"

fun arg_ok :: "arg \<Rightarrow> bool" where
  "arg_ok (Word w) \<longleftrightarrow> w \<noteq> [] \<and> hd w \<noteq> CHR 0x22 \<and> CHR '' '' \<notin> set w"
| "arg_ok (Quoted q) \<longleftrightarrow> CHR 0x22 \<notin> set q"

fun join_args :: "arg list \<Rightarrow> string" where
  "join_args [] = []"
| "join_args [a] = arg_text a"
| "join_args (a # as) = arg_text a @ '' '' @ join_args as"

lemma tokenize_Nil [simp]: "simple_tokenize [] = []"
  by (simp add: simple_tokenize.simps)

lemma arg_text_head: "arg_ok a \<Longrightarrow> arg_text a \<noteq> [] \<and> hd (arg_text a) \<noteq> CHR '' ''"
  by (cases a) (auto dest: hd_in_set)

lemma tokenize_blank: "line \<noteq> [] \<Longrightarrow> hd line \<noteq> CHR '' '' \<Longrightarrow>
   simple_tokenize (CHR '' '' # line) = simple_tokenize line"
  by (subst simple_tokenize.simps) (cases line; simp)

lemma while_all: "\<forall>x \<in> set a. P x \<Longrightarrow> takeWhile P a = a" "\<forall>x \<in> set a. P x \<Longrightarrow> dropWhile P a = []"
  by (auto simp: takeWhile_eq_all_conv dropWhile_eq_Nil_conv)

lemma tokenize_arg:
  assumes "arg_ok a" "rest = [] \<or> hd rest = CHR '' ''"
  shows "simple_tokenize (arg_text a @ rest) = arg_val a # simple_tokenize rest"
proof (cases a)
  case (Quoted q)
  with assms(1) show ?thesis
    by (simp add: simple_tokenize.simps [of "CHR 0x22 # q @ CHR 0x22 # rest"] while_notin)
next
  case (Word w)
  obtain c cs where w: "w = c # cs" "c \<noteq> CHR 0x22" "c \<noteq> CHR '' ''" "\<forall>x \<in> set w. x \<noteq> CHR '' ''"
    using Word assms(1) by (cases w) auto
  have tw: "takeWhile (\<lambda>x. x \<noteq> CHR '' '') (w @ rest) = w" "dropWhile (\<lambda>x. x \<noteq> CHR '' '') (w @ rest) = rest"
    using w(4) assms(2) by (cases rest; simp add: takeWhile_append2 dropWhile_append2 while_all)+
  show ?thesis
    using tw w Word by (subst simple_tokenize.simps) simp
qed

lemma join_args_head: "list_all arg_ok as \<Longrightarrow> as \<noteq> [] \<Longrightarrow> join_args as \<noteq> [] \<and> hd (join_args as) \<noteq> CHR '' ''"
  by (cases "as" rule: join_args.cases) (auto simp: arg_text_head)

lemma tokenize_roundtrip_args: "list_all arg_ok as \<Longrightarrow> simple_tokenize (join_args as) = map arg_val as"
proof (induction "as" rule: join_args.induct)
  case (2 a)
  then show ?case using tokenize_arg [of a "[]"] by simp
next
  case (3 a b "as")
  then have h: "join_args (b # as) \<noteq> [] \<and> hd (join_args (b # as)) \<noteq> CHR '' ''"
    by (intro join_args_head) auto
  have "simple_tokenize (arg_text a @ CHR '' '' # join_args (b # as)) =
      arg_val a # simple_tokenize (CHR '' '' # join_args (b # as))"
    using "3.prems" by (intro tokenize_arg) auto
  with 3 h show ?case by (simp add: tokenize_blank)
qed simp

text \<open>
  C33. A command line made of bare words and quoted texts, separated by blanks, is taken apart into exactly
  these words and texts.
\<close>

theorem tokenize_roundtrip:
  "list_all arg_ok as \<Longrightarrow> simple_tokenize (join_args as) = map arg_val as"
  by (rule tokenize_roundtrip_args)

theorem tokenize_roundtrip_witness:
  "simple_tokenize (''loadmodule '' @ [CHR 0x22] @ ''my lib'' @ [CHR 0x22]) = [''loadmodule'', ''my lib'']"
  using tokenize_roundtrip [of "[Word ''loadmodule'', Quoted ''my lib'']"] by simp

section \<open>Telnet options\<close>

definition raw_up :: "'a server_socket_scheme \<Rightarrow> bool" where
  "raw_up s \<longleftrightarrow> has_socket s \<and> sock_up s \<and> \<not> do_frame_io s"

lemma send_cstr_up:
  "raw_up s \<Longrightarrow> c_str ok \<noteq> [] \<Longrightarrow> c_str ok \<noteq> nl \<Longrightarrow>
   send_cstr ok s = (Inr (), s\<lparr>tx := tx s @ c_str ok\<rparr>)"
  by (simp add: send_cstr_def Send_def raw_up_def nl_def)

lemma raw_up_tx [simp]: "raw_up (s\<lparr>tx := x\<rparr>) = raw_up s"
  by (simp add: raw_up_def)

lemma reply_do_sent:
  "c_str (reply_do a) = (if a = CHR 0x00 then [CHR 0xFF, CHR 0xFB] else [CHR 0xFF, CHR 0xFC, a])"
  by (simp add: reply_do_def c_str_def)

text \<open>
  A client that asks for options with \<^verbatim>\<open>IAC DO\<close> gets one refusal \<^verbatim>\<open>IAC WONT\<close> per option, in order. The one
  option the console would accept, binary transmission, has the number 0: its answer is sent as a
  C string and loses the option byte.
\<close>

theorem telnet_options_answered:
  "raw_up s \<Longrightarrow>
   handle_telnet_iac (concat (map (\<lambda>a. [CHR 0xFF, CHR 0xFD, a]) opts)) s =
     (Inr True, s\<lparr>tx := tx s @ concat (map (\<lambda>a. if a = CHR 0x00 then [CHR 0xFF, CHR 0xFB]
        else [CHR 0xFF, CHR 0xFC, a]) opts)\<rparr>)"
proof (induction opts arbitrary: s)
  case (Cons a opts)
  have "send_cstr (reply_do a) s = (Inr (), s\<lparr>tx := tx s @ c_str (reply_do a)\<rparr>)"
    using Cons.prems by (intro send_cstr_up) (simp_all add: reply_do_sent nl_def)
  with Cons show ?case by (simp add: reply_do_sent)
qed simp

theorem telnet_options_answered_witness:
  "handle_telnet_iac [CHR 0xFF, CHR 0xFD, CHR 0x00, CHR 0xFF, CHR 0xFD, CHR 31]
      (set_connection (new_server_socket 0)) =
    (Inr True, (set_connection (new_server_socket 0))\<lparr>tx := [CHR 0xFF, CHR 0xFB, CHR 0xFF, CHR 0xFC, CHR 31]\<rparr>)"
  using telnet_options_answered [of "set_connection (new_server_socket 0)" "[CHR 0x00, CHR 31]"]
  by (simp add: raw_up_def set_connection_def new_server_socket_def)

section \<open>Command lines\<close>

text \<open>
  A line that starts like a scheme expression, on a console without a shell, enters the scheme shell
  and is then given to it whole: the first line is not lost and not taken for a command.
\<close>

theorem scheme_line_enters_shell:
  fixes s :: "'a server_console_scheme"
  assumes "console_shell s = None" "env_running env" "env_create env ''scm'' = Some f"
    and "console_shell (push_request env f [] s) \<noteq> None"
  shows "console_OnLine env (CHR ''('' # line) s = env_shell_eval env (CHR ''('' # line) (push_request env f [] s)"
proof -
  have tok: "simple_tokenize ''scm'' = [''scm'']"
    using tokenize_arg [of "Word ''scm''" "[]"] by simp
  have "console_OnLine env ''scm'' s = (Inr (), push_request env f [] s)"
    using assms(1-3) tok
    by (simp add: console_OnLine.simps [of env "''scm''"] at_def auto_shell_def on_command_def)
  with assms show ?thesis
    by (simp add: console_OnLine.simps [of env "CHR ''('' # line" s]
        console_OnLine.simps [of env "CHR ''('' # line" "push_request env f [] s"] at_def auto_shell_def)
qed

text \<open>
  A command that is not registered is answered with a message that names it (at most 255 bytes long), and
  then the help command is queued with the same parameters.
\<close>

theorem unknown_command_helped:
  fixes s :: "'a server_console_scheme"
  assumes "console_shell s = None" "env_running env" "list_all arg_ok (Word cmd # args)"
    and "auto_shell cmd = None" "hd cmd \<noteq> CHR 0xFF" "env_create env cmd = None"
    and "env_create env ''help'' = Some f" "\<not> is_shell f" "raw_up s"
  shows "console_OnLine env (join_args (Word cmd # args)) s =
      (Inr (), env_push env f (map arg_val args) (cs_get (s\<lparr>tx := tx s @ not_found_msg cmd\<rparr>)))
    \<and> length (not_found_msg cmd) \<le> 255"
proof
  let ?line = "join_args (Word cmd # args)"
  have c: "cmd \<noteq> []" using assms(3) by simp
  have h: "at ?line 0 = hd cmd"
    using c by (cases args; cases cmd) (auto simp: at_def)
  have tok: "simple_tokenize ?line = cmd # map arg_val args"
    using tokenize_roundtrip_args [OF assms(3)] by simp
  have "auto_shell ?line = None"
    using assms(4) h c by (cases cmd) (auto simp: auto_shell_def at_def split: if_splits)
  moreover have "Send (not_found_msg cmd) s = (Inr (), s\<lparr>tx := tx s @ not_found_msg cmd\<rparr>)"
    using assms(9) by (simp add: Send_def raw_up_def not_found_msg_def snprintf_def)
  ultimately show "console_OnLine env ?line s =
      (Inr (), env_push env f (map arg_val args) (cs_get (s\<lparr>tx := tx s @ not_found_msg cmd\<rparr>)))"
    using assms(1,2,5-8) h tok
    by (simp add: console_OnLine.simps [of env ?line] on_command_def push_request_def)
  show "length (not_found_msg cmd) \<le> 255"
    by (simp add: not_found_msg_def snprintf_def)
qed

text \<open>A server with two commands, to try the results on.\<close>

definition demo_env :: "server_console console_env" where
  "demo_env =
     \<lparr>env_shell_eval = (\<lambda>line s. (Inr (), s\<lparr>tx := tx s @ line\<rparr>)), env_running = True,
      env_create = (\<lambda>n. if n = ''scm'' then Some (emptyClassInfo\<lparr>rci_id := n, is_shell := True\<rparr>)
                        else if n = ''help'' then Some help_info else None),
      env_push = (\<lambda>f ps s. s\<lparr>host_header := rci_id f\<rparr>),
      env_process = (\<lambda>s. s\<lparr>console_shell := Some \<lparr>sv_name = '' scm'', sv_queued = 0, sv_eval_done = True,
         sv_pending = 0, sv_is_eval_thread = False\<rparr>\<rparr>)\<rparr>"

definition demo_console :: server_console where
  "demo_console = server_socket.extend (set_connection (new_server_socket 0))
     \<lparr>use_count = 0, console_shell = None, prompt = ''> ''\<rparr>"

lemmas demo_defs = demo_env_def demo_console_def set_connection_def new_server_socket_def
  server_socket.extend_def push_request_def cs_get_def emptyClassInfo_def

theorem scheme_line_enters_shell_witness:
  "console_OnLine demo_env ''(+ 1 2)'' demo_console =
     env_shell_eval demo_env ''(+ 1 2)''
       (push_request demo_env (emptyClassInfo\<lparr>rci_id := ''scm'', is_shell := True\<rparr>) [] demo_console)"
  using scheme_line_enters_shell [of demo_console demo_env "emptyClassInfo\<lparr>rci_id := ''scm'', is_shell := True\<rparr>" "''+ 1 2)''"]
  by (simp add: demo_defs)

theorem unknown_command_helped_witness:
  "console_OnLine demo_env ''quit now'' demo_console =
      (Inr (), env_push demo_env help_info [''now'']
        (cs_get (demo_console\<lparr>tx := tx demo_console @ not_found_msg ''quit''\<rparr>)))
    \<and> length (not_found_msg ''quit'') \<le> 255"
  using unknown_command_helped [of demo_console demo_env "''quit''" "[Word ''now'']" help_info]
  by (simp add: demo_defs auto_shell_def at_def raw_up_def help_info_def)

end
