(* ===== verification/Telnet_Commands.thy ===== *)
theory Telnet_Commands
  imports Console
begin

text \<open>
  From the bytes on the wire to the executed commands: a telnet connection (\<open>Connection\<close>) whose virtual methods are those
  of the console (\<open>Console\<close>) on the command system (\<open>Requests\<close>).
\<close>

section \<open>The composed handler\<close>

text \<open>The console of a connection together with the manager it puts its requests in; \<open>cc_addr\<close> is its address there.\<close>

record 'q command_console = server_console +
  cc_addr :: nat
  cc_manager :: "'q request_manager"

text \<open>The end of \<^verbatim>\<open>OnLine\<close>: the new request is tied to the console, gets its parameters and is queued.\<close>

definition queue_request ::
  "(request, 'q) cq_ops \<Rightarrow> RequestClassInfo \<Rightarrow> string list \<Rightarrow> 'q command_console \<Rightarrow> 'q command_console" where
  "queue_request qo f params s =
     (case set_console (Some (cc_addr s)) (factory_create f, rm_consoles (cc_manager s)) of (_, r, cs) \<Rightarrow>
        s\<lparr>cc_manager := snd (pushRequest qo (setParameters params r) ((cc_manager s)\<lparr>rm_consoles := cs\<rparr>))\<rparr>)"

text \<open>A running server with the commands \<open>fs\<close>; how shells are entered and fed is left open.\<close>

definition prompt_env ::
  "(request, 'q) cq_ops \<Rightarrow> RequestClassInfo smap \<Rightarrow> (string \<Rightarrow> ('q command_console, unit) act) \<Rightarrow>
   ('q command_console \<Rightarrow> 'q command_console) \<Rightarrow> 'q command_console console_env" where
  "prompt_env qo fs shell_fn process =
     \<lparr>env_shell_eval = shell_fn, env_running = True, env_create = (\<lambda>n. sm_find n fs), env_push = queue_request qo,
      env_process = process\<rparr>"

definition command_handlers ::
  "(request, 'q) cq_ops \<Rightarrow> RequestClassInfo smap \<Rightarrow> (string \<Rightarrow> ('q command_console, unit) act) \<Rightarrow>
   ('q command_console \<Rightarrow> 'q command_console) \<Rightarrow> (string \<Rightarrow> string) \<Rightarrow> (nat \<Rightarrow> int) \<Rightarrow> 'q command_console handlers" where
  "command_handlers qo fs shell_fn process sha clk =
     \<lparr>sha1 = sha, OnConnection = console_OnConnection, OnLine = console_OnLine (prompt_env qo fs shell_fn process), clock = clk\<rparr>"

section \<open>What a line asks for\<close>

text \<open>The command that is run for the words of a line: the one that is named, or help.\<close>

definition chosen :: "RequestClassInfo smap \<Rightarrow> string \<Rightarrow> RequestClassInfo option" where
  "chosen fs c = (case sm_find c fs of Some f \<Rightarrow> Some f | None \<Rightarrow> sm_find ''help'' fs)"

text \<open>The lines considered here: no telnet command, no expression for a shell, no command that enters a shell.\<close>

definition command_line :: "RequestClassInfo smap \<Rightarrow> string \<Rightarrow> bool" where
  "command_line fs l \<longleftrightarrow> at l 0 \<noteq> CHR 0xFF \<and> auto_shell l = None
     \<and> (case simple_tokenize l of [] \<Rightarrow> True
        | c # ps \<Rightarrow> (case chosen fs c of None \<Rightarrow> True | Some f \<Rightarrow> \<not> is_shell f))"

definition line_requests :: "RequestClassInfo smap \<Rightarrow> nat \<Rightarrow> string \<Rightarrow> request list" where
  "line_requests fs a l =
     (case simple_tokenize l of [] \<Rightarrow> []
      | c # ps \<Rightarrow> (case chosen fs c of None \<Rightarrow> [] | Some f \<Rightarrow> [\<lparr>rq_info = f, rq_console = Some a, parameters = ps\<rparr>]))"

definition line_answer :: "RequestClassInfo smap \<Rightarrow> string \<Rightarrow> string \<Rightarrow> string" where
  "line_answer fs prm l =
     (case simple_tokenize l of [] \<Rightarrow> prm
      | c # ps \<Rightarrow> (if sm_find c fs \<noteq> None then []
                    else not_found_msg c @ (if sm_find ''help'' fs = None then prm else [])))"

text \<open>A console at its prompt, with an open connection and an open queue.\<close>

definition at_prompt :: "('q \<Rightarrow> bool) \<Rightarrow> 'q command_console \<Rightarrow> bool" where
  "at_prompt canceled s \<longleftrightarrow> raw_up s \<and> \<not> is_http_socket s \<and> console_shell s = None \<and> prompt s \<noteq> nl
     \<and> \<not> canceled (requestQueue (cc_manager s))"

text \<open>What the lines have done, from one state of the console to another.\<close>

definition obeyed ::
  "('q \<Rightarrow> request list) \<Rightarrow> RequestClassInfo smap \<Rightarrow> string list \<Rightarrow> 'q command_console \<Rightarrow> 'q command_console \<Rightarrow> bool" where
  "obeyed items fs ls s s' \<longleftrightarrow>
     (let rs = concat (map (line_requests fs (cc_addr s)) ls)
      in items (requestQueue (cc_manager s')) = items (requestQueue (cc_manager s)) @ rs
       \<and> rm_consoles (cc_manager s') = fold (\<lambda>_. con_get (cc_addr s)) rs (rm_consoles (cc_manager s))
       \<and> use_count s' = use_count s + length rs
       \<and> tx s' = tx s @ concat (map (line_answer fs (prompt s)) ls)
       \<and> prompt s' = prompt s \<and> cc_addr s' = cc_addr s)"

lemma prompt_sent: "raw_up s \<Longrightarrow> prompt s \<noteq> nl \<Longrightarrow> sendPrompt s = (Inr (), s\<lparr>tx := tx s @ prompt s\<rparr>)"
  by (cases "prompt s") (auto simp: sendPrompt_def Send_def raw_up_def nl_def)

lemma not_found_sent: "raw_up s \<Longrightarrow> Send (not_found_msg c) s = (Inr (), s\<lparr>tx := tx s @ not_found_msg c\<rparr>)"
  by (simp add: Send_def raw_up_def not_found_msg_def snprintf_def)

lemma queue_request_pushes:
  assumes "cq_laws qo items canceled" "\<not> canceled (requestQueue (cc_manager s))"
  obtains q where "queue_request qo f ps s = s\<lparr>cc_manager := (cc_manager s)\<lparr>requestQueue := q,
        rm_consoles := con_get (cc_addr s) (rm_consoles (cc_manager s))\<rparr>\<rparr>"
    "items q = items (requestQueue (cc_manager s)) @ [\<lparr>rq_info = f, rq_console = Some (cc_addr s), parameters = ps\<rparr>]"
    "\<not> canceled q"
proof -
  let ?r = "\<lparr>rq_info = f, rq_console = Some (cc_addr s), parameters = ps\<rparr>"
  obtain q where q: "cq_push qo ?r (requestQueue (cc_manager s)) = (Inr (), q)" "items q = items (requestQueue (cc_manager s)) @ [?r]"
      "\<not> canceled q"
    using cq_lawsD(1) [OF assms] by blast
  then show thesis
    by (intro that) (simp_all add: queue_request_def set_console_def factory_create_def setParameters_def pushRequest_def)
qed

section \<open>Every line is obeyed\<close>

lemma at_prompt_keeps [simp]:
  "at_prompt canceled (s\<lparr>tx := x\<rparr>) = at_prompt canceled s"
  "at_prompt canceled (s\<lparr>last_activity := t, status := st\<rparr>) = at_prompt canceled s"
  "at_prompt canceled (got_line h s) = at_prompt canceled s"
  "at_prompt canceled (s\<lparr>tid := i\<rparr>) = at_prompt canceled s"
  by (simp_all add: at_prompt_def raw_up_def got_line_def)

lemma request_queued:
  assumes "cq_laws qo items canceled" "at_prompt canceled s" "\<not> is_shell f"
  obtains s' where "push_request (prompt_env qo fs shell_fn process) f ps s = s'" "at_prompt canceled s'"
    "items (requestQueue (cc_manager s')) =
       items (requestQueue (cc_manager s)) @ [\<lparr>rq_info = f, rq_console = Some (cc_addr s), parameters = ps\<rparr>]"
    "rm_consoles (cc_manager s') = con_get (cc_addr s) (rm_consoles (cc_manager s))"
    "use_count s' = Suc (use_count s)" "tx s' = tx s" "prompt s' = prompt s" "cc_addr s' = cc_addr s"
proof -
  have nc: "\<not> canceled (requestQueue (cc_manager (cs_get s)))"
    using assms(2) by (simp add: at_prompt_def cs_get_def)
  obtain q where q: "queue_request qo f ps (cs_get s) = (cs_get s)\<lparr>cc_manager := (cc_manager (cs_get s))\<lparr>requestQueue := q,
        rm_consoles := con_get (cc_addr (cs_get s)) (rm_consoles (cc_manager (cs_get s)))\<rparr>\<rparr>"
      "items q = items (requestQueue (cc_manager (cs_get s)))
         @ [\<lparr>rq_info = f, rq_console = Some (cc_addr (cs_get s)), parameters = ps\<rparr>]"
      "\<not> canceled q"
    by (rule queue_request_pushes [OF assms(1) nc])
  with assms(2,3) show thesis
    by (intro that [OF refl]) (simp_all add: push_request_def prompt_env_def cs_get_def at_prompt_def raw_up_def)
qed

lemma command_obeyed:
  assumes "cq_laws qo items canceled" "at_prompt canceled s" "command_line fs l"
  obtains s' where "console_OnLine (prompt_env qo fs shell_fn process) l s = (Inr (), s')" "at_prompt canceled s'"
    "obeyed items fs [l] s s'"
proof -
  let ?env = "prompt_env qo fs shell_fn process"
  have env: "env_running ?env" "env_create ?env = (\<lambda>n. sm_find n fs)" by (simp_all add: prompt_env_def)
  have up: "raw_up s" "prompt s \<noteq> nl" "console_shell s = None" using assms(2) by (auto simp: at_prompt_def)
  have line: "console_OnLine ?env l s = on_command ?env l s"
    using assms(3) up(3) env(1) by (subst console_OnLine.simps) (simp add: command_line_def)
  show thesis
  proof (cases "simple_tokenize l")
    case Nil
    with line prompt_sent [OF up(1,2)] assms(2) show thesis
      by (intro that [of "s\<lparr>tx := tx s @ prompt s\<rparr>"])
        (simp_all add: on_command_def obeyed_def line_requests_def line_answer_def)
  next
    case (Cons c ps)
    let ?n = "s\<lparr>tx := tx s @ not_found_msg c\<rparr>"
    consider (cmd) f where "sm_find c fs = Some f" "\<not> is_shell f"
      | (none) "sm_find c fs = None" "sm_find ''help'' fs = None"
      | (fallback) f where "sm_find c fs = None" "sm_find ''help'' fs = Some f" "\<not> is_shell f"
      using assms(3) Cons by (auto simp: command_line_def chosen_def split: option.splits)
    then show thesis
    proof cases
      case cmd
      from request_queued [OF assms(1,2) cmd(2), of fs shell_fn process ps] obtain s' where
        s': "push_request ?env f ps s = s'" "at_prompt canceled s'"
        "items (requestQueue (cc_manager s')) =
           items (requestQueue (cc_manager s)) @ [\<lparr>rq_info = f, rq_console = Some (cc_addr s), parameters = ps\<rparr>]"
        "rm_consoles (cc_manager s') = con_get (cc_addr s) (rm_consoles (cc_manager s))"
        "use_count s' = Suc (use_count s)" "tx s' = tx s" "prompt s' = prompt s" "cc_addr s' = cc_addr s" .
      with line Cons cmd(1) env(2) show thesis
        by (intro that [of s']) (simp_all add: on_command_def obeyed_def line_requests_def line_answer_def chosen_def)
    next
      case none
      with line Cons env(2) not_found_sent [OF up(1)] prompt_sent [of ?n] up assms(2) show thesis
        by (intro that [of "?n\<lparr>tx := tx ?n @ prompt ?n\<rparr>"])
          (simp_all add: on_command_def obeyed_def line_requests_def line_answer_def chosen_def)
    next
      case fallback
      have n: "at_prompt canceled ?n" using assms(2) by simp
      from request_queued [OF assms(1) n fallback(3), of fs shell_fn process ps] obtain s' where
        s': "push_request ?env f ps ?n = s'" "at_prompt canceled s'"
        "items (requestQueue (cc_manager s')) =
           items (requestQueue (cc_manager ?n)) @ [\<lparr>rq_info = f, rq_console = Some (cc_addr ?n), parameters = ps\<rparr>]"
        "rm_consoles (cc_manager s') = con_get (cc_addr ?n) (rm_consoles (cc_manager ?n))"
        "use_count s' = Suc (use_count ?n)" "tx s' = tx ?n" "prompt s' = prompt ?n" "cc_addr s' = cc_addr ?n" .
      with line Cons fallback(1,2) env(2) not_found_sent [OF up(1)] show thesis
        by (intro that [of s']) (simp_all add: on_command_def obeyed_def line_requests_def line_answer_def chosen_def)
    qed
  qed
qed

lemma command_line_handler:
  fixes qo :: "(request, 'q) cq_ops"
  assumes "cq_laws qo items canceled"
  shows "line_handler (command_handlers qo fs shell_fn process sha clk) (at_prompt canceled) (command_line fs)"
proof
  fix s :: "'q command_console" and line assume *: "at_prompt canceled s" "command_line fs line"
  show "\<exists>s'. OnLine (command_handlers qo fs shell_fn process sha clk) line s = (Inr (), s') \<and> at_prompt canceled s'"
    by (rule command_obeyed [OF assms *, of shell_fn process]) (simp add: command_handlers_def)
qed (auto simp: at_prompt_def raw_up_def got_line_def)

lemma command_line_service:
  fixes qo :: "(request, 'q) cq_ops"
  assumes "cq_laws qo items canceled"
  shows "line_service (command_handlers qo fs shell_fn process sha clk) (at_prompt canceled) (command_line fs) (obeyed items fs)"
proof (intro line_service.intro command_line_handler [OF assms] line_service_axioms.intro)
  fix s s' :: "'q command_console" and line
  assume *: "at_prompt canceled s" "command_line fs line"
    and o: "OnLine (command_handlers qo fs shell_fn process sha clk) line s = (Inr (), s')"
  show "obeyed items fs [line] s s'"
    by (rule command_obeyed [OF assms *, of shell_fn process]) (use o in \<open>simp add: command_handlers_def\<close>)
qed (auto simp: obeyed_def got_line_def Let_def)

interpretation list_console:
  line_service "command_handlers list_cq fs shell_fn process sha clk" "at_prompt snd" "command_line fs" "obeyed fst fs"
  by (rule command_line_service [OF list_cq_laws])

text \<open>
  C2. From the wire to the executed commands. A telnet client sends command lines, cut by the network in any way, and ends the connection. The
  console has then queued exactly the requests these lines ask for, once each, in their order, with their words as parameters
  and tied to this console, has sent the prompt and the answers of the lines that ask for nothing, and the next
  \<^verbatim>\<open>processRequests\<close> executes them in that order, after those that were queued before, and leaves the queue empty.
\<close>

theorem wire_to_commands:
  assumes "cq_laws qo items canceled" "at_prompt canceled s"
    and "rx_clean r" "rx_bytes r = text_of ls tail"
    and "list_all (\<lambda>l. plain_line l \<and> command_line fs (strip_cr l)) ls" "plain_line tail" "command_line fs (strip_cr tail)"
  shows "\<exists>s' q. handle_connection (command_handlers qo fs shell_fn process sha clk) thread r s = (Closed, s')
    \<and> (let rs = concat (map (line_requests fs (cc_addr s)) (session_lines ls tail))
       in items (requestQueue (cc_manager s')) = items (requestQueue (cc_manager s)) @ rs
        \<and> use_count s' = use_count s + length rs
        \<and> tx s' = tx s @ prompt s @ concat (map (line_answer fs (prompt s)) (session_lines ls tail))
        \<and> processRequests qo exec (cc_manager s') =
            Some (Inr (), (cc_manager s')\<lparr>requestQueue := q,
              rm_consoles := fold (run_request exec) (items (requestQueue (cc_manager s)) @ rs)
                (fold (\<lambda>_. con_get (cc_addr s)) rs (rm_consoles (cc_manager s)))\<rparr>)
        \<and> items q = [])"
proof -
  let ?h = "command_handlers qo fs shell_fn process sha clk"
  let ?s1 = "s\<lparr>tid := thread, tx := tx s @ prompt s\<rparr>"
  have s1: "\<not> is_http_socket s" "at_prompt canceled ?s1" using assms(2) by (simp_all add: at_prompt_def raw_up_def)
  have c: "OnConnection ?h (s\<lparr>tid := thread\<rparr>) = (Inr (), ?s1)"
    using prompt_sent [of "s\<lparr>tid := thread\<rparr>"] assms(2)
    by (simp add: command_handlers_def console_OnConnection_def at_prompt_def raw_up_def)
  obtain s' where s': "handle_connection ?h thread r s = (Closed, s')" "at_prompt canceled s'"
    "obeyed items fs (session_lines ls tail) ?s1 s'"
    by (rule line_service.session [OF command_line_service [OF assms(1)] s1(1) c s1(2) assms(3-7)])
  obtain q where "processRequests qo exec (cc_manager s') =
      Some (Inr (), (cc_manager s')\<lparr>requestQueue := q,
        rm_consoles := fold (run_request exec) (items (requestQueue (cc_manager s'))) (rm_consoles (cc_manager s'))\<rparr>)"
    "items q = []"
    using processRequests_fifo [OF assms(1), of "cc_manager s'" exec] s'(2) by (auto simp: at_prompt_def)
  with s' show ?thesis by (intro exI [of _ s'] exI [of _ q]) (simp add: obeyed_def Let_def)
qed

definition prompt_console :: "(request list \<times> bool) command_console" where
  "prompt_console = server_socket.extend (set_connection (new_server_socket 0))
     \<lparr>use_count = 0, console_shell = None, prompt = ''> '', cc_addr = 5,
      cc_manager = \<lparr>factories = [(''help'', help_info)], requestQueue = ([], False), rm_consoles = (\<lambda>_. idle_console)\<rparr>\<rparr>"

lemmas prompt_console_defs = prompt_console_def set_connection_def new_server_socket_def server_socket.extend_def

lemma prompt_console_session:
  "session_lines [''help me'' @ [CHR 0x0D], []] ''nope'' = [''help me'', [], ''nope'']"
  "list_all (\<lambda>l. plain_line l \<and> command_line [(''help'', help_info)] (strip_cr l)) [''help me'' @ [CHR 0x0D], []]"
  "plain_line ''nope''" "command_line [(''help'', help_info)] (strip_cr ''nope'')"
  by (simp_all add: session_lines_def strip_cr_def plain_line_def dbus_garbage_def command_line_def at_def auto_shell_def
      simple_tokenize.simps chosen_def sm_find_def help_info_def emptyClassInfo_def)

theorem wire_to_commands_witness:
  "\<exists>s' q. handle_connection (command_handlers list_cq [(''help'', help_info)] (\<lambda>_. act_ret ()) id id int) 7
        [Chunk ''he'', Chunk (''lp me'' @ [CHR 0x0D]), Chunk (nl @ nl @ ''no''), Chunk ''pe''] prompt_console = (Closed, s')
    \<and> tx s' = ''> '' @ ''> '' @ not_found_msg ''nope''
    \<and> fst (requestQueue (cc_manager s')) =
        [\<lparr>rq_info = help_info, rq_console = Some 5, parameters = [''me'']\<rparr>,
         \<lparr>rq_info = help_info, rq_console = Some 5, parameters = []\<rparr>]
    \<and> processRequests list_cq (\<lambda>_ rc. rc) (cc_manager s') = Some (Inr (), q) \<and> fst (requestQueue q) = []"
  using wire_to_commands [OF list_cq_laws, of prompt_console "[Chunk ''he'', Chunk (''lp me'' @ [CHR 0x0D]), Chunk (nl @ nl @ ''no''), Chunk ''pe'']"
      "[''help me'' @ [CHR 0x0D], []]" "''nope''" "[(''help'', help_info)]" "\<lambda>_. act_ret ()" id id int 7 "\<lambda>_ rc. rc"]
  by (auto simp: prompt_console_session [simplified] line_requests_def line_answer_def simple_tokenize.simps chosen_def sm_find_def
      prompt_console_defs at_prompt_def raw_up_def text_of_def nl_def Let_def)

end
