(* ===== verification/Network_Server.thy ===== *)
theory Network_Server
  imports Socket_Manager
begin

text \<open>
  \<^verbatim>\<open>NetworkServer.cc\<close>: a listening port, its listener thread and the handler threads of its connections. What the
  operating system grants is an argument.
\<close>

section \<open>State\<close>

datatype family = V4 | V6

text \<open>Which calls on the acceptor succeed. Opening an acceptor that is open already is always an error.\<close>

record acceptor_env =
  ok_open :: "family \<Rightarrow> bool"
  ok_options :: "family \<Rightarrow> bool"
  ok_bind :: "family \<Rightarrow> 16 word \<Rightarrow> bool"
  ok_listen :: "family \<Rightarrow> bool"

text \<open>The sockets that the factory given to \<^verbatim>\<open>run\<close> makes.\<close>

datatype conn_class = Telnet_conn | Web_conn | Mcp_conn

text \<open>
  \<open>ns_port\<close> is a \<^verbatim>\<open>short\<close>; \<open>listener\<close> says that the listener thread exists; \<open>handlers\<close> are the connections whose threads have
  not been joined.
\<close>

record net_server =
  ns_name :: string
  ns_port :: "16 word"
  ns_running :: bool
  listener :: bool
  getServer :: "conn_class option"
  handlers :: "nat list"
  ns_start_time :: int
  ns_last_connect :: int
  ns_nconnections :: nat

section \<open>Operations\<close>

definition listens :: "acceptor_env \<Rightarrow> family \<Rightarrow> 16 word \<Rightarrow> bool" where
  "listens env fam port \<longleftrightarrow> ok_open env fam \<and> ok_options env fam \<and> ok_bind env fam port \<and> ok_listen env fam"

text \<open>
  The constructor. The attempt with IPv6 leaves the acceptor open when it fails after \<^verbatim>\<open>open\<close>; then the \<^verbatim>\<open>open\<close> for
  IPv4 throws.
\<close>

definition new_network_server :: "acceptor_env \<Rightarrow> 16 word \<Rightarrow> string \<Rightarrow> int \<Rightarrow> net_server res" where
  "new_network_server env port name now =
     (let ipv6_success = listens env V6 port;
          acceptor_open = ok_open env V6
      in if \<not> ipv6_success \<and> (acceptor_open \<or> \<not> listens env V4 port) then Inl (System_error Sys_other)
         else Inr \<lparr>ns_name = name, ns_port = port, ns_running = False, listener = False, getServer = None, handlers = [],
                ns_start_time = now, ns_last_connect = 0, ns_nconnections = 0\<rparr>)"

definition getPort :: "net_server \<Rightarrow> int" where
  "getPort ns = sint (ns_port ns)"

definition ns_run :: "conn_class \<Rightarrow> net_server \<Rightarrow> net_server" where
  "ns_run handler ns =
     (if ns_running ns then ns else ns\<lparr>ns_running := True, getServer := Some handler, listener := True\<rparr>)"

text \<open>The lambdas \<^verbatim>\<open>make_console\<close> of \<^verbatim>\<open>CogServer.cc\<close>, as far as the common part of the socket goes.\<close>

definition make_console :: "conn_class \<Rightarrow> int \<Rightarrow> console_socket" where
  "make_console c now =
     (let ss = new_console_socket now
      in case c of
           Telnet_conn \<Rightarrow> ss
         | Web_conn \<Rightarrow> ss\<lparr>is_http_socket := True\<rparr>
         | Mcp_conn \<Rightarrow> ss\<lparr>is_mcp_socket := True\<rparr>)"

text \<open>
  What \<^verbatim>\<open>listen\<close> does after \<^verbatim>\<open>accept\<close> has returned: \<open>a\<close> is the new connection. The result says whether the loop goes on,
  and has the socket that the new handler thread works on.
\<close>

definition accepted_conn :: "int \<Rightarrow> nat \<Rightarrow> net_server \<Rightarrow> (console_socket option \<times> bool) \<times> net_server" where
  "accepted_conn now a ns =
     (if \<not> ns_running ns then ((None, False), ns)
      else ((map_option (\<lambda>c. set_connection (make_console c now)) (getServer ns), True),
            ns\<lparr>ns_nconnections := Suc (ns_nconnections ns), ns_last_connect := now, handlers := handlers ns @ [a]\<rparr>))"

text \<open>\<^verbatim>\<open>stop_listening\<close>: the flag says whether \<^verbatim>\<open>network_gone\<close> is told to the socket manager.\<close>

definition stop_listening :: "net_server \<Rightarrow> bool \<times> net_server" where
  "stop_listening ns =
     (if \<not> ns_running ns then (False, ns) else (True, ns\<lparr>ns_running := False, listener := False\<rparr>))"

text \<open>\<^verbatim>\<open>join_threads\<close> waits for every handler; \<^const>\<open>None\<close> while one of them is \<open>alive\<close>.\<close>

definition join_threads :: "(nat \<Rightarrow> bool) \<Rightarrow> net_server \<Rightarrow> net_server option" where
  "join_threads alive ns = (if list_ex alive (handlers ns) then None else Some (ns\<lparr>handlers := []\<rparr>))"

definition ns_dtor :: "(nat \<Rightarrow> bool) \<Rightarrow> net_server \<Rightarrow> net_server option" where
  "ns_dtor alive ns = join_threads alive (snd (stop_listening ns))"

section \<open>Ports\<close>

lemma sint_port: "sint (word_of_int p :: 16 word) = (p + 32768) mod 65536 - 32768"
  by (simp add: signed_of_int signed_take_bit_eq_take_bit_shift take_bit_eq_mod)

lemma getPort_word:
  assumes "0 \<le> p" "p < 65536"
  shows "getPort (ns\<lparr>ns_port := word_of_int p\<rparr>) = (if p < 32768 then p else p - 65536)"
proof (cases "p < 32768")
  case True
  with assms have "(p + 32768) mod 65536 = p + 32768" by (intro mod_pos_pos_trivial) auto
  with True show ?thesis by (simp add: getPort_def sint_port)
next
  case False
  with assms have "(p - 32768) mod 65536 = p - 32768" by (intro mod_pos_pos_trivial) auto
  moreover have "(p + 32768) mod 65536 = (p - 32768) mod 65536"
    using mod_add_self2 [of "p - 32768" 65536] by (simp add: algebra_simps)
  ultimately show ?thesis using False by (simp add: getPort_def sint_port)
qed

section \<open>Falling back\<close>

text \<open>
  The fall-back to IPv4 helps only where an IPv6 socket cannot even be opened. When it can be opened but not
  bound, the server does not start, although the port could be had for IPv4.
\<close>

theorem ipv4_fallback:
  assumes "\<not> listens env V6 port" "listens env V4 port"
  shows "(\<exists>ns. new_network_server env port name now = Inr ns) \<longleftrightarrow> \<not> ok_open env V6"
  using assms by (simp add: new_network_server_def)

definition no_dual_stack :: acceptor_env where
  "no_dual_stack = \<lparr>ok_open = (\<lambda>f. True), ok_options = (\<lambda>f. f = V4), ok_bind = (\<lambda>f p. True), ok_listen = (\<lambda>f. True)\<rparr>"

theorem ipv4_fallback_witness:
  "(\<exists>ns. new_network_server no_dual_stack 17001 ''Telnet Server'' 0 = Inr ns) \<longleftrightarrow> \<not> ok_open no_dual_stack V6"
  by (rule ipv4_fallback) (simp_all add: listens_def no_dual_stack_def)

end
