(* ===== verification/Http_Response.thy ===== *)
theory Http_Response
  imports Cog_Prelude
begin

text \<open>
  The contract of the HTTP responses that the server builds: header lines, a blank line, and a body whose
  length the \<^verbatim>\<open>Content-Length\<close> line announces. A client that reads by that line gets exactly the body, and
  what follows it on the connection is left alone.
\<close>

section \<open>A client\<close>

lemma starts_with_length: "starts_with p s \<Longrightarrow> length p \<le> length s"
  by (auto simp: starts_with_iff)

text \<open>The header lines up to the blank line, and the rest.\<close>

function split_header :: "string \<Rightarrow> (string list \<times> string) option" where
  "split_header bs =
     (let line = takeWhile (\<lambda>c. c \<noteq> CHR 0x0D) bs; rest = dropWhile (\<lambda>c. c \<noteq> CHR 0x0D) bs
      in if \<not> starts_with crlf rest then None
         else if line = [] then Some ([], drop 2 rest)
         else case split_header (drop 2 rest) of
                None \<Rightarrow> None | Some (ls, body) \<Rightarrow> Some (line # ls, body))"
  by pat_completeness auto
termination
proof (relation "measure length", goal_cases)
  case (2 bs line rest)
  have "length (dropWhile (\<lambda>c. c \<noteq> CHR 0x0D) bs) \<le> length bs" by (rule length_dropWhile_le)
  moreover have "length crlf \<le> length rest" using 2 by (intro starts_with_length) simp
  ultimately show ?case using 2 by (simp add: crlf_def)
qed simp

declare split_header.simps [simp del]

definition clen :: string where
  "clen = ''Content-Length: ''"

text \<open>The body and what comes after it.\<close>

definition http_client :: "string \<Rightarrow> (string \<times> string) option" where
  "http_client bs =
     (case split_header bs of
        None \<Rightarrow> None
      | Some (ls, rest) \<Rightarrow>
          (case List.find (starts_with clen) ls of
             None \<Rightarrow> None
           | Some l \<Rightarrow>
               (case strtol (drop (length clen) l) of
                  None \<Rightarrow> None
                | Some n \<Rightarrow> if 0 \<le> n \<and> nat n \<le> length rest then Some (take (nat n) rest, drop (nat n) rest)
                             else None)))"

section \<open>The contract\<close>

definition header_text :: "string list \<Rightarrow> string" where
  "header_text ls = concat (map (\<lambda>l. l @ crlf) ls) @ crlf"

definition header_line_ok :: "string \<Rightarrow> bool" where
  "header_line_ok l \<longleftrightarrow> l \<noteq> [] \<and> CHR 0x0D \<notin> set l"

lemma split_header_text:
  "list_all header_line_ok ls \<Longrightarrow> split_header (header_text ls @ body) = Some (ls, body)"
proof (induction ls)
  case Nil
  then show ?case by (simp add: header_text_def split_header.simps crlf_def)
next
  case (Cons l ls)
  then have l: "CHR 0x0D \<notin> set l" "l \<noteq> []" by (simp_all add: header_line_ok_def)
  have t: "header_text (l # ls) @ body = l @ CHR 0x0D # CHR 0x0A # header_text ls @ body"
    by (simp add: header_text_def crlf_def)
  show ?case
    unfolding t using Cons l
    by (subst split_header.simps) (simp add: while_notin crlf_def)
qed

text \<open>
  \<open>fits\<close> are the bodies for which the response is built as promised (the length is printed into a fixed
  buffer).
\<close>

locale http_response =
  fixes fits :: "string \<Rightarrow> bool" and lines :: "string \<Rightarrow> string list" and render :: "string \<Rightarrow> string"
  assumes render: "fits body \<Longrightarrow> render body = header_text (lines body) @ body"
    and lines_ok: "fits body \<Longrightarrow> list_all header_line_ok (lines body)"
    and announced: "fits body \<Longrightarrow>
      List.find (starts_with clen) (lines body) = Some (clen @ show_nat (length body))"
begin

lemma client_reads: "fits body \<Longrightarrow> http_client (render body @ rest) = Some (body, rest)"
  by (simp add: http_client_def render split_header_text [OF lines_ok] announced strtol_show_nat)

lemma client_reads_two:
  "fits b1 \<Longrightarrow> fits b2 \<Longrightarrow>
   map_option (\<lambda>(b, rest). (b, http_client rest)) (http_client (render b1 @ render b2)) =
     Some (b1, Some (b2, []))"
  using client_reads [of b1 "render b2"] client_reads [of b2 "[]"] by simp

end

section \<open>Printing a length\<close>

lemma show_nat_length: "0 < k \<Longrightarrow> n < 10 ^ k \<Longrightarrow> length (show_nat n) \<le> k"
proof (induction k arbitrary: n)
  case (Suc k)
  show ?case
  proof (cases "n < 10")
    case True
    then show ?thesis by (simp add: show_nat.simps [of n])
  next
    case False
    then have "0 < k" using Suc.prems by (cases k) auto
    moreover have "n div 10 < 10 ^ k" using Suc.prems by (simp add: less_mult_imp_div_less mult.commute)
    ultimately show ?thesis using Suc.IH [of "n div 10"] False by (simp add: show_nat.simps [of n])
  qed
qed simp

text \<open>\<^verbatim>\<open>snprintf(buf, 20, "%lu", size)\<close>: 19 digits are enough for any size below \<open>10 ^ 19\<close>.\<close>

definition buf_size :: "string \<Rightarrow> bool" where
  "buf_size body \<longleftrightarrow> length body < 10 ^ 19"

lemma snprintf_length: "buf_size body \<Longrightarrow> snprintf 20 (show_nat (length body)) = show_nat (length body)"
  using show_nat_length [of 19 "length body"] by (simp add: snprintf_def buf_size_def)

lemma show_nat_line: "header_line_ok (clen @ show_nat n)"
  using show_nat_digits [of n] by (auto simp: header_line_ok_def clen_def is_digit_def)

end
