(* ===== verification/Page_Server.thy ===== *)
theory Page_Server
  imports Http_Response
begin

text \<open>
  \<^verbatim>\<open>PageServer.cc\<close>: static pages. The file system is an argument (what \<^verbatim>\<open>stat\<close> reports and what a file holds),
  and so is the installation prefix that is compiled into \<^verbatim>\<open>base_path\<close>.
\<close>

section \<open>Model\<close>

datatype file_kind = S_REG | S_DIR | S_OTHER

record fs =
  fs_stat :: "string \<Rightarrow> file_kind option"
  fs_content :: "string \<Rightarrow> string option"

definition base_path :: "string \<Rightarrow> string" where
  "base_path prefix = prefix @ ''/share/cogserver''"

definition getMimeType :: "string \<Rightarrow> string" where
  "getMimeType filename =
     (case rfind_chr (CHR ''.'') filename of
        None \<Rightarrow> ''application/octet-stream''
      | Some p \<Rightarrow>
          (let ext = drop p filename
           in if ext = ''.html'' \<or> ext = ''.htm'' then ''text/html''
              else if ext = ''.css'' then ''text/css''
              else if ext = ''.js'' then ''application/javascript''
              else if ext = ''.ico'' then ''image/x-icon''
              else ''application/octet-stream''))"

definition readFile :: "fs \<Rightarrow> string \<Rightarrow> string" where
  "readFile f filepath = (case fs_content f (c_str filepath) of None \<Rightarrow> [] | Some c \<Rightarrow> c)"

definition isSafePath :: "string \<Rightarrow> bool" where
  "isSafePath path \<longleftrightarrow> find_str ''..'' path = None"

definition not_found_body :: "string \<Rightarrow> string" where
  \<open>not_found_body url =
     ''<!DOCTYPE html>'' @ nl @ ''<html lang="en">'' @ nl
     @ ''<head><meta charset="UTF-8"></head>'' @ nl
     @ ''<body><h1>404 Not Found</h1>'' @ nl
     @ ''The Cogserver doesn'' @ [CHR 0x27] @ ''t know about '' @ url @ nl
     @ ''<p>The <a href="/stats">stats page is here</a>.'' @ nl
     @ ''<p>The <a href="/websockets/json-test.html">JSON test page is here</a>.'' @ nl
     @ ''<p>The <a href="/websockets/demo.html">websockets demo is here</a>.'' @ nl
     @ ''<p>The <a href="/visualizer/">visualizer is here</a>.'' @ nl
     @ ''</body></html>'' @ nl\<close>

text \<open>The response with a body of its own.\<close>

definition page_response :: "string \<Rightarrow> string \<Rightarrow> string \<Rightarrow> string" where
  "page_response status_line mime body =
     status_line @ crlf @ ''Server: CogServer'' @ crlf @ ''Content-Type: '' @ mime @ crlf
     @ ''Content-Length: '' @ show_nat (length body) @ crlf @ crlf @ body"

definition notFound :: "string \<Rightarrow> string" where
  "notFound url = page_response ''HTTP/1.1 404 Not Found'' ''text/html'' (not_found_body url)"

definition strip_query :: "string \<Rightarrow> string" where
  "strip_query url = (case find_chr (CHR ''?'') url of None \<Rightarrow> url | Some p \<Rightarrow> take p url)"

definition page_path :: "string \<Rightarrow> string \<Rightarrow> string" where
  "page_path base path =
     (if path = ''/'' \<or> path = [] then base @ ''/index.html''
      else if hd path = CHR ''/'' then base @ path
      else base @ ''/'' @ path)"

text \<open>The file to read: the one asked for, or the index page of a directory.\<close>

definition page_file :: "fs \<Rightarrow> string \<Rightarrow> string option" where
  "page_file f filepath =
     (case fs_stat f (c_str filepath) of
        None \<Rightarrow> None
      | Some S_REG \<Rightarrow> Some filepath
      | Some S_DIR \<Rightarrow>
          (if fs_stat f (c_str (filepath @ ''/index.html'')) = Some S_REG
           then Some (filepath @ ''/index.html'') else None)
      | Some S_OTHER \<Rightarrow> None)"

definition serve :: "fs \<Rightarrow> string \<Rightarrow> string \<Rightarrow> string" where
  "serve f prefix url =
     (let path = strip_query url
      in if \<not> isSafePath path then notFound url
      else case page_file f (page_path (base_path prefix) path) of
             None \<Rightarrow> notFound url
           | Some fp \<Rightarrow>
               (let content = readFile f fp
                in if content = [] then notFound url
                   else page_response ''HTTP/1.1 200 OK'' (getMimeType fp) content))"

section \<open>Responses\<close>

definition page_lines :: "string \<Rightarrow> string \<Rightarrow> string \<Rightarrow> string list" where
  "page_lines status_line mime body =
     [status_line, ''Server: CogServer'', ''Content-Type: '' @ mime, clen @ show_nat (length body)]"

lemma page_response_lines: "page_response st mime body = header_text (page_lines st mime body) @ body"
  by (simp add: page_response_def page_lines_def header_text_def clen_def)

lemma page_announced:
  "\<not> starts_with clen st \<Longrightarrow>
   List.find (starts_with clen) (page_lines st mime body) = Some (clen @ show_nat (length body))"
  by (simp add: page_lines_def clen_def)

lemma mime_ok: "header_line_ok (''Content-Type: '' @ getMimeType fp)"
  by (simp add: getMimeType_def header_line_ok_def Let_def split: option.splits)

interpretation not_found_page: http_response "\<lambda>_. True" "page_lines ''HTTP/1.1 404 Not Found'' ''text/html''"
  "page_response ''HTTP/1.1 404 Not Found'' ''text/html''"
proof
  fix body
  show "page_response ''HTTP/1.1 404 Not Found'' ''text/html'' body =
      header_text (page_lines ''HTTP/1.1 404 Not Found'' ''text/html'' body) @ body"
    by (rule page_response_lines)
  show "list_all header_line_ok (page_lines ''HTTP/1.1 404 Not Found'' ''text/html'' body)"
    by (simp add: page_lines_def show_nat_line) (simp add: header_line_ok_def)
  show "List.find (starts_with clen) (page_lines ''HTTP/1.1 404 Not Found'' ''text/html'' body) =
      Some (clen @ show_nat (length body))"
    by (rule page_announced) (simp add: clen_def)
qed

interpretation found_page: http_response "\<lambda>_. True" "page_lines ''HTTP/1.1 200 OK'' (getMimeType fp)"
  "page_response ''HTTP/1.1 200 OK'' (getMimeType fp)" for fp
proof
  fix body
  show "page_response ''HTTP/1.1 200 OK'' (getMimeType fp) body =
      header_text (page_lines ''HTTP/1.1 200 OK'' (getMimeType fp) body) @ body"
    by (rule page_response_lines)
  show "list_all header_line_ok (page_lines ''HTTP/1.1 200 OK'' (getMimeType fp) body)"
    using mime_ok [of fp] by (simp add: page_lines_def show_nat_line) (simp add: header_line_ok_def)
  show "List.find (starts_with clen) (page_lines ''HTTP/1.1 200 OK'' (getMimeType fp) body) =
      Some (clen @ show_nat (length body))"
    by (rule page_announced) (simp add: clen_def)
qed

section \<open>What is served\<close>

lemma page_file_Some:
  "page_file f filepath = Some fp \<Longrightarrow>
     fs_stat f (c_str fp) = Some S_REG \<and> (fp = filepath \<or> fp = filepath @ ''/index.html'')"
  by (auto simp: page_file_def split: option.splits file_kind.splits if_splits)

lemma serve_cases:
  obtains (missing) "serve f prefix url = notFound url"
    | (page) fp where "serve f prefix url = page_response ''HTTP/1.1 200 OK'' (getMimeType fp) (readFile f fp)"
        "isSafePath (strip_query url)" "page_file f (page_path (base_path prefix) (strip_query url)) = Some fp"
proof (cases "\<exists>fp. isSafePath (strip_query url) \<and> page_file f (page_path (base_path prefix) (strip_query url)) = Some fp
    \<and> readFile f fp \<noteq> []")
  case True
  then obtain fp where "isSafePath (strip_query url)"
    "page_file f (page_path (base_path prefix) (strip_query url)) = Some fp" "readFile f fp \<noteq> []" by blast
  then show thesis by (intro page [of fp]) (simp_all add: serve_def)
next
  case False
  then have "serve f prefix url = notFound url" by (auto simp: serve_def Let_def split: option.splits)
  then show thesis by (rule missing)
qed

text \<open>
  Every answer of the page server, to any request whatsoever, is a well-formed HTTP response: a client
  that follows its \<^verbatim>\<open>Content-Length\<close> reads either the 404 page or the content of a file, completely, and
  finds the next response where it starts.
\<close>

theorem serve_content_length:
  "\<exists>body. http_client (serve f prefix url @ rest) = Some (body, rest)
     \<and> (body = not_found_body url \<or> (\<exists>fp. body = readFile f fp))"
proof (cases rule: serve_cases [of f prefix url])
  case missing
  then show ?thesis using not_found_page.client_reads [of "not_found_body url" rest] by (simp add: notFound_def)
next
  case (page fp)
  then show ?thesis using found_page.client_reads [of fp "readFile f fp" rest] by auto
qed

lemma no_dots_append:
  assumes "find_str ''..'' a = None" "find_str ''..'' b = None" "a = [] \<or> b = [] \<or> last a \<noteq> CHR ''.'' \<or> hd b \<noteq> CHR ''.''"
  shows "find_str ''..'' (a @ b) = None"
  using assms
proof (induction a)
  case (Cons x a)
  then show ?case by (cases a; cases b) (auto split: if_splits)
qed simp

lemma page_path_safe:
  assumes "isSafePath path"
  shows "\<exists>t. page_path base path = base @ CHR ''/'' # t \<and> isSafePath (CHR ''/'' # t)"
proof -
  have slash: "find_str ''..'' (CHR ''/'' # t) = find_str ''..'' t" if "find_str ''..'' t = None" for t
    using that by simp
  show ?thesis
  proof (cases "path = ''/'' \<or> path = []")
    case False
    then show ?thesis
      using assms slash [of path]
      by (cases path) (auto simp: page_path_def isSafePath_def split: if_splits)
  qed (auto simp: page_path_def isSafePath_def)
qed

text \<open>
  C12. No request leads out of the page directory: the file that is opened lies below \<^verbatim>\<open>base_path\<close>, and the part of
  its path below that directory has no \<^verbatim>\<open>..\<close> in it.
\<close>

theorem serve_inside_base:
  "serve f prefix url = notFound url \<or>
   (\<exists>t. isSafePath (CHR ''/'' # t) \<and> fs_stat f (c_str (base_path prefix @ CHR ''/'' # t)) = Some S_REG
      \<and> serve f prefix url = page_response ''HTTP/1.1 200 OK'' (getMimeType (base_path prefix @ CHR ''/'' # t))
          (readFile f (base_path prefix @ CHR ''/'' # t)))"
proof (cases rule: serve_cases [of f prefix url])
  case (page fp)
  obtain t where t: "page_path (base_path prefix) (strip_query url) = base_path prefix @ CHR ''/'' # t"
    "isSafePath (CHR ''/'' # t)"
    using page_path_safe [OF page(2)] by blast
  have "isSafePath ((CHR ''/'' # t) @ ''/index.html'')"
    using t(2) unfolding isSafePath_def by (intro no_dots_append) auto
  with page(1) page_file_Some [OF page(3)] t show ?thesis by auto
qed simp

text \<open>A request for an existing page is answered with it.\<close>

lemma serve_page:
  assumes "isSafePath (strip_query url)"
    and "fs_stat f (c_str (page_path (base_path prefix) (strip_query url))) = Some S_REG"
    and "fs_content f (c_str (page_path (base_path prefix) (strip_query url))) = Some content" "content \<noteq> []"
  shows "serve f prefix url = page_response ''HTTP/1.1 200 OK''
      (getMimeType (page_path (base_path prefix) (strip_query url))) content"
  using assms by (simp add: serve_def page_file_def readFile_def)

end
