(* ===== verification/Web_Server.thy ===== *)
theory Web_Server
  imports Page_Server Console Base64
begin

text \<open>
  \<^verbatim>\<open>WebServer.cc\<close>: the HTTP and websocket front end. What \<^verbatim>\<open>OnConnection\<close> does with a URL, how \<^verbatim>\<open>OnLine\<close> runs a
  request and answers it, and the built-in pages.
\<close>

section \<open>Responses\<close>

text \<open>The length goes through a buffer of 20 bytes.\<close>

definition buf_len :: "string \<Rightarrow> string" where
  "buf_len body = snprintf 20 (show_nat (length body))"

definition favicon :: "string \<Rightarrow> string" where
  "favicon bicon =
     (let icon = base64_decode bicon
      in ''HTTP/1.1 200 OK'' @ crlf @ ''Server: CogServer'' @ crlf @ ''Content-Length: '' @ buf_len icon @ crlf
         @ ''Content-Type: image/vnd.microsoft.icon'' @ crlf @ crlf @ icon)"

definition json_response :: "string \<Rightarrow> string \<Rightarrow> string" where
  "json_response status_line json_body =
     status_line @ crlf @ ''Server: CogServer'' @ crlf @ ''Content-Type: application/json'' @ crlf
     @ ''Content-Length: '' @ buf_len json_body @ crlf @ crlf @ json_body"

definition oauth_protected_resource :: string where
  "oauth_protected_resource = json_response ''HTTP/1.1 200 OK'' ''{}''"

text \<open>\<open>port\<close> is the value of \<^verbatim>\<open>CogServer::getWebServerPort\<close>, a \<^verbatim>\<open>short\<close>.\<close>

definition oauth_authorization_server :: "16 word \<Rightarrow> string \<Rightarrow> string" where
  \<open>oauth_authorization_server port host =
     (let issuer_url = ''http://''
            @ (if host \<noteq> [] then host else ''localhost:'' @ show_int (sint port))
      in json_response ''HTTP/1.1 200 OK'' (''{"issuer":"'' @ issuer_url @ ''"}''))\<close>

definition oauth_register_not_required :: string where
  \<open>oauth_register_not_required =
     json_response ''HTTP/1.1 400 Bad Request''
       ''{"error":"registration_not_supported","error_description":"This MCP server does not require OAuth registration"}''\<close>

definition web_response :: "string \<Rightarrow> string \<Rightarrow> string" where
  "web_response content_type msg =
     ''HTTP/1.1 200 OK'' @ crlf @ ''Server: CogServer'' @ crlf @ ''Content-Type: '' @ content_type @ crlf
     @ ''Content-Length: '' @ buf_len msg @ crlf @ crlf @ msg"

definition SendWithHeader :: "string \<Rightarrow> string \<Rightarrow> ('a server_socket_scheme, unit) act" where
  "SendWithHeader msg content_type = Send (web_response content_type msg)"

definition html_lines :: "string list \<Rightarrow> string" where
  "html_lines ls = concat (map (\<lambda>l. l @ nl) ls)"

definition html_style :: "string list" where
  \<open>html_style =
     [''  <style>'',
      ''    body {'', ''      font-family: monospace;'', ''      margin: 20px;'', ''      line-height: 1.6;'',
      ''      background: #fafafa;'', ''    }'',
      ''    h1 {'', ''      border-bottom: 2px solid #333;'', ''      padding-bottom: 10px;'', ''      color: #333;'', ''    }'',
      ''    h2 {'', ''      border-bottom: 1px solid #ccc;'', ''      padding-bottom: 5px;'', ''      margin-top: 30px;'',
      ''      color: #444;'', ''    }'',
      ''    pre {'', ''      background: #f0f0f0;'', ''      padding: 15px;'', ''      border: 1px solid #ccc;'',
      ''      border-radius: 4px;'', ''      overflow-x: auto;'', ''      font-size: 14px;'', ''      line-height: 1.4;'', ''    }'',
      ''    a {'', ''      color: #007bff;'', ''      text-decoration: none;'', ''    }'',
      ''    a:hover {'', ''      text-decoration: underline;'', ''    }'',
      ''  </style>'']\<close>

text \<open>The status page has no \<^verbatim>\<open>Content-Length\<close>: its end is the end of the connection.\<close>

definition html_stats :: "string \<Rightarrow> string \<Rightarrow> string \<Rightarrow> string" where
  \<open>html_stats modules stats legend =
     ''HTTP/1.1 200 OK'' @ crlf @ ''Server: CogServer'' @ crlf @ ''Content-Type: text/html'' @ crlf @ crlf
     @ html_lines
         ([''<!DOCTYPE html>'', ''<html lang="en">'', ''<head>'', ''  <meta charset="UTF-8">'',
           ''  <meta name="viewport" content="width=device-width, initial-scale=1.0">'',
           ''  <title>CogServer Status</title>'']
          @ html_style
          @ [''</head>'', ''<body>'', ''  <h1>CogServer Status</h1>'', ''  <h2>Loaded Modules</h2>'', ''  <pre>''])
     @ modules
     @ html_lines [''</pre>'', ''  <h2>Connection Statistics</h2>'', ''  <pre>'']
     @ stats
     @ html_lines [''</pre>'', ''  <h2>Connection Stats Legend</h2>''] @ ''  <pre>''
     @ legend
     @ html_lines [''</pre>'', ''</body>''] @ ''</html>''\<close>

section \<open>State and environment\<close>

text \<open>\<open>web_request\<close> is the pointer \<^verbatim>\<open>_request\<close>, by the class of the request.\<close>

record web_server = console_socket +
  web_request :: "RequestClassInfo option"

text \<open>
  What the web server asks of the rest: the commands, the texts of the status page, the port, the pages and
  the icon; executing a request on this console; the shell's threaded \<^verbatim>\<open>eval\<close>.
\<close>

record 's web_env =
  web_create :: "string \<Rightarrow> RequestClassInfo option"
  web_modules :: string
  web_stats :: string
  web_legend :: string
  web_port :: "16 word"
  web_fs :: fs
  web_prefix :: string
  web_bicon :: string
  web_execute :: "RequestClassInfo \<Rightarrow> string list \<Rightarrow> 's \<Rightarrow> 's"
  web_shell_eval :: "string \<Rightarrow> ('s, unit) act"

definition new_web_server :: "int \<Rightarrow> web_server" where
  "new_web_server now = console_socket.extend (new_console_socket now) \<lparr>web_request = None\<rparr>"

definition answer_and_close :: "string \<Rightarrow> ('a server_socket_scheme, unit) act" where
  "answer_and_close response = act_seq (Send response) (act_throw Silent_exception)"

definition web_OnConnection ::
  "('a web_server_scheme) web_env \<Rightarrow> ('a web_server_scheme, unit) act" where
  "web_OnConnection env s =
     (if url s = ''/favicon.ico'' then answer_and_close (favicon (web_bicon env)) s
      else if url s = ''/stats''
      then answer_and_close (html_stats (web_modules env) (web_stats env) (web_legend env)) s
      else if url s = ''/.well-known/oauth-protected-resource''
      then answer_and_close oauth_protected_resource s
      else if url s = ''/.well-known/oauth-authorization-server''
      then answer_and_close (oauth_authorization_server (web_port env) (host_header s)) s
      else if url s = ''/register'' then answer_and_close oauth_register_not_required s
      else act_bind (act_of_res (substr (url s) 1 None))
             (\<lambda>cmdName s.
                case web_create env cmdName of
                  None \<Rightarrow> answer_and_close (serve (web_fs env) (web_prefix env) (url s))
                            (s\<lparr>web_request := None\<rparr>)
                | Some f \<Rightarrow> (Inr (), s\<lparr>web_request := Some f\<rparr>)) s)"

text \<open>
  The collection of results: poll until an empty chunk comes. \<^const>\<open>None\<close> when this does not end, because a poll
  blocks or because there is always more.
\<close>

partial_function (option) collect_results :: "'e eval_ops \<Rightarrow> string \<Rightarrow> 'e \<Rightarrow> (string \<times> 'e) option" where
  "collect_results eo result e =
     (if \<not> ev_ready eo e then None
      else case ev_poll eo e of (chunk, e1) \<Rightarrow>
        if chunk = [] then Some (result, e1) else collect_results eo (result @ chunk) e1)"

declare collect_results.simps [code]

text \<open>The first part of \<^verbatim>\<open>OnLine\<close>: the pending request makes the shell.\<close>

definition web_make_shell :: "('a web_server_scheme) web_env \<Rightarrow> ('a web_server_scheme, unit) act" where
  "web_make_shell env s =
     (case web_request s of
        None \<Rightarrow> (Inr (), s)
      | Some f \<Rightarrow>
          (let s1 = cs_put (web_execute env f [''hush''] (cs_get s));
               s2 = s1\<lparr>web_request := None\<rparr>
           in if console_shell s2 = None then (Inl Null_pointer, s2) else (Inr (), s2)))"

text \<open>
  \<^verbatim>\<open>OnLine\<close>, with the evaluator of the shell as a second piece of state; a null shell pointer is followed
  blindly.
\<close>

definition web_OnLine ::
  "('a web_server_scheme) web_env \<Rightarrow> 'e eval_ops \<Rightarrow> string \<Rightarrow> 'a web_server_scheme \<times> 'e \<Rightarrow>
   (unit res \<times> 'a web_server_scheme \<times> 'e) option" where
  "web_OnLine env eo line se =
     (case se of (s, e) \<Rightarrow>
      case web_make_shell env s of
        (Inl x, s1) \<Rightarrow> Some (Inl x, s1, e)
      | (Inr _, s1) \<Rightarrow>
          (case console_shell s1 of
             None \<Rightarrow> Some (Inl Null_pointer, s1, e)
           | Some sh \<Rightarrow>
               if got_websock_header s1
               then (case web_shell_eval env line s1 of (res, s2) \<Rightarrow> Some (res, s2, e))
               else
                 (case ev_eval eo line (ev_begin eo e) of
                    (Inl x, e1) \<Rightarrow> Some (Inl x, s1, e1)
                  | (Inr _, e1) \<Rightarrow>
                      (case collect_results eo [] e1 of
                         None \<Rightarrow> None
                       | Some (result, e2) \<Rightarrow>
                           if result = [] then Some (Inr (), s1, e2)
                           else
                             (case SendWithHeader result
                                (if sv_name sh = ''mcp'' \<or> sv_name sh = ''json'' then ''application/json''
                                 else ''text/plain'') s1 of
                                (res, s2) \<Rightarrow> Some (res, s2, e2))))))"

section \<open>The responses keep the contract\<close>

definition web_lines :: "string \<Rightarrow> string \<Rightarrow> string list" where
  "web_lines content_type msg =
     [''HTTP/1.1 200 OK'', ''Server: CogServer'', ''Content-Type: '' @ content_type, clen @ show_nat (length msg)]"

definition json_lines :: "string \<Rightarrow> string \<Rightarrow> string list" where
  "json_lines status_line msg =
     [status_line, ''Server: CogServer'', ''Content-Type: application/json'', clen @ show_nat (length msg)]"

interpretation web_page: http_response "\<lambda>body. buf_size body \<and> CHR 0x0D \<notin> set content_type"
  "web_lines content_type" "web_response content_type" for content_type
proof
  fix body assume "buf_size body \<and> CHR 0x0D \<notin> set content_type"
  then have b: "buf_size body" "CHR 0x0D \<notin> set content_type" by simp_all
  show "web_response content_type body = header_text (web_lines content_type body) @ body"
    using snprintf_length [OF b(1)]
    by (simp add: web_response_def web_lines_def header_text_def buf_len_def clen_def)
  show "list_all header_line_ok (web_lines content_type body)"
    using b(2) by (simp add: web_lines_def show_nat_line) (simp add: header_line_ok_def)
  show "List.find (starts_with clen) (web_lines content_type body) = Some (clen @ show_nat (length body))"
    by (simp add: web_lines_def clen_def)
qed

interpretation json_ok: http_response buf_size "json_lines ''HTTP/1.1 200 OK''" "json_response ''HTTP/1.1 200 OK''"
proof
  fix body assume b: "buf_size body"
  show "json_response ''HTTP/1.1 200 OK'' body = header_text (json_lines ''HTTP/1.1 200 OK'' body) @ body"
    using snprintf_length [OF b]
    by (simp add: json_response_def json_lines_def header_text_def buf_len_def clen_def)
  show "list_all header_line_ok (json_lines ''HTTP/1.1 200 OK'' body)"
    by (simp add: json_lines_def show_nat_line) (simp add: header_line_ok_def)
  show "List.find (starts_with clen) (json_lines ''HTTP/1.1 200 OK'' body) = Some (clen @ show_nat (length body))"
    by (simp add: json_lines_def clen_def)
qed

interpretation json_bad: http_response buf_size "json_lines ''HTTP/1.1 400 Bad Request''"
  "json_response ''HTTP/1.1 400 Bad Request''"
proof
  fix body assume b: "buf_size body"
  show "json_response ''HTTP/1.1 400 Bad Request'' body =
      header_text (json_lines ''HTTP/1.1 400 Bad Request'' body) @ body"
    using snprintf_length [OF b]
    by (simp add: json_response_def json_lines_def header_text_def buf_len_def clen_def)
  show "list_all header_line_ok (json_lines ''HTTP/1.1 400 Bad Request'' body)"
    by (simp add: json_lines_def show_nat_line) (simp add: header_line_ok_def)
  show "List.find (starts_with clen) (json_lines ''HTTP/1.1 400 Bad Request'' body) =
      Some (clen @ show_nat (length body))"
    by (simp add: json_lines_def clen_def)
qed

section \<open>Requests over HTTP\<close>

text \<open>
  An evaluator that answers a line: after \<^verbatim>\<open>begin_eval\<close> and \<^verbatim>\<open>eval_expr\<close> the polls return the chunks in turn, and
  then nothing.
\<close>

fun polls :: "'e eval_ops \<Rightarrow> 'e \<Rightarrow> string list \<Rightarrow> 'e \<Rightarrow> bool" where
  "polls eo e [] e' \<longleftrightarrow> ev_ready eo e \<and> ev_poll eo e = ([], e')"
| "polls eo e (c # cs) e' \<longleftrightarrow>
     c \<noteq> [] \<and> ev_ready eo e \<and> fst (ev_poll eo e) = c \<and> polls eo (snd (ev_poll eo e)) cs e'"

lemma collect_polls: "polls eo e cs e' \<Longrightarrow> collect_results eo acc e = Some (acc @ concat cs, e')"
proof (induction cs arbitrary: e acc)
  case Nil
  then show ?case by (subst collect_results.simps) simp
next
  case (Cons c cs)
  then show ?case by (subst collect_results.simps) (simp add: case_prod_beta)
qed


text \<open>
  A URL that names a command which is not a shell (help, list, shutdown): the command runs, and then the server
  follows the null pointer to the shell that the command did not make.
\<close>

theorem http_plain_command_crashes:
  assumes "web_request s = Some f" "console_shell (cs_put (web_execute env f [''hush''] (cs_get s))) = None"
  shows "\<exists>s'. web_OnLine env eo line (s, e) = Some (Inl Null_pointer, s', e)"
  using assms by (simp add: web_OnLine_def web_make_shell_def Let_def)

text \<open>
  A request line with an empty URL: \<^verbatim>\<open>substr(1)\<close> throws \<^verbatim>\<open>std::out_of_range\<close>, which nothing on the way catches, and the
  server is terminated.
\<close>

theorem empty_url_terminates:
  fixes h :: "('a web_server_scheme) handlers"
  assumes "OnConnection h = web_OnConnection env" "is_http_socket s" "\<not> got_http_header s" "\<not> do_frame_io s"
    and "\<not> got_first_line s" "rx_clean r" "rx_bytes r = ''GET  HTTP/1.1'' @ crlf @ crlf @ rest"
  shows "fst (handle_connection h thread r s) = Terminated Out_of_range"
proof -
  let ?t = "s\<lparr>tid := thread\<rparr>"
  let ?s = "(got_line h ?t)\<lparr>got_first_line := True, url := []\<rparr>"
  have hs: "header_state ?t" "header_state ?s" using assms(2-4) by (simp_all add: header_state_def)
  have g: "HandshakeLine (sha1 h) (OnConnection h) ''GET  HTTP/1.1'' (got_line h ?t) = (Inr (), ?s)"
    using assms(5) request_url_ok [of "[]" "''GET ''" "''HTTP/1.1''"]
    by (simp add: HandshakeLine_def first_line_def eval_nat_numeral)
  have b0: "[] @ rx_bytes r = ''GET  HTTP/1.1'' @ crlf @ crlf @ rest" using assms(7) by simp
  have pl: "plain_line (''GET  HTTP/1.1'' @ [CHR 0x0D])" "plain_line ([] @ [CHR 0x0D])"
    by (simp_all add: plain_line_def dbus_garbage_def)
  obtain b1 r1 where 1: "b1 @ rx_bytes r1 = [] @ crlf @ rest" "rx_clean r1"
    "conn_loop h [] r ?t = conn_loop h b1 r1 ?s"
    using http_header_step [OF hs(1) pl(1) assms(6) b0 g hs(2)] by auto
  obtain b2 r2 where "conn_step h b1 r1 ?s =
       (case process_line h [] b2 r2 (got_line h ?s) of
          (Inl e, b2, r2, s2) \<Rightarrow> (case catch_exn e b2 r2 of (oc, b3, r3) \<Rightarrow> (oc, b3, r3, s2))
        | (Inr _, b2, r2, s2) \<Rightarrow> (Again, b2, r2, s2))"
    by (rule http_step [OF hs(2) pl(2) 1(2,1)])
  moreover have "process_line h [] b2 r2 (got_line h ?s) =
      (Inl Out_of_range, b2, r2, (got_line h ?s)\<lparr>got_http_header := True\<rparr>)"
    using assms(1,2,3) by (simp add: process_line_def HandshakeLine_def header_done_def web_OnConnection_def
        substr_def got_line_def)
  ultimately have "conn_step h b1 r1 ?s = (Uncaught Out_of_range, b2, r2, (got_line h ?s)\<lparr>got_http_header := True\<rparr>)"
    by (simp add: catch_exn_def)
  with 1(3) assms(2) show ?thesis by (simp add: handle_connection_def conn_loop.simps [of h b1])
qed

section \<open>Instances\<close>

definition demo_web_env :: "web_server web_env" where
  "demo_web_env =
     \<lparr>web_create = (\<lambda>n. if n = ''help'' then Some help_info else None), web_modules = [], web_stats = [],
      web_legend = [], web_port = 18080, web_fs = \<lparr>fs_stat = (\<lambda>_. None), fs_content = (\<lambda>_. None)\<rparr>,
      web_prefix = ''/usr/local'', web_bicon = [], web_execute = (\<lambda>f ps s. s),
      web_shell_eval = (\<lambda>l s. (Inr (), s))\<rparr>"

definition demo_web :: web_server where
  "demo_web = (set_connection (new_web_server 0))\<lparr>is_http_socket := True\<rparr>"

text \<open>An evaluator that says the line back, byte by byte.\<close>

definition spell_eval :: "string eval_ops" where
  "spell_eval =
     \<lparr>ev_begin = (\<lambda>e. []), ev_eval = (\<lambda>x e. (Inr (), x)), ev_ready = (\<lambda>e. True),
      ev_poll = (\<lambda>e. (take 1 e, drop 1 e)), ev_interrupt = (\<lambda>e. []), ev_clear_pending = (\<lambda>e. e),
      ev_input_pending = (\<lambda>e. False), ev_error = (\<lambda>e. False), ev_error_string = (\<lambda>e. [])\<rparr>"

lemmas demo_web_defs = demo_web_def demo_web_env_def new_web_server_def new_console_socket_def
  new_server_socket_def set_connection_def server_socket.extend_def console_socket.extend_def

definition demo_shell :: shell_view where
  "demo_shell = \<lparr>sv_name = ''json'', sv_queued = 0, sv_eval_done = True, sv_pending = 0, sv_is_eval_thread = False\<rparr>"


theorem http_plain_command_crashes_witness:
  "\<exists>s'. web_OnLine demo_web_env null_eval [] (demo_web\<lparr>web_request := Some help_info\<rparr>, ()) =
      Some (Inl Null_pointer, s', ())"
  by (rule http_plain_command_crashes) (simp_all add: demo_web_defs cs_put_def cs_get_def)

definition demo_web_handlers :: "web_server handlers" where
  "demo_web_handlers = \<lparr>sha1 = (\<lambda>s. s), OnConnection = web_OnConnection demo_web_env,
     OnLine = (\<lambda>l s. (Inr (), s)), clock = int\<rparr>"

theorem empty_url_terminates_witness:
  "fst (handle_connection demo_web_handlers 1 [Chunk (''GET  HTTP/1.1'' @ crlf), Chunk crlf] demo_web)
   = Terminated Out_of_range"
  by (rule empty_url_terminates [where env = demo_web_env and rest = "[]"])
    (simp_all add: demo_web_handlers_def demo_web_defs)

end
