(* ===== verification/Cog_Server.thy ===== *)
theory Cog_Server
  imports Network_Server Web_Server
begin

text \<open>
  \<^verbatim>\<open>CogServer.cc\<close> and \<^verbatim>\<open>CogServerNode.cc\<close>: the server object with its three ports, and the node through which it is
  configured, started and stopped. The main loop is in theory \<open>Server_Loop\<close>.
\<close>

section \<open>State\<close>

text \<open>
  The values that can be attached to the node, by the name of the predicate; the numbers are after the conversion
  to \<^verbatim>\<open>int\<close>.
\<close>

datatype node_value = Float_value "int list" | Number_node int | String_value string | Bool_value bool | Void_value

text \<open>\<open>main_loop\<close> says that the pointer \<^verbatim>\<open>_main_loop\<close> is set.\<close>

record 'q cog_server = "'q request_manager" +
  node_values :: "node_value smap"
  consoleServer :: "net_server option"
  webServer :: "net_server option"
  mcpServer :: "net_server option"
  cs_running :: bool
  main_loop :: bool

definition new_cog_server :: "'q \<Rightarrow> consoles \<Rightarrow> 'q cog_server" where
  "new_cog_server q cs =
     \<lparr>factories = [], requestQueue = q, rm_consoles = cs, node_values = [], consoleServer = None, webServer = None,
      mcpServer = None, cs_running = False, main_loop = False\<rparr>"

text \<open>
  The build options, the time, and what the operating system grants when the ports in the list are taken by this
  server already.
\<close>

record machine =
  have_openssl :: bool
  have_mcp :: bool
  time_now :: int
  grants :: "16 word list \<Rightarrow> acceptor_env"

section \<open>Ports\<close>

text \<open>Reading element 0 of an empty vector goes through a null pointer.\<close>

definition get_port :: "string \<Rightarrow> 'q cog_server \<Rightarrow> int res" where
  "get_port key s =
     (case sm_find key (node_values s) of
        None \<Rightarrow> Inr 0
      | Some (Float_value l) \<Rightarrow> (case l of [] \<Rightarrow> Inl Null_pointer | p # _ \<Rightarrow> Inr p)
      | Some (Number_node p) \<Rightarrow> Inr p
      | Some _ \<Rightarrow> Inr 0)"

definition taken :: "'q cog_server \<Rightarrow> 16 word list" where
  "taken s = map ns_port (concat (map (\<lambda>x. case x of None \<Rightarrow> [] | Some ns \<Rightarrow> [ns]) [consoleServer s, webServer s, mcpServer s]))"

text \<open>The part that the three \<^verbatim>\<open>enable\<close> methods share: \<^const>\<open>None\<close> when the port is not to be opened.\<close>

definition open_server :: "machine \<Rightarrow> string \<Rightarrow> string \<Rightarrow> conn_class \<Rightarrow> 'q cog_server \<Rightarrow> net_server option res" where
  "open_server mc key name c s =
     res_bind (get_port key s) (\<lambda>port.
       if port \<le> 0 then Inr None
       else res_bind (new_network_server (grants mc (taken s)) (word_of_int port) name (time_now mc)) (\<lambda>ns.
              Inr (Some (ns_run c ns))))"

definition enableNetworkServer :: "machine \<Rightarrow> ('q cog_server, unit) act" where
  "enableNetworkServer mc s =
     (if consoleServer s \<noteq> None then (Inr (), s)
      else case open_server mc ''*-telnet-port-*'' ''Telnet Server'' Telnet_conn s of
             Inl e \<Rightarrow> (Inl e, s)
           | Inr srv \<Rightarrow> (Inr (), s\<lparr>consoleServer := srv\<rparr>))"

definition enableWebServer :: "machine \<Rightarrow> ('q cog_server, unit) act" where
  "enableWebServer mc s =
     (if \<not> have_openssl mc then (Inr (), s)
      else if webServer s \<noteq> None then (Inr (), s)
      else case open_server mc ''*-web-port-*'' ''WebSocket Server'' Web_conn s of
             Inl e \<Rightarrow> (Inl e, s)
           | Inr srv \<Rightarrow> (Inr (), s\<lparr>webServer := srv\<rparr>))"

definition enableMCPServer :: "machine \<Rightarrow> ('q cog_server, unit) act" where
  "enableMCPServer mc s =
     (if \<not> have_mcp mc then (Inr (), s)
      else if mcpServer s \<noteq> None then (Inr (), s)
      else case open_server mc ''*-mcp-port-*'' ''Model Context Protocol Server'' Mcp_conn s of
             Inl e \<Rightarrow> (Inl e, s)
           | Inr srv \<Rightarrow> (Inr (), s\<lparr>mcpServer := srv\<rparr>))"

definition getWebServerPort :: "'q cog_server \<Rightarrow> 16 word" where
  "getWebServerPort s = (case webServer s of Some ns \<Rightarrow> ns_port ns | None \<Rightarrow> 0)"

section \<open>Running and stopping\<close>

definition set_running :: "'q cog_server \<Rightarrow> bool \<times> 'q cog_server" where
  "set_running s = (cs_running s, s\<lparr>cs_running := True\<rparr>)"

definition cog_stop :: "(request, 'q) cq_ops \<Rightarrow> ('q, 'a) cog_server_scheme \<Rightarrow> ('q, 'a) cog_server_scheme" where
  "cog_stop qo s = s\<lparr>cs_running := False, requestQueue := cq_cancel qo (requestQueue s)\<rparr>"

text \<open>\<^verbatim>\<open>startServers\<close>: a \<^verbatim>\<open>std::exception\<close> is logged; following a null pointer is not one.\<close>

definition startServers :: "machine \<Rightarrow> ('q cog_server, bool) act" where
  "startServers mc s =
     (case set_running s of (was_running, s0) \<Rightarrow>
        if was_running then (Inr False, s0)
        else case act_seq (enableNetworkServer mc) (act_seq (enableWebServer mc) (enableMCPServer mc)) s0 of
               (Inl Null_pointer, s1) \<Rightarrow> (Inl Null_pointer, s1)
             | (_, s1) \<Rightarrow> (Inr True, s1))"

text \<open>The \<^verbatim>\<open>disable\<close> methods do nothing.\<close>

definition stopServers :: "'q cog_server \<Rightarrow> 'q cog_server" where
  "stopServers s = s"

definition node_setAtomSpace :: "'q cog_server \<Rightarrow> 'q cog_server" where
  "node_setAtomSpace s =
     s\<lparr>node_values := fold (\<lambda>(k, v). sm_put k v)
        [(''*-telnet-port-*'', Float_value [17001]), (''*-web-port-*'', Float_value [18080]),
         (''*-mcp-port-*'', Float_value [18888]),
         (''*-ansi-prompt-*'', String_value ([CHR 0x1B] @ ''[0;32mopencog'' @ [CHR 0x1B] @ ''[1;32m> '' @ [CHR 0x1B] @ ''[0m'')),
         (''*-prompt-*'', String_value ''opencog> ''),
         (''*-ansi-scm-prompt-*'', String_value ([CHR 0x1B] @ ''[0;34mguile'' @ [CHR 0x1B] @ ''[1;34m> '' @ [CHR 0x1B] @ ''[0m'')),
         (''*-scm-prompt-*'', String_value ''guile> ''),
         (''*-ansi-enabled-*'', Bool_value True)] (node_values s)\<rparr>"

text \<open>
  Messages to the node. What happens to the main loop: nothing, a new thread runs it, the calling thread runs it, or
  the thread is waited for. \<open>hash\<close> is \<^verbatim>\<open>dispatch_hash\<close>.
\<close>

datatype loop_action = No_action | Spawn_loop | Run_loop | Join_loop

definition node_setValue ::
  "machine \<Rightarrow> (string \<Rightarrow> 32 word) \<Rightarrow> (request, 'q) cq_ops \<Rightarrow> string \<Rightarrow> node_value \<Rightarrow> ('q cog_server, loop_action) act" where
  "node_setValue mc hash qo pred v s =
     (if hash pred = hash ''*-start-*''
      then (case startServers mc s of
              (Inl e, s1) \<Rightarrow> (Inl e, s1)
            | (Inr started, s1) \<Rightarrow>
                if \<not> started then (Inr No_action, s1) else (Inr Spawn_loop, s1\<lparr>main_loop := True\<rparr>))
      else if hash pred = hash ''*-stop-*''
      then (if \<not> cs_running s then (Inr No_action, s)
            else let s1 = cog_stop qo s
                 in if main_loop s1 then (Inr Join_loop, stopServers (s1\<lparr>main_loop := False\<rparr>))
                    else (Inr No_action, stopServers s1))
      else if hash pred = hash ''*-run-*''
      then (case startServers mc s of
              (Inl e, s1) \<Rightarrow> (Inl e, s1)
            | (Inr started, s1) \<Rightarrow> (Inr Run_loop, stopServers s1))
      else (Inr No_action, s\<lparr>node_values := sm_put pred v (node_values s)\<rparr>))"

definition node_getValue :: "(string \<Rightarrow> 32 word) \<Rightarrow> string \<Rightarrow> 'q cog_server \<Rightarrow> node_value option" where
  "node_getValue hash pred s =
     (if hash pred = hash ''*-is-running?-*'' then Some (Bool_value (cs_running s)) else sm_find pred (node_values s))"

section \<open>Properties\<close>

lemma node_values_simps [simp]:
  "node_values (s\<lparr>consoleServer := x\<rparr>) = node_values s" "node_values (s\<lparr>webServer := x\<rparr>) = node_values s"
  "node_values (s\<lparr>cs_running := b\<rparr>) = node_values s"
  by simp_all

lemma get_port_cong: "node_values s = node_values s' \<Longrightarrow> get_port k s = get_port k s'"
  by (simp add: get_port_def)

lemma sm_inv_fold_put: "sm_inv m \<Longrightarrow> sm_inv (fold (\<lambda>(k, v). sm_put k v) kvs m)"
  by (induction kvs arbitrary: m) (auto simp: sm_put_inv simp del: sm_put.simps)

lemma default_ports:
  assumes "sm_inv (node_values s)"
  shows "get_port ''*-telnet-port-*'' (node_setAtomSpace s) = Inr 17001"
    "get_port ''*-web-port-*'' (node_setAtomSpace s) = Inr 18080"
    "get_port ''*-mcp-port-*'' (node_setAtomSpace s) = Inr 18888"
  using assms by (simp_all add: get_port_def node_setAtomSpace_def sm_find_put sm_put_inv del: sm_put.simps)

definition grants_all :: "machine \<Rightarrow> bool" where
  "grants_all mc \<longleftrightarrow> have_openssl mc \<and> have_mcp mc \<and> (\<forall>l p. p \<notin> set l \<longrightarrow> listens (grants mc l) V6 p)"

lemma open_granted:
  assumes "grants_all mc" "get_port key s = Inr p" "0 < p" "word_of_int p \<notin> set (taken s)"
  shows "\<exists>ns. open_server mc key name c s = Inr (Some ns) \<and> ns_running ns \<and> getServer ns = Some c
    \<and> ns_port ns = word_of_int p"
  using assms by (auto simp: open_server_def grants_all_def new_network_server_def ns_run_def)

text \<open>
  C26. A fresh node that is started opens the three default ports, each with its kind of connection, and reports that it
  is running; a second start changes nothing and starts no second loop.
\<close>

theorem start_opens_ports:
  assumes "sm_inv (node_values s)" "grants_all mc" "consoleServer s = None" "webServer s = None" "mcpServer s = None"
    and "\<not> cs_running s"
  shows "\<exists>s' t w m. node_setValue mc hash qo ''*-start-*'' Void_value (node_setAtomSpace s) = (Inr Spawn_loop, s')
     \<and> consoleServer s' = Some t \<and> ns_running t \<and> getServer t = Some Telnet_conn \<and> getPort t = 17001
     \<and> webServer s' = Some w \<and> ns_running w \<and> getServer w = Some Web_conn \<and> getPort w = 18080
     \<and> mcpServer s' = Some m \<and> ns_running m \<and> getServer m = Some Mcp_conn \<and> getPort m = 18888
     \<and> node_getValue hash ''*-is-running?-*'' s' = Some (Bool_value True)
     \<and> node_setValue mc hash qo ''*-start-*'' Void_value s' = (Inr No_action, s')"
proof -
  let ?s = "(node_setAtomSpace s)\<lparr>cs_running := True\<rparr>"
  have n: "consoleServer ?s = None" "webServer ?s = None" "mcpServer ?s = None" "\<not> cs_running (node_setAtomSpace s)"
    using assms(3-6) by (simp_all add: node_setAtomSpace_def)
  note ports = default_ports [OF assms(1)]
  note p = trans [OF get_port_cong]
  have "get_port ''*-telnet-port-*'' ?s = Inr 17001" by (rule p [OF _ ports(1)]) simp
  then obtain t where t: "open_server mc ''*-telnet-port-*'' ''Telnet Server'' Telnet_conn ?s = Inr (Some t)"
    "ns_running t" "getServer t = Some Telnet_conn" "ns_port t = word_of_int 17001"
    using open_granted [OF assms(2)] n by (fastforce simp: taken_def)
  let ?s1 = "?s\<lparr>consoleServer := Some t\<rparr>"
  have "get_port ''*-web-port-*'' ?s1 = Inr 18080" by (rule p [OF _ ports(2)]) simp
  moreover have "taken ?s1 = [17001]" using n t(4) by (simp add: taken_def)
  ultimately obtain w where w: "open_server mc ''*-web-port-*'' ''WebSocket Server'' Web_conn ?s1 = Inr (Some w)"
    "ns_running w" "getServer w = Some Web_conn" "ns_port w = word_of_int 18080"
    using open_granted [OF assms(2), of "''*-web-port-*''" ?s1 18080] by auto
  let ?s2 = "?s1\<lparr>webServer := Some w\<rparr>"
  have "get_port ''*-mcp-port-*'' ?s2 = Inr 18888" by (rule p [OF _ ports(3)]) simp
  moreover have "taken ?s2 = [17001, 18080]" using n t(4) w(4) by (simp add: taken_def)
  ultimately obtain m where
    m: "open_server mc ''*-mcp-port-*'' ''Model Context Protocol Server'' Mcp_conn ?s2 = Inr (Some m)"
    "ns_running m" "getServer m = Some Mcp_conn" "ns_port m = word_of_int 18888"
    using open_granted [OF assms(2), of "''*-mcp-port-*''" ?s2 18888] by auto
  let ?s' = "?s\<lparr>consoleServer := Some t, webServer := Some w, mcpServer := Some m\<rparr>"
  have "startServers mc (node_setAtomSpace s) = (Inr True, ?s')"
    using assms(2) n t(1) w(1) m(1)
    by (simp add: startServers_def set_running_def enableNetworkServer_def enableWebServer_def enableMCPServer_def
      act_seq_def act_bind_def grants_all_def)
  moreover have "startServers mc (?s'\<lparr>main_loop := True\<rparr>) = (Inr False, ?s'\<lparr>main_loop := True\<rparr>)"
    by (simp add: startServers_def set_running_def)
  moreover have "getPort t = 17001" "getPort w = 18080" "getPort m = 18888"
    using t(4) w(4) m(4) by (simp_all add: getPort_def)
  ultimately show ?thesis using t w m by (auto simp: node_setValue_def node_getValue_def)
qed

text \<open>
  The port of the web server is kept in a signed 16-bit variable: for every port above 32767 the OAuth page names a
  negative port.
\<close>

theorem high_web_port_negative:
  assumes "webServer s = Some ns" "ns_port ns = word_of_int p" "32768 \<le> p" "p < 65536"
  shows "oauth_authorization_server (getWebServerPort s) [] =
    json_response ''HTTP/1.1 200 OK'' (''{'' @ [CHR 0x22] @ ''issuer'' @ [CHR 0x22] @ '':'' @ [CHR 0x22]
      @ ''http://localhost:'' @ ''-'' @ show_nat (nat (65536 - p)) @ [CHR 0x22] @ ''}'')"
proof -
  have "sint (ns_port ns) = p - 65536"
    using getPort_word [of p ns] assms(2-4) by (simp add: getPort_def)
  moreover have "nat (- (p - 65536)) = nat (65536 - p)" by simp
  ultimately have "show_int (sint (ns_port ns)) = ''-'' @ show_nat (nat (65536 - p))"
    using assms(4) by (simp add: show_int_def)
  with assms(1) show ?thesis by (simp add: oauth_authorization_server_def getWebServerPort_def)
qed

text \<open>
  When the telnet port cannot be had, the start is reported as a success: the server says that it is running and
  enters its main loop, but no port is open, not even the two others.
\<close>

theorem busy_port_start_succeeds:
  assumes "get_port ''*-telnet-port-*'' s = Inr p" "0 < p" "\<not> cs_running s"
    and "consoleServer s = None" "webServer s = None" "mcpServer s = None"
    and "\<not> listens (grants mc []) V6 (word_of_int p)" "\<not> listens (grants mc []) V4 (word_of_int p)"
  shows "\<exists>s'. node_setValue mc hash qo ''*-start-*'' Void_value s = (Inr Spawn_loop, s') \<and> cs_running s'
     \<and> consoleServer s' = None \<and> webServer s' = None \<and> mcpServer s' = None"
proof -
  let ?s = "s\<lparr>cs_running := True\<rparr>"
  have "get_port ''*-telnet-port-*'' ?s = Inr p" using assms(1) by (simp add: get_port_def)
  moreover have "taken ?s = []" using assms(4-6) by (simp add: taken_def)
  ultimately have "enableNetworkServer mc ?s = (Inl (System_error Sys_other), ?s)"
    using assms by (simp add: enableNetworkServer_def open_server_def new_network_server_def)
  then have "startServers mc s = (Inr True, ?s)"
    using assms(3) by (simp add: startServers_def set_running_def act_seq_def act_bind_def)
  with assms(4-6) show ?thesis by (simp add: node_setValue_def)
qed

section \<open>A concrete machine\<close>

definition open_machine :: machine where
  "open_machine = \<lparr>have_openssl = True, have_mcp = True, time_now = 0,
     grants = (\<lambda>l. \<lparr>ok_open = (\<lambda>f. True), ok_options = (\<lambda>f. True), ok_bind = (\<lambda>f p. p \<notin> set l), ok_listen = (\<lambda>f. True)\<rparr>)\<rparr>"

definition full_machine :: machine where
  "full_machine = open_machine\<lparr>grants := (\<lambda>l. \<lparr>ok_open = (\<lambda>f. True), ok_options = (\<lambda>f. True),
     ok_bind = (\<lambda>f p. p \<noteq> 17001), ok_listen = (\<lambda>f. True)\<rparr>)\<rparr>"

definition demo_server :: "(request list \<times> bool) cog_server" where
  "demo_server = new_cog_server ([], False) (\<lambda>_. idle_console)"

theorem start_opens_ports_witness:
  "\<exists>s' t w m. node_setValue open_machine (\<lambda>k. of_nat (length k)) list_cq ''*-start-*'' Void_value (node_setAtomSpace demo_server)
       = (Inr Spawn_loop, s')
     \<and> consoleServer s' = Some t \<and> ns_running t \<and> getServer t = Some Telnet_conn \<and> getPort t = 17001
     \<and> webServer s' = Some w \<and> ns_running w \<and> getServer w = Some Web_conn \<and> getPort w = 18080
     \<and> mcpServer s' = Some m \<and> ns_running m \<and> getServer m = Some Mcp_conn \<and> getPort m = 18888
     \<and> node_getValue (\<lambda>k. of_nat (length k)) ''*-is-running?-*'' s' = Some (Bool_value True)
     \<and> node_setValue open_machine (\<lambda>k. of_nat (length k)) list_cq ''*-start-*'' Void_value s' = (Inr No_action, s')"
  by (rule start_opens_ports)
    (simp_all add: demo_server_def new_cog_server_def grants_all_def listens_def open_machine_def)

definition high_port :: net_server where
  "high_port = \<lparr>ns_name = ''WebSocket Server'', ns_port = word_of_int 40000, ns_running = True,
     listener = True, getServer = Some Web_conn, handlers = [], ns_start_time = 0, ns_last_connect = 0, ns_nconnections = 0\<rparr>"

definition high_server :: "(request list \<times> bool) cog_server" where
  "high_server = demo_server\<lparr>webServer := Some high_port\<rparr>"

theorem high_web_port_negative_witness:
  "oauth_authorization_server (getWebServerPort high_server) [] =
    json_response ''HTTP/1.1 200 OK'' (''{'' @ [CHR 0x22] @ ''issuer'' @ [CHR 0x22] @ '':'' @ [CHR 0x22]
      @ ''http://localhost:'' @ ''-'' @ show_nat (nat (65536 - 40000)) @ [CHR 0x22] @ ''}'')"
  by (rule high_web_port_negative [where ns = high_port]) (simp_all add: high_server_def high_port_def)

theorem busy_port_start_succeeds_witness:
  "\<exists>s'. node_setValue full_machine (\<lambda>k. of_nat (length k)) list_cq ''*-start-*'' Void_value (node_setAtomSpace demo_server)
       = (Inr Spawn_loop, s') \<and> cs_running s'
     \<and> consoleServer s' = None \<and> webServer s' = None \<and> mcpServer s' = None"
proof (rule busy_port_start_succeeds)
  show "get_port ''*-telnet-port-*'' (node_setAtomSpace demo_server) = Inr 17001"
    by (rule default_ports) (simp add: demo_server_def new_cog_server_def)
qed (simp_all add: demo_server_def new_cog_server_def node_setAtomSpace_def listens_def full_machine_def)

end
