(* ===== verification/Shells.thy ===== *)
theory Shells
  imports Cog_Server Slots
begin

text \<open>
  The shells of \<^verbatim>\<open>opencog/cogserver/shell\<close>: what their constructors and their \<^verbatim>\<open>shellout\<close> commands set up, the block input of
  the Python shell, and the barrier command of the s-expression shell; \<^verbatim>\<open>top\<close> is in theory \<open>Top_Shell\<close>. The evaluators of the
  languages belong to other libraries and are arguments.
\<close>

section \<open>Constructors\<close>

text \<open>The name that the statistics show, and the object.\<close>

definition JsonShell :: "'q \<Rightarrow> string \<times> ('q, 'e) shell" where
  "JsonShell q = (''json'', (new_shell q)\<lparr>normal_prompt := ''json> '', abort_prompt := ''json> '', pending_prompt := ''... '',
     show_prompt := True\<rparr>)"

definition McpShell :: "'q \<Rightarrow> string \<times> ('q, 'e) shell" where
  "McpShell q = (''mcp'', (new_shell q)\<lparr>normal_prompt := ''mcp> '', abort_prompt := ''mcp> '', pending_prompt := ''... '',
     show_prompt := True\<rparr>)"

definition SexprShell :: "'q \<Rightarrow> string \<times> ('q, 'e) shell" where
  "SexprShell q = (''sexp'', (new_shell q)\<lparr>normal_prompt := [], abort_prompt := [], pending_prompt := [],
     show_prompt := False\<rparr>)"

text \<open>The scheme prompt comes from the node; \<open>hash\<close> is \<^verbatim>\<open>dispatch_hash\<close>.\<close>

definition scheme_prompt :: "(string \<Rightarrow> 32 word) \<Rightarrow> 'r cog_server \<Rightarrow> string" where
  "scheme_prompt hash s =
     (let prompt = [CHR 0x1B] @ ''[0;34mguile'' @ [CHR 0x1B] @ ''[1;34m> '' @ [CHR 0x1B] @ ''[0m'';
          ansi_enabled = (case node_getValue hash ''*-ansi-enabled-*'' s of Some (Bool_value b) \<Rightarrow> b | _ \<Rightarrow> True);
          vp = node_getValue hash (if ansi_enabled then ''*-ansi-scm-prompt-*'' else ''*-scm-prompt-*'') s
      in case vp of Some (String_value p) \<Rightarrow> p | _ \<Rightarrow> prompt)"

definition SchemeShell :: "(string \<Rightarrow> 32 word) \<Rightarrow> 'r cog_server \<Rightarrow> 'q \<Rightarrow> string \<times> ('q, 'e) shell" where
  "SchemeShell hash s q =
     ('' scm'', (new_shell q)\<lparr>normal_prompt := scheme_prompt hash s, abort_prompt := scheme_prompt hash s,
        pending_prompt := ''... ''\<rparr>)"

text \<open>The Python shell keeps the lines of an unfinished block.\<close>

record ('q, 'e) python_shell =
  gshell :: "('q, 'e) shell"
  pending_lines :: string

definition PythonShell :: "'q \<Rightarrow> string \<times> ('q, 'e) python_shell" where
  "PythonShell q =
     (let g = new_shell q
      in (''pyth'', \<lparr>gshell = g\<lparr>normal_prompt := ''py> '', pending_prompt := ''... '', abort_prompt := abort_prompt g @ ''py> ''\<rparr>,
                    pending_lines = []\<rparr>))"

section \<open>Entering a shell\<close>

definition hushed :: "string list \<Rightarrow> bool" where
  "hushed params \<longleftrightarrow> params \<noteq> [] \<and> (hd params = ''quiet'' \<or> hd params = ''hush'')"

definition entering :: "string \<Rightarrow> string" where
  "entering what = ''Entering '' @ what @ '' shell; use ^D or a single . on a line by itself to exit.'' @ nl"

text \<open>
  \<^verbatim>\<open>execute\<close> of the scheme, JSON and MCP shells: the text that is sent, and the shell. Only the scheme shell hushes its output
  as well (\<open>out\<close>).
\<close>

definition shellout_execute :: "string \<Rightarrow> bool \<Rightarrow> 'e eval_ops \<Rightarrow> string list \<Rightarrow> ('q, 'e, string) sh_act" where
  "shellout_execute what out eo params =
     act_bind set_socket (\<lambda>_ s.
       (let s1 = (if params \<noteq> [] then hush_prompt (hushed params) s else s);
            s2 = (if params \<noteq> [] \<and> out then hush_output (hushed params) s1 else s1)
        in if hushed params then (Inr [], s2) else (Inr (entering what @ get_prompt eo s2), s2)))"

definition scheme_execute :: "'e eval_ops \<Rightarrow> string list \<Rightarrow> ('q, 'e, string) sh_act" where
  "scheme_execute = shellout_execute ''scheme'' True"

definition json_execute :: "'e eval_ops \<Rightarrow> string list \<Rightarrow> ('q, 'e, string) sh_act" where
  "json_execute = shellout_execute ''JSON'' False"

definition mcp_execute :: "'e eval_ops \<Rightarrow> string list \<Rightarrow> ('q, 'e, string) sh_act" where
  "mcp_execute = shellout_execute ''MCP'' False"

text \<open>The barriers as primitives of the scheme shell; the number is cut to the byte that \<^verbatim>\<open>recv_barrier\<close> takes.\<close>

definition scheme_recv_barrier :: "int \<Rightarrow> string \<Rightarrow> recv_barriers \<Rightarrow> bool \<times> recv_barriers" where
  "scheme_recv_barrier n uuid = recv_barrier (word_of_int n) uuid"

text \<open>
  The Python module. \<^verbatim>\<open>compare\<close> is 0 when the strings are equal, so its condition holds for every argument.
\<close>

definition python_hushed :: "string list \<Rightarrow> bool" where
  "python_hushed args \<longleftrightarrow> args \<noteq> [] \<and> (hd args \<noteq> ''quiet'' \<or> hd args \<noteq> ''hush'')"

definition python_shellout :: "'e eval_ops \<Rightarrow> string list \<Rightarrow> ('q, 'e, string) sh_act" where
  "python_shellout eo args =
     act_bind set_socket (\<lambda>_ s.
       (let s1 = hush_prompt (python_hushed args) s
        in if python_hushed args then (Inr [], s1) else (Inr (entering ''python'' @ get_prompt eo s1), s1)))"

text \<open>\<^verbatim>\<open>py-eval\<close>: only a \<^verbatim>\<open>RuntimeException\<close> is caught.\<close>

definition python_do_eval :: "'e eval_ops \<Rightarrow> string list \<Rightarrow> ('e, string) act" where
  "python_do_eval eo args e =
     (let expr = concat (map (\<lambda>arg. arg @ '' '') args);
          finish = (\<lambda>out e1. case ev_poll eo e1 of (res, e2) \<Rightarrow>
            (Inr (out @ res @ (if ev_input_pending eo e2 then ''Invalid Python expression: missing something'' else [])),
             ev_clear_pending eo e2))
      in case ev_eval eo expr (ev_begin eo e) of
           (Inr _, e1) \<Rightarrow> finish [] e1
         | (Inl (Runtime_exception msg), e1) \<Rightarrow> finish (msg @ nl) e1
         | (Inl x, e1) \<Rightarrow> (Inl x, e1))"

section \<open>Python blocks\<close>

fun rtrim :: "string \<Rightarrow> string" where
  "rtrim s = rev (dropWhile (\<lambda>c. c = CHR '' '' \<or> c = CHR 0x09) (rev s))"

definition opens_block :: "string \<Rightarrow> bool" where
  "opens_block expr =
     (let trimmed = rtrim (case find_chr CHR ''#'' expr of Some comment \<Rightarrow> take comment expr | None \<Rightarrow> expr)
      in trimmed \<noteq> [] \<and> last trimmed = CHR '':'')"

text \<open>
  \<^verbatim>\<open>GenericShell::eval\<close> on the text, then the pending lines are cleared when \<open>clear\<close>. When the shell has deleted itself
  (the result \<^const>\<open>True\<close>), there is nothing left to clear; the caller stops there.
\<close>

definition generic_eval ::
  "(string, 'q) cq_ops \<Rightarrow> 'e eval_ops \<Rightarrow> 'e \<Rightarrow> string \<Rightarrow> (('q, 'e) python_shell, bool) act" where
  "generic_eval qo eo e0 expr p = (case shell_eval qo eo (GenericShell qo eo e0) expr (gshell p) of (res, g) \<Rightarrow> (res, p\<lparr>gshell := g\<rparr>))"

definition flush_lines ::
  "(string, 'q) cq_ops \<Rightarrow> 'e eval_ops \<Rightarrow> 'e \<Rightarrow> (('q, 'e) python_shell, bool) act" where
  "flush_lines qo eo e0 p =
     (case generic_eval qo eo e0 (pending_lines p) p of
        (Inr False, p1) \<Rightarrow> (Inr False, p1\<lparr>pending_lines := []\<rparr>)
      | other \<Rightarrow> other)"

definition python_eval ::
  "(string, 'q) cq_ops \<Rightarrow> 'e eval_ops \<Rightarrow> 'e \<Rightarrow> string \<Rightarrow> (('q, 'e) python_shell, bool) act" where
  "python_eval qo eo e0 expr p =
     (let selfie = self_destruct (gshell p);
          p0 = p\<lparr>gshell := (gshell p)\<lparr>self_destruct := False\<rparr>\<rparr>;
          first =
            (if pending_lines p0 \<noteq> []
             then let p1 = p0\<lparr>pending_lines := pending_lines p0 @ expr @ nl\<rparr>
                  in if expr = [] then flush_lines qo eo e0 p1 else (Inr False, p1)
             else if opens_block expr then (Inr False, p0\<lparr>pending_lines := expr @ nl\<rparr>)
             else generic_eval qo eo e0 expr p0)
      in if \<not> selfie then first
         else act_bind (\<lambda>_. first) (\<lambda>gone p1.
           if gone then (Inr True, p1)
           else act_bind (if pending_lines p1 \<noteq> [] then flush_lines qo eo e0 else act_ret False) (\<lambda>gone p2.
             if gone then (Inr True, p2)
             else act_bind (generic_eval qo eo e0 []) (\<lambda>gone p3.
               if gone then (Inr True, p3)
               else (Inr False, p3\<lparr>gshell := (gshell p3)\<lparr>self_destruct := True\<rparr>\<rparr>)) p2) p1) p0)"

text \<open>A session: the lines one after the other, as long as the shell lives.\<close>

fun python_session ::
  "(string, 'q) cq_ops \<Rightarrow> 'e eval_ops \<Rightarrow> 'e \<Rightarrow> string list \<Rightarrow> (('q, 'e) python_shell, bool) act" where
  "python_session qo eo e0 [] p = (Inr False, p)"
| "python_session qo eo e0 (l # ls) p =
     (case python_eval qo eo e0 l p of
        (Inr False, p1) \<Rightarrow> python_session qo eo e0 ls p1
      | other \<Rightarrow> other)"

lemma python_eval_alive:
  assumes "\<not> self_destruct (gshell p)"
  shows "python_eval qo eo e0 expr p =
    (if pending_lines p \<noteq> []
     then let p1 = p\<lparr>pending_lines := pending_lines p @ expr @ nl\<rparr>
          in if expr = [] then flush_lines qo eo e0 p1 else (Inr False, p1)
     else if opens_block expr then (Inr False, p\<lparr>pending_lines := expr @ nl\<rparr>)
     else generic_eval qo eo e0 expr p)"
proof -
  have alive: "p\<lparr>gshell := (gshell p)\<lparr>self_destruct := False\<rparr>\<rparr> = p" using assms by simp
  show ?thesis unfolding python_eval_def Let_def alive using assms by simp
qed

lemma python_collects:
  assumes "\<not> self_destruct (gshell p)" "pending_lines p \<noteq> []" "list_all (\<lambda>l. l \<noteq> []) ls"
  shows "python_session qo eo e0 (ls @ rest) p =
    python_session qo eo e0 rest (p\<lparr>pending_lines := pending_lines p @ concat (map (\<lambda>l. l @ nl) ls)\<rparr>)"
  using assms
proof (induction ls arbitrary: p)
  case (Cons l ls)
  then have "python_eval qo eo e0 l p = (Inr False, p\<lparr>pending_lines := pending_lines p @ l @ nl\<rparr>)"
    by (simp add: python_eval_alive)
  with Cons.IH [of "p\<lparr>pending_lines := pending_lines p @ l @ nl\<rparr>"] Cons.prems show ?case by simp
qed simp

text \<open>
  C31. A block of Python, which a line ending in a colon (not counting a comment and blanks) opens and an empty line
  closes, is given to the evaluator as one text, complete and in order, and only when the empty line has come. Until
  then nothing leaves the block, not even an interrupt character.
\<close>

theorem python_block_evaluated:
  assumes "\<not> self_destruct (gshell p)" "pending_lines p = []" "opens_block l" "list_all (\<lambda>l. l \<noteq> []) ls"
  shows "python_session qo eo e0 (l # ls) p = (Inr False, p\<lparr>pending_lines := concat (map (\<lambda>l. l @ nl) (l # ls))\<rparr>)
    \<and> python_session qo eo e0 (l # ls @ [[]]) p =
      (case shell_eval qo eo (GenericShell qo eo e0) (concat (map (\<lambda>l. l @ nl) (l # ls @ [[]]))) (gshell p) of
         (Inr False, g) \<Rightarrow> (Inr False, p\<lparr>gshell := g\<rparr>)
       | (res, g) \<Rightarrow> (res, p\<lparr>gshell := g, pending_lines := concat (map (\<lambda>l. l @ nl) (l # ls @ [[]]))\<rparr>))"
proof -
  let ?t = "concat (map (\<lambda>l. l @ nl) (l # ls @ [[]]))"
  have "python_eval qo eo e0 l p = (Inr False, p\<lparr>pending_lines := l @ nl\<rparr>)"
    using assms by (simp add: python_eval_alive)
  then have run: "python_session qo eo e0 (l # ls @ rest) p =
      python_session qo eo e0 rest (p\<lparr>pending_lines := concat (map (\<lambda>l. l @ nl) (l # ls))\<rparr>)" for rest
    using python_collects [of "p\<lparr>pending_lines := l @ nl\<rparr>" ls] assms(1,4) by (simp add: nl_def)
  then have "python_session qo eo e0 (l # ls) p = (Inr False, p\<lparr>pending_lines := concat (map (\<lambda>l. l @ nl) (l # ls))\<rparr>)"
    by (metis append_Nil2 python_session.simps(1))
  moreover have "concat (map (\<lambda>l. l @ nl) (l # ls)) \<noteq> []" by (simp add: nl_def)
  then have "python_eval qo eo e0 [] (p\<lparr>pending_lines := concat (map (\<lambda>l. l @ nl) (l # ls))\<rparr>) =
      flush_lines qo eo e0 (p\<lparr>pending_lines := ?t\<rparr>)"
    using assms(1) by (simp add: python_eval_alive)
  then have "python_session qo eo e0 (l # ls @ [[]]) p =
      (case shell_eval qo eo (GenericShell qo eo e0) ?t (gshell p) of
         (Inr False, g) \<Rightarrow> (Inr False, p\<lparr>gshell := g\<rparr>)
       | (res, g) \<Rightarrow> (res, p\<lparr>gshell := g, pending_lines := ?t\<rparr>))"
    unfolding run using assms(2)
    by (auto simp: flush_lines_def generic_eval_def split: prod.splits sum.splits bool.splits)
  ultimately show ?thesis by blast
qed

definition demo_python :: "((string list \<times> bool), unit) python_shell" where
  "demo_python = snd (PythonShell ([], False))"

abbreviation demo_block :: "string list" where
  "demo_block \<equiv> [''  return 2'', [CHR 0x16]]"

theorem python_block_evaluated_witness:
  "python_session list_cq null_eval () (''def f():  # twice'' # demo_block) demo_python =
     (Inr False, demo_python\<lparr>pending_lines := concat (map (\<lambda>l. l @ nl) (''def f():  # twice'' # demo_block))\<rparr>)
   \<and> python_session list_cq null_eval () (''def f():  # twice'' # demo_block @ [[]]) demo_python =
      (case shell_eval list_cq null_eval (GenericShell list_cq null_eval ()) (concat (map (\<lambda>l. l @ nl) (''def f():  # twice'' # demo_block @ [[]]))) (gshell demo_python) of
         (Inr False, g) \<Rightarrow> (Inr False, demo_python\<lparr>gshell := g\<rparr>)
       | (res, g) \<Rightarrow> (res, demo_python\<lparr>gshell := g,
           pending_lines := concat (map (\<lambda>l. l @ nl) (''def f():  # twice'' # demo_block @ [[]]))\<rparr>))"
  by (rule python_block_evaluated)
    (simp_all add: demo_python_def PythonShell_def new_shell_def opens_block_def Let_def)

text \<open>
  The Python shell is hushed by every argument, where the help text promises it for \<^verbatim>\<open>hush\<close> and \<^verbatim>\<open>quiet\<close> only.
\<close>

lemma python_any_argument_hushes:
  "\<not> has_sock s \<Longrightarrow> python_shellout eo (a # as) s = (Inr [], s\<lparr>has_sock := True, show_prompt := False\<rparr>)"
  by (auto simp: python_shellout_def act_bind_def set_socket_def python_hushed_def hush_prompt_def)

text \<open>\<^verbatim>\<open>hush\<close> and \<^verbatim>\<open>quiet\<close> silence the three other shells, and the scheme shell also drops what is evaluated; any other argument changes nothing.\<close>

lemma shells_hushed:
  assumes "\<not> has_sock s" "hushed ps"
  shows "json_execute eo ps s = (Inr [], s\<lparr>has_sock := True, show_prompt := False\<rparr>)"
    "mcp_execute eo ps s = (Inr [], s\<lparr>has_sock := True, show_prompt := False\<rparr>)"
    "scheme_execute eo ps s = (Inr [], s\<lparr>has_sock := True, show_prompt := False, show_output := False\<rparr>)"
  using assms
  by (auto simp: json_execute_def mcp_execute_def scheme_execute_def shellout_execute_def act_bind_def set_socket_def hushed_def
      hush_prompt_def hush_output_def Let_def)

lemma scheme_barrier_wraps: "scheme_recv_barrier (n + 256) uuid = scheme_recv_barrier n uuid"
proof -
  have "(word_of_int (n + 256) :: byte) = word_of_int n" by (simp add: word_of_int_eq_iff take_bit_eq_mod)
  then show ?thesis by (simp only: scheme_recv_barrier_def)
qed

section \<open>The barrier of the s-expression shell\<close>

text \<open>
  \<^verbatim>\<open>sscanf(args, "%u \"%31[^\"]\"", &n, uuid)\<close>: the number as \<^verbatim>\<open>strtoul\<close> reads it, cut to 32 bits; then blanks, a quote, and at
  most 31 characters up to the next quote. What is not matched stays 0 and empty.
\<close>

definition scan_barrier :: "string \<Rightarrow> 32 word \<times> string" where
  "scan_barrier args =
     (let t = dropWhile is_space (c_str args);
          neg = (t \<noteq> [] \<and> hd t = CHR ''-'');
          u = (if t \<noteq> [] \<and> (hd t = CHR ''-'' \<or> hd t = CHR ''+'') then tl t else t);
          ds = takeWhile is_digit u;
          v = int (digits_val ds);
          n = (if 2 ^ 64 \<le> v then 2 ^ 64 - 1 else if neg then - v else v);
          rest = dropWhile is_space (dropWhile is_digit u)
      in if ds = [] then (0, [])
         else (word_of_int n,
               case rest of
                 [] \<Rightarrow> []
               | c # cs \<Rightarrow> if c = CHR 0x22 then take 31 (takeWhile (\<lambda>c. c \<noteq> CHR 0x22) cs) else []))"

text \<open>The handler that the shell installs for \<^verbatim>\<open>cog-barrier\<close>; \<^verbatim>\<open>recv_barrier\<close> takes the count as a \<^verbatim>\<open>uint8_t\<close>.\<close>

definition sexpr_barrier :: "string \<Rightarrow> recv_barriers \<Rightarrow> bool \<times> recv_barriers" where
  "sexpr_barrier args m = (case scan_barrier args of (n, uuid) \<Rightarrow> recv_barrier (ucast n) uuid m)"

text \<open>
  The command that enters the shell. \<open>get_ev\<close> is \<^verbatim>\<open>SexprEval::get_evaluator\<close>, which gives the evaluator of the calling thread
  \<open>thr\<close>; the two handlers are installed there. Nothing is sent but an empty text.
\<close>

datatype sexpr_handler = H_barrier | H_global_barrier

definition sexpr_execute ::
  "('t \<Rightarrow> 'a) \<Rightarrow> 't \<Rightarrow> (('a \<Rightarrow> (string \<times> sexpr_handler) list) \<times> ('q, 'e) shell, string) act" where
  "sexpr_execute get_ev thr hs =
     (case hs of (installed, s) \<Rightarrow>
        (let a = get_ev thr;
             installed1 = installed(a := installed a @ [(''cog-barrier'', H_barrier), (''cog-global-barrier'', H_global_barrier)])
         in case set_socket s of
              (Inl x, s1) \<Rightarrow> (Inl x, installed1, s1)
            | (Inr _, s1) \<Rightarrow> (Inr [], installed1, s1)))"

text \<open>
  The evaluation thread of the shell is another thread than the one that runs the command, and it asks for its own
  evaluator: when every thread has an evaluator of its own, as the comment in \<^verbatim>\<open>eval_loop\<close> wants it, the shell
  evaluates without the handlers.
\<close>

lemma sexpr_handlers_elsewhere:
  assumes "inj get_ev" "evalthr \<noteq> thr" "sexpr_execute get_ev thr (hs, s) = (res, hs', s')"
  shows "hs' (get_ev evalthr) = hs (get_ev evalthr)"
  using assms by (auto simp: sexpr_execute_def Let_def inj_eq split: prod.splits sum.splits)

definition barrier_args :: "nat \<Rightarrow> string \<Rightarrow> string" where
  "barrier_args n uuid = show_nat n @ '' '' @ [CHR 0x22] @ uuid @ [CHR 0x22]"

lemma scan_barrier_args:
  assumes "n < 2 ^ 64" "uuid \<noteq> []" "CHR 0x22 \<notin> set uuid" "CHR 0x00 \<notin> set uuid"
  shows "scan_barrier (barrier_args n uuid) = (of_nat n, take 31 uuid)"
proof -
  note dig = show_nat_digits [of n]
  have nul: "CHR 0x00 \<notin> set (show_nat n)" using dig is_digit_not_nul by blast
  have c: "c_str (barrier_args n uuid) = barrier_args n uuid"
    by (rule c_str_no_nul) (use assms(4) nul in \<open>simp add: barrier_args_def\<close>)
  obtain x xs where x: "show_nat n = x # xs" "is_digit x" using dig by (cases "show_nat n") auto
  have t: "takeWhile is_digit (barrier_args n uuid) = show_nat n"
    "dropWhile is_digit (barrier_args n uuid) = '' '' @ [CHR 0x22] @ uuid @ [CHR 0x22]"
    using dig unfolding barrier_args_def
    by (simp_all add: takeWhile_append2 dropWhile_append2 is_digit_def)
  have h: "dropWhile is_space (barrier_args n uuid) = barrier_args n uuid" "barrier_args n uuid \<noteq> []"
    "hd (barrier_args n uuid) \<noteq> CHR ''-''" "hd (barrier_args n uuid) \<noteq> CHR ''+''"
    using x by (auto simp: barrier_args_def is_digit_not_space)
  have "takeWhile (\<lambda>c. c \<noteq> CHR 0x22) (uuid @ [CHR 0x22]) = uuid"
    using assms(3) by (subst takeWhile_append2) auto
  moreover have "\<not> 2 ^ 64 \<le> int n" using assms(1) by simp
  ultimately show ?thesis
    by (simp add: scan_barrier_def Let_def c h t digits_val_show_nat is_space_def)
qed

text \<open>
  C39. The call \<^verbatim>\<open>(cog-barrier n "uuid")\<close> of the s-expression shell counts modulo 256 and knows a barrier by the first 31
  characters of its identifier only.
\<close>

theorem sexpr_barrier_cut:
  assumes "n < 2 ^ 64" "uuid \<noteq> []" "CHR 0x22 \<notin> set uuid" "CHR 0x00 \<notin> set uuid"
  shows "sexpr_barrier (barrier_args n uuid) m = recv_barrier (of_nat (n mod 256)) (take 31 uuid) m"
proof -
  have "(ucast (of_nat n :: 32 word) :: byte) = of_nat (n mod 256)"
    by (simp add: unsigned_of_nat word_of_nat_eq_iff take_bit_eq_mod mod_mod_cancel)
  with scan_barrier_args [OF assms] show ?thesis by (simp add: sexpr_barrier_def)
qed

definition long_uuid :: string where
  "long_uuid = ''123e4567-e89b-12d3-a456-426614174000''"

theorem sexpr_barrier_cut_witness:
  "sexpr_barrier (barrier_args 258 long_uuid) Map.empty = recv_barrier (of_nat (258 mod 256)) (take 31 long_uuid) Map.empty"
  by (rule sexpr_barrier_cut) (simp_all add: long_uuid_def)

end
