(* ===== verification/Telnet_Shell.thy ===== *)
theory Telnet_Shell
  imports Telnet_Commands Shells
begin

text \<open>
  A script on the wire: a telnet connection whose first line starts a scheme expression. The console enters the scheme shell by itself, and the
  lines go to the queue of the evaluation thread. The theory composes \<open>Connection\<close>, \<open>Console\<close>, \<open>Shells\<close> and \<open>Generic_Shell\<close>; what the evaluation thread
  does with its queue is in \<open>Shell_Threads\<close>.
\<close>

section \<open>The console with its shell\<close>

text \<open>
  The shell object that \<open>console_shell\<close> points to, and the requests of this console that are queued. Those of other consoles do not touch it.
\<close>

record ('w, 'e) shell_console = server_console +
  sc_shell :: "('w, 'e) shell option"
  sc_queue :: "(RequestClassInfo \<times> string list) list"

definition view_of :: "(string, 'w) cq_ops \<Rightarrow> ('w, 'e) shell \<Rightarrow> shell_view" where
  "view_of qo g = \<lparr>sv_name = '' scm'', sv_queued = cq_size qo (evalque g), sv_eval_done = eval_done g,
     sv_pending = length (pending_output g), sv_is_eval_thread = False\<rparr>"

definition hold_shell :: "(string, 'w) cq_ops \<Rightarrow> ('w, 'e) shell option \<Rightarrow> ('w, 'e) shell_console \<Rightarrow> ('w, 'e) shell_console" where
  "hold_shell qo g s = SetShell (map_option (view_of qo) g) (s\<lparr>sc_shell := g\<rparr>)"

fun send_all :: "string list \<Rightarrow> ('a server_socket_scheme, unit) act" where
  "send_all [] = act_ret ()"
| "send_all (m # ms) = act_seq (Send m) (send_all ms)"

text \<open>\<^verbatim>\<open>_shell->eval(line)\<close>: what the shell sends goes to the socket; a shell that has deleted itself has left the console.\<close>

definition console_shell_eval ::
  "(string, 'w) cq_ops \<Rightarrow> 'e eval_ops \<Rightarrow> ('w, 'e) shell_class \<Rightarrow> string \<Rightarrow> (('w, 'e) shell_console, unit) act" where
  "console_shell_eval qo eo vt line s =
     (case sc_shell s of
        None \<Rightarrow> (Inl Null_pointer, s)
      | Some g \<Rightarrow>
          (case shell_eval qo eo vt line (g\<lparr>sent := []\<rparr>) of
             (Inl e, g') \<Rightarrow> (Inl e, hold_shell qo (Some g') s)
           | (Inr gone, g') \<Rightarrow>
               act_seq (send_all (sent g')) (act_mod (hold_shell qo (if gone then None else Some g'))) s))"

text \<open>The request of the command \<^verbatim>\<open>scm\<close>, from its execution to its destructor; \<open>g0\<close> is the new shell. On a console with a shell the destructor sends no prompt.\<close>

definition scheme_request ::
  "(string, 'w) cq_ops \<Rightarrow> 'e eval_ops \<Rightarrow> ('w, 'e) shell \<Rightarrow> string list \<Rightarrow> ('w, 'e) shell_console \<Rightarrow> ('w, 'e) shell_console" where
  "scheme_request qo eo g0 params s =
     (case scheme_execute eo params g0 of
        (Inl e, g) \<Rightarrow> s
      | (Inr text, g) \<Rightarrow> cs_put (snd (Send text (hold_shell qo (Some g) s))))"

definition console_requests ::
  "(RequestClassInfo \<Rightarrow> string list \<Rightarrow> ('w, 'e) shell_console \<Rightarrow> ('w, 'e) shell_console) \<Rightarrow> (string, 'w) cq_ops \<Rightarrow> 'e eval_ops \<Rightarrow>
   ('w, 'e) shell \<Rightarrow> ('w, 'e) shell_console \<Rightarrow> ('w, 'e) shell_console" where
  "console_requests other qo eo g0 s =
     fold (\<lambda>(f, ps). if rci_id f = ''scm'' then scheme_request qo eo g0 ps else other f ps) (sc_queue s) (s\<lparr>sc_queue := []\<rparr>)"

definition script_env where
  "script_env other qo eo vt g0 fs =
     \<lparr>env_shell_eval = console_shell_eval qo eo vt, env_running = True, env_create = (\<lambda>n. sm_find n fs),
      env_push = (\<lambda>f ps s. s\<lparr>sc_queue := sc_queue s @ [(f, ps)]\<rparr>), env_process = console_requests other qo eo g0\<rparr>"

definition script_handlers where
  "script_handlers other qo eo vt g0 fs sha clk =
     \<lparr>sha1 = sha, OnConnection = console_OnConnection, OnLine = console_OnLine (script_env other qo eo vt g0 fs), clock = clk\<rparr>"

section \<open>Lines in the shell\<close>

text \<open>The lines of a script: neither a telnet command nor an interrupt nor a request to leave. Blank lines are evaluated too.\<close>

definition script_line :: "string \<Rightarrow> bool" where
  "script_line l \<longleftrightarrow> l = [] \<or> ordinary_line False l"

definition shell_ready :: "('w \<Rightarrow> bool) \<Rightarrow> 'e eval_ops \<Rightarrow> 'e \<Rightarrow> ('w, 'e) shell \<Rightarrow> bool" where
  "shell_ready canceled eo e0 g \<longleftrightarrow> \<not> canceled (evalque g) \<and> \<not> self_destruct g \<and> apply_discipline g
     \<and> \<not> ev_input_pending eo (case evaluator g of None \<Rightarrow> ev_clear_pending eo e0 | Some e \<Rightarrow> e)"

lemma shell_takes:
  assumes "cq_laws qo items canceled" "shell_ready canceled eo e0 g" "script_line l"
  obtains g' where "shell_eval qo eo (GenericShell qo eo e0) l g = (Inr False, g')" "shell_ready canceled eo e0 g'"
    "items (evalque g') = items (evalque g) @ [l @ nl]" "sent g' = sent g"
proof -
  let ?e = "case evaluator g of None \<Rightarrow> ev_clear_pending eo e0 | Some e \<Rightarrow> e"
  let ?g = "g\<lparr>evaluator := Some ?e\<rparr>"
  let ?g' = "enqueue_work qo (l @ nl) ?g"
  have p: "\<not> ev_input_pending eo ?e" and c: "\<not> canceled (evalque ?g)" "\<not> self_destruct g" "apply_discipline g"
    using assms(2) by (auto simp: shell_ready_def split: option.splits)
  have "line_discipline qo eo (user_interrupt qo eo) l ?g = (Inr (), ?g')"
  proof (cases "l = []")
    case False
    with assms(3) p have "ordinary_line (ev_input_pending eo ?e) l" by (simp add: script_line_def)
    then show ?thesis by (rule discipline_plain) simp
  qed (simp add: line_discipline_def)
  then have "shell_eval qo eo (GenericShell qo eo e0) l g = (Inr False, ?g')"
    using c(2,3) by (cases "evaluator g") (simp_all add: shell_eval_def enqueue_work_def same_evaluator)
  moreover note enqueue_open [OF assms(1) c(1), of "l @ nl"]
  ultimately show thesis
    using c p by (intro that [of ?g']) (simp_all add: shell_ready_def enqueue_work_def)
qed

definition in_shell :: "('w \<Rightarrow> bool) \<Rightarrow> 'e eval_ops \<Rightarrow> 'e \<Rightarrow> ('w, 'e) shell_console \<Rightarrow> bool" where
  "in_shell canceled eo e0 s \<longleftrightarrow> raw_up s \<and> \<not> is_http_socket s \<and> console_shell s \<noteq> None
     \<and> (case sc_shell s of None \<Rightarrow> False | Some g \<Rightarrow> shell_ready canceled eo e0 g)"

text \<open>The lines have been queued, each with its newline, and nothing was sent.\<close>

definition lines_queued :: "('w \<Rightarrow> string list) \<Rightarrow> string list \<Rightarrow> ('w, 'e) shell_console \<Rightarrow> ('w, 'e) shell_console \<Rightarrow> bool" where
  "lines_queued items ls s s' \<longleftrightarrow> tx s' = tx s \<and> use_count s' = use_count s
     \<and> map_option (\<lambda>g. items (evalque g)) (sc_shell s') = map_option (\<lambda>g. items (evalque g) @ map (\<lambda>l. l @ nl) ls) (sc_shell s)"

lemma line_queued:
  assumes "cq_laws qo items canceled" "in_shell canceled eo e0 s" "script_line l"
  obtains s' where "console_OnLine (script_env other qo eo (GenericShell qo eo e0) g0 fs) l s = (Inr (), s')"
    "in_shell canceled eo e0 s'" "lines_queued items [l] s s'"
proof -
  obtain g where g: "sc_shell s = Some g" "shell_ready canceled eo e0 (g\<lparr>sent := []\<rparr>)"
    using assms(2) by (auto simp: in_shell_def shell_ready_def split: option.splits)
  obtain g' where g': "shell_eval qo eo (GenericShell qo eo e0) l (g\<lparr>sent := []\<rparr>) = (Inr False, g')" "shell_ready canceled eo e0 g'"
    "items (evalque g') = items (evalque (g\<lparr>sent := []\<rparr>)) @ [l @ nl]" "sent g' = sent (g\<lparr>sent := []\<rparr>)"
    by (rule shell_takes [OF assms(1) g(2) assms(3)])
  have "console_OnLine (script_env other qo eo (GenericShell qo eo e0) g0 fs) l s = (Inr (), hold_shell qo (Some g') s)"
    using assms(2) g g' by (subst console_OnLine.simps) (simp add: in_shell_def script_env_def console_shell_eval_def)
  with assms(2) g g' show thesis
    by (intro that [of "hold_shell qo (Some g') s"]) (simp_all add: in_shell_def lines_queued_def hold_shell_def SetShell_def raw_up_def)
qed

lemma script_line_service:
  fixes qo :: "(string, 'w) cq_ops" and eo :: "'e eval_ops"
  assumes "cq_laws qo items canceled"
  shows "line_service (script_handlers other qo eo (GenericShell qo eo e0) g0 fs sha clk) (in_shell canceled eo e0) script_line
    (lines_queued items)"
proof (unfold_locales, goal_cases)
  case (5 s l)
  show ?case by (rule line_queued [OF assms 5, of other g0 fs]) (simp add: script_handlers_def)
next
  case (10 s l s')
  show ?case
    by (rule line_queued [OF assms 10(1,2), of other g0 fs]) (use 10(3) in \<open>simp add: script_handlers_def\<close>)
next
  case (7 ls s s' ks s'')
  then show ?case by (cases "sc_shell s") (auto simp: lines_queued_def)
qed (auto simp: in_shell_def raw_up_def got_line_def lines_queued_def)

interpretation list_script: line_service "script_handlers other list_cq eo (GenericShell list_cq eo e0) g0 fs sha clk"
  "in_shell snd eo e0" script_line "lines_queued fst"
  for other eo e0 g0 fs sha clk
  by (rule script_line_service [OF list_cq_laws])

section \<open>Entering the shell\<close>

text \<open>A console at its prompt, with nothing queued.\<close>

definition before_shell :: "('w, 'e) shell_console \<Rightarrow> bool" where
  "before_shell s \<longleftrightarrow> raw_up s \<and> \<not> is_http_socket s \<and> console_shell s = None \<and> prompt s \<noteq> nl \<and> sc_queue s = []"

text \<open>A shell as the constructor leaves it.\<close>

definition new_scheme_shell :: "('w \<Rightarrow> string list) \<Rightarrow> ('w \<Rightarrow> bool) \<Rightarrow> ('w, 'e) shell \<Rightarrow> bool" where
  "new_scheme_shell items canceled g \<longleftrightarrow> items (evalque g) = [] \<and> \<not> canceled (evalque g) \<and> \<not> self_destruct g
     \<and> apply_discipline g \<and> evaluator g = None \<and> \<not> has_sock g \<and> show_prompt g"

lemma SchemeShell_new: "items q = [] \<Longrightarrow> \<not> canceled q \<Longrightarrow> new_scheme_shell items canceled (snd (SchemeShell hash srv q))"
  by (simp add: new_scheme_shell_def SchemeShell_def new_shell_def)

lemma Send_raw_up: "raw_up s \<Longrightarrow> a \<noteq> nl \<Longrightarrow> Send a s = (Inr (), s\<lparr>tx := tx s @ a\<rparr>)"
  by (auto simp: Send_def raw_up_def nl_def)

lemma scheme_entered:
  assumes "before_shell s" "sm_find ''scm'' fs = Some f" "rci_id f = ''scm''" "is_shell f"
    and "new_scheme_shell items canceled g0"
  shows "console_OnLine (script_env other qo eo vt g0 fs) ''scm'' s =
    (Inr (), hold_shell qo (Some (g0\<lparr>has_sock := True\<rparr>)) (s\<lparr>tx := tx s @ entering ''scheme'' @ normal_prompt g0\<rparr>))"
proof -
  have tok: "simple_tokenize ''scm'' = [''scm'']" by (simp add: simple_tokenize.simps)
  have "get_prompt eo (g0\<lparr>has_sock := True\<rparr>) = normal_prompt g0" using assms(5) by (simp add: get_prompt_def new_scheme_shell_def)
  then have x: "scheme_execute eo [] g0 = (Inr (entering ''scheme'' @ normal_prompt g0), g0\<lparr>has_sock := True\<rparr>)"
    using assms(5)
    by (simp add: scheme_execute_def shellout_execute_def act_bind_def set_socket_def new_scheme_shell_def hushed_def)
  have n: "entering ''scheme'' @ normal_prompt g0 \<noteq> nl" by (simp add: entering_def nl_def)
  have q: "s\<lparr>sc_queue := []\<rparr> = s"
  proof -
    have "s\<lparr>sc_queue := sc_queue s\<rparr> = s" by simp
    with assms(1) show ?thesis by (simp only: before_shell_def)
  qed
  let ?s = "hold_shell qo (Some (g0\<lparr>has_sock := True\<rparr>)) (s\<lparr>use_count := Suc (use_count s)\<rparr>)"
  have "raw_up ?s" using assms(1) by (simp add: before_shell_def hold_shell_def SetShell_def raw_up_def)
  note sent = Send_raw_up [OF this n]
  have comm: "s\<lparr>use_count := k, sc_queue := []\<rparr> = s\<lparr>sc_queue := [], use_count := k\<rparr>" for k
    by (rule shell_console.equality) simp_all
  have "push_request (script_env other qo eo vt g0 fs) f [] s =
      scheme_request qo eo g0 [] (s\<lparr>sc_queue := [], use_count := Suc (use_count s)\<rparr>)"
    using assms(1,3,4)
    by (simp add: push_request_def script_env_def console_requests_def before_shell_def cs_get_def comm)
  also have "\<dots> = hold_shell qo (Some (g0\<lparr>has_sock := True\<rparr>)) (s\<lparr>tx := tx s @ entering ''scheme'' @ normal_prompt g0\<rparr>)"
    unfolding q scheme_request_def x by (simp add: sent cs_put_def) (simp add: hold_shell_def SetShell_def)
  finally have "push_request (script_env other qo eo vt g0 fs) f [] s =
      hold_shell qo (Some (g0\<lparr>has_sock := True\<rparr>)) (s\<lparr>tx := tx s @ entering ''scheme'' @ normal_prompt g0\<rparr>)" .
  with assms(1,2) tok show ?thesis
    by (subst console_OnLine.simps)
      (simp add: before_shell_def auto_shell_def at_def on_command_def script_env_def)
qed

lemma entered_ready:
  assumes "before_shell s" "new_scheme_shell items canceled g0" "\<not> ev_input_pending eo (ev_clear_pending eo e0)"
  shows "in_shell canceled eo e0 (hold_shell qo (Some (g0\<lparr>has_sock := True\<rparr>)) (s\<lparr>tx := x\<rparr>))"
  using assms
  by (simp add: before_shell_def new_scheme_shell_def in_shell_def shell_ready_def hold_shell_def SetShell_def raw_up_def)

text \<open>The first line: the console gets the shell, and the line goes to it.\<close>

definition starts_expression :: "string \<Rightarrow> bool" where
  "starts_expression l \<longleftrightarrow> at l 0 = CHR ''('' \<or> at l 0 = CHR '';''"

lemma first_line_queued:
  assumes "cq_laws qo items canceled" "before_shell s" "sm_find ''scm'' fs = Some f" "rci_id f = ''scm''" "is_shell f"
    and "new_scheme_shell items canceled g0" "\<not> ev_input_pending eo (ev_clear_pending eo e0)"
    and "starts_expression l" "script_line l"
  obtains s' where "console_OnLine (script_env other qo eo (GenericShell qo eo e0) g0 fs) l s = (Inr (), s')" "in_shell canceled eo e0 s'"
    "lines_queued items [l] (hold_shell qo (Some (g0\<lparr>has_sock := True\<rparr>)) (s\<lparr>tx := tx s @ entering ''scheme'' @ normal_prompt g0\<rparr>)) s'"
proof -
  let ?env = "script_env other qo eo (GenericShell qo eo e0) g0 fs"
  let ?s1 = "hold_shell qo (Some (g0\<lparr>has_sock := True\<rparr>)) (s\<lparr>tx := tx s @ entering ''scheme'' @ normal_prompt g0\<rparr>)"
  have in1: "in_shell canceled eo e0 ?s1" by (rule entered_ready [OF assms(2,6,7)])
  then have sh: "console_shell ?s1 \<noteq> None" by (simp add: in_shell_def)
  obtain s' where s': "console_OnLine ?env l ?s1 = (Inr (), s')" "in_shell canceled eo e0 s'" "lines_queued items [l] ?s1 s'"
    by (rule line_queued [OF assms(1) in1 assms(9)])
  have "console_OnLine ?env l s = console_OnLine ?env l ?s1"
    using assms(2,8) sh scheme_entered [OF assms(2-6), of other qo eo "GenericShell qo eo e0"]
    by (subst console_OnLine.simps) (auto simp: before_shell_def starts_expression_def auto_shell_def script_env_def)
  with s' that show thesis by simp
qed

section \<open>A script\<close>

text \<open>
  C3. A script on the wire. A client connects to the telnet port, sends a scheme script whose first line begins an expression or a comment, cut by the
  network in any way, and ends the connection. Without being asked for it the console enters the scheme shell, once, and every
  line of the script, the first one, blank ones and an unfinished last one included, is in the queue of the evaluation thread exactly once and in order, with
  its newline and without its carriage return. Sent are the prompt and the greeting of the shell, and no request holds the console.
\<close>

theorem script_reaches_shell:
  fixes eo :: "'e eval_ops" and q :: 'w
  assumes "cq_laws qo items canceled" "before_shell s" "sm_find ''scm'' fs = Some f" "rci_id f = ''scm''" "is_shell f"
    and "items q = []" "\<not> canceled q" "\<not> ev_input_pending eo (ev_clear_pending eo e0)"
    and "rx_clean r" "rx_bytes r = text_of (line # ls) tail" "list_all plain_line (line # ls)" "plain_line tail"
    and "starts_expression (strip_cr line)" "list_all script_line (map strip_cr (line # ls))" "script_line (strip_cr tail)"
  shows "\<exists>s' g. handle_connection (script_handlers other qo eo (GenericShell qo eo e0) (snd (SchemeShell hash srv q)) fs sha clk) thread r s
       = (Closed, s')
     \<and> sc_shell s' = Some g \<and> items (evalque g) = map (\<lambda>l. l @ nl) (session_lines (line # ls) tail)
     \<and> tx s' = tx s @ prompt s @ entering ''scheme'' @ scheme_prompt hash srv \<and> use_count s' = use_count s"
proof -
  let ?g0 = "snd (SchemeShell hash srv q) :: ('w, 'e) shell"
  let ?h = "script_handlers other qo eo (GenericShell qo eo e0) ?g0 fs sha clk"
  let ?s0 = "s\<lparr>tid := thread, tx := tx s @ prompt s\<rparr>"
  let ?s1 = "got_line ?h ?s0"
  have g0: "new_scheme_shell items canceled ?g0" using assms(6,7) by (rule SchemeShell_new)
  have up: "\<not> is_http_socket s" "\<not> do_frame_io ?s0" "\<not> is_http_socket ?s0" "before_shell ?s1"
    using assms(2) by (simp_all add: before_shell_def raw_up_def got_line_def)
  have c: "OnConnection ?h (s\<lparr>tid := thread\<rparr>) = (Inr (), ?s0)"
    using prompt_sent [of "s\<lparr>tid := thread\<rparr>"] assms(2)
    by (simp add: script_handlers_def console_OnConnection_def before_shell_def raw_up_def)
  have l: "plain_line line" "script_line (strip_cr line)" "list_all (\<lambda>l. plain_line l \<and> script_line (strip_cr l)) ls"
    using assms(11,14) by (simp_all add: list_all_iff)
  obtain s2 where s2: "console_OnLine (script_env other qo eo (GenericShell qo eo e0) ?g0 fs) (strip_cr line) ?s1 = (Inr (), s2)"
    "in_shell canceled eo e0 s2"
    "lines_queued items [strip_cr line]
       (hold_shell qo (Some (?g0\<lparr>has_sock := True\<rparr>)) (?s1\<lparr>tx := tx ?s1 @ entering ''scheme'' @ normal_prompt ?g0\<rparr>)) s2"
    by (rule first_line_queued [OF assms(1) up(4) assms(3-5) g0 assms(8,13) l(2), where other = other])
  then have o: "OnLine ?h (strip_cr line) ?s1 = (Inr (), s2)" by (simp add: script_handlers_def)
  obtain s' where "handle_connection ?h thread r s = (Closed, s')" "lines_queued items (session_lines ls tail) s2 s'"
    by (rule line_service.session_after [OF script_line_service [OF assms(1)] up(1) c up(2,3) l(1) o s2(2) assms(9,10) l(3) assms(12,15)])
  moreover have "items (evalque ?g0) = []" using g0 by (simp add: new_scheme_shell_def)
  moreover have "normal_prompt ?g0 = scheme_prompt hash srv" by (simp add: SchemeShell_def)
  ultimately show ?thesis
    using s2(3) by (auto simp: lines_queued_def hold_shell_def SetShell_def session_lines_def got_line_def)
qed

definition script_console :: "(string list \<times> bool, unit) shell_console" where
  "script_console = server_socket.extend (set_connection (new_server_socket 0))
     \<lparr>use_count = 0, console_shell = None, prompt = ''> '', sc_shell = None, sc_queue = []\<rparr>"

definition scm_command :: RequestClassInfo where
  "scm_command = emptyClassInfo\<lparr>rci_id := ''scm'', is_shell := True\<rparr>"

lemma script_console_before: "before_shell script_console" "tx script_console = []" "prompt script_console = ''> ''"
  by (simp_all add: script_console_def before_shell_def raw_up_def set_connection_def new_server_socket_def server_socket.extend_def nl_def)

theorem script_reaches_shell_witness:
  "\<exists>s' g. handle_connection (script_handlers (\<lambda>f ps s. s) list_cq null_eval (GenericShell list_cq null_eval ())
        (snd (SchemeShell (\<lambda>k. of_nat (length k)) demo_server ([], False))) [(''scm'', scm_command)] id int) 7
        [Chunk ''(define'', Chunk (nl @ ''  x 1)'' @ [CHR 0x0D] @ nl @ nl), Chunk ''(+ x 2)''] script_console = (Closed, s')
     \<and> sc_shell s' = Some g \<and> fst (evalque g) = [''(define'' @ nl, ''  x 1)'' @ nl, nl, ''(+ x 2)'' @ nl]
     \<and> tx s' = ''> '' @ entering ''scheme'' @ scheme_prompt (\<lambda>k. of_nat (length k)) demo_server"
  using script_reaches_shell [OF list_cq_laws script_console_before(1), of "[(''scm'', scm_command)]" scm_command "([], False)" null_eval "()"
      "[Chunk ''(define'', Chunk (nl @ ''  x 1)'' @ [CHR 0x0D] @ nl @ nl), Chunk ''(+ x 2)'']" "''(define''" "[''  x 1)'' @ [CHR 0x0D], []]"
      "''(+ x 2)''" "\<lambda>f ps s. s" "\<lambda>k. of_nat (length k)" demo_server id int 7]
  by (simp add: script_console_before scm_command_def emptyClassInfo_def sm_find_def null_eval_def text_of_def nl_def plain_line_def dbus_garbage_def
      strip_cr_def starts_expression_def at_def script_line_def ordinary_line_def no_iac_def interrupt_line_def exit_line_def session_lines_def)
     blast

end
