(* ===== verification/Json.thy ===== *)
theory Json
  imports Std_Map
begin

text \<open>
  JSON values as \<^verbatim>\<open>Json::Value\<close> presents them: an object keeps its members in the order of their names;
  \<^verbatim>\<open>isMember\<close> and \<^verbatim>\<open>operator[]\<close> are defined on objects and on null, and throw on anything else. Parsing, writing
  and \<^verbatim>\<open>asString\<close> are the library's and are arguments where they are used. The printer below is a reference
  for texts that a client may send.
\<close>

section \<open>Values\<close>

datatype json =
    JNull
  | JBool bool
  | JInt int
  | JReal string
  | JString string
  | JArray "json list"
  | JObject "(string \<times> json) list"

text \<open>Results of code that may throw a \<^verbatim>\<open>std::exception\<close>: \<^const>\<open>Inl\<close> has its \<^verbatim>\<open>what()\<close>.\<close>

type_synonym 'a jres = "string + 'a"

definition jbind :: "'a jres \<Rightarrow> ('a \<Rightarrow> 'b jres) \<Rightarrow> 'b jres" where
  "jbind r f = (case r of Inl e \<Rightarrow> Inl e | Inr a \<Rightarrow> f a)"

lemma jbind_simps [simp]: "jbind (Inl e) f = Inl e" "jbind (Inr a) f = f a"
  by (simp_all add: jbind_def)

definition isMember :: "string \<Rightarrow> string \<Rightarrow> json \<Rightarrow> bool jres" where
  "isMember err k j =
     (case j of
        JObject m \<Rightarrow> Inr (sm_find k m \<noteq> None)
      | JNull \<Rightarrow> Inr False
      | _ \<Rightarrow> Inl err)"

definition jget :: "string \<Rightarrow> json \<Rightarrow> json" where
  "jget k j =
     (case j of
        JObject m \<Rightarrow> (case sm_find k m of Some v \<Rightarrow> v | None \<Rightarrow> JNull)
      | _ \<Rightarrow> JNull)"

text \<open>Assignment to a member, which makes an object of null, and removal.\<close>

definition jset :: "string \<Rightarrow> json \<Rightarrow> json \<Rightarrow> json" where
  "jset k v j = (case j of JObject m \<Rightarrow> JObject (sm_put k v m) | _ \<Rightarrow> JObject (sm_put k v []))"

definition jremove :: "string \<Rightarrow> json \<Rightarrow> json" where
  "jremove k j = (case j of JObject m \<Rightarrow> JObject (snd (sm_erase k m)) | _ \<Rightarrow> j)"

definition jappend :: "json \<Rightarrow> json \<Rightarrow> json" where
  "jappend v j = (case j of JArray l \<Rightarrow> JArray (l @ [v]) | _ \<Rightarrow> JArray [v])"

text \<open>Assignment to a member of a member, as in \<^verbatim>\<open>response["error"]["code"] = v\<close>.\<close>

definition jset2 :: "string \<Rightarrow> string \<Rightarrow> json \<Rightarrow> json \<Rightarrow> json" where
  "jset2 k1 k2 v j = jset k1 (jset k2 v (jget k1 j)) j"

definition jset3 :: "string \<Rightarrow> string \<Rightarrow> string \<Rightarrow> json \<Rightarrow> json \<Rightarrow> json" where
  "jset3 k1 k2 k3 v j = jset k1 (jset2 k2 k3 v (jget k1 j)) j"

text \<open>
  The library: parsing (which may throw, or report errors), the compact writer, \<^verbatim>\<open>asString\<close>, and the text of the
  exception that an operation on a value of the wrong type throws.
\<close>

record json_lib =
  js_parse :: "string \<Rightarrow> (string + json) jres"
  js_write :: "json \<Rightarrow> string"
  js_asString :: "json \<Rightarrow> string jres"
  js_type_error :: "json \<Rightarrow> string"

text \<open>
  A loop over \<^verbatim>\<open>size()\<close> and an index: an array gives its elements; an object has a size but no index; anything
  else has size 0.
\<close>

definition jelems :: "json_lib \<Rightarrow> json \<Rightarrow> json list jres" where
  "jelems lib j =
     (case j of
        JArray l \<Rightarrow> Inr l
      | JObject (_ # _) \<Rightarrow> Inl (js_type_error lib j)
      | _ \<Rightarrow> Inr [])"

text \<open>\<^verbatim>\<open>operator[]\<close> with a name.\<close>

definition jindex :: "json_lib \<Rightarrow> string \<Rightarrow> json \<Rightarrow> json jres" where
  "jindex lib k j =
     (case j of JObject m \<Rightarrow> Inr (jget k j) | JNull \<Rightarrow> Inr JNull | _ \<Rightarrow> Inl (js_type_error lib j))"

text \<open>The idioms \<^verbatim>\<open>j.isMember(k) ? j[k] : d\<close> and \<^verbatim>\<open>j.isMember(k) ? j[k].asString() : ""\<close>.\<close>

definition opt_member :: "json_lib \<Rightarrow> string \<Rightarrow> json \<Rightarrow> json \<Rightarrow> json jres" where
  "opt_member lib k j d = jbind (isMember (js_type_error lib j) k j) (\<lambda>b. Inr (if b then jget k j else d))"

definition opt_string :: "json_lib \<Rightarrow> string \<Rightarrow> json \<Rightarrow> string jres" where
  "opt_string lib k j =
     jbind (isMember (js_type_error lib j) k j) (\<lambda>b. if b then js_asString lib (jget k j) else Inr [])"

definition jhas :: "string \<Rightarrow> json \<Rightarrow> bool" where
  "jhas k j = (case j of JObject m \<Rightarrow> sm_find k m \<noteq> None | _ \<Rightarrow> False)"

definition jinv :: "json \<Rightarrow> bool" where
  "jinv j = (case j of JObject m \<Rightarrow> sm_inv m | _ \<Rightarrow> True)"

lemma jset_inv: "jinv j \<Longrightarrow> jinv (jset k v j)"
  by (cases j) (auto simp: jinv_def jset_def sm_put_inv simp del: sm_put.simps)

lemma jget_jset: "jinv j \<Longrightarrow> jget k' (jset k v j) = (if k' = k then v else jget k' j)"
  by (cases j) (auto simp: jinv_def jset_def jget_def sm_find_put simp del: sm_put.simps split: option.splits)

lemma jhas_jset: "jinv j \<Longrightarrow> jhas k' (jset k v j) \<longleftrightarrow> k' = k \<or> jhas k' j"
  by (cases j) (auto simp: jinv_def jset_def jhas_def sm_find_put simp del: sm_put.simps split: option.splits)

lemma jremove_inv: "jinv j \<Longrightarrow> jinv (jremove k j)"
  by (cases j) (auto simp: jinv_def jremove_def sm.inv_erase)

lemma jget_jremove: "jinv j \<Longrightarrow> jget k' (jremove k j) = (if k' = k then JNull else jget k' j)"
  by (cases j) (auto simp: jinv_def jremove_def jget_def sm.find_erase split: option.splits)

lemma jhas_jremove: "jinv j \<Longrightarrow> jhas k' (jremove k j) \<longleftrightarrow> k' \<noteq> k \<and> jhas k' j"
  by (cases j) (auto simp: jinv_def jremove_def jhas_def sm.find_erase)

lemma jinv_empty: "jinv (JObject [])"
  by (simp add: jinv_def)

lemma jhas_Nil [simp]: "\<not> jhas k (JObject [])" "\<not> jhas k JNull"
  by (simp_all add: jhas_def)

lemma jinv_null [simp]: "jinv JNull"
  by (simp add: jinv_def)

lemma jget_null [simp]: "jget k JNull = JNull"
  by (simp add: jget_def)

lemma jget_absent_null: "\<not> jhas k j \<Longrightarrow> jget k j = JNull"
  by (cases j) (simp_all add: jhas_def jget_def)

lemmas json_simps = jset_inv jget_jset jhas_jset jremove_inv jget_jremove jhas_jremove jinv_empty

section \<open>Texts\<close>

definition jescape :: "string \<Rightarrow> string" where
  "jescape s = concat (map (\<lambda>c. if c = CHR 0x22 \<or> c = CHR 0x5C then [CHR 0x5C, c] else [c]) s)"

definition jquote :: "string \<Rightarrow> string" where
  "jquote s = [CHR 0x22] @ jescape s @ [CHR 0x22]"

definition jplain :: "string \<Rightarrow> bool" where
  "jplain s \<longleftrightarrow> set s \<inter> {CHR 0x22, CHR 0x5C, CHR 0x7B, CHR 0x7D} = {}"

fun sep_by :: "string \<Rightarrow> string list \<Rightarrow> string" where
  "sep_by s [] = []"
| "sep_by s [x] = x"
| "sep_by s (x # xs) = x @ s @ sep_by s xs"

fun jtext :: "json \<Rightarrow> string" where
  "jtext JNull = ''null''"
| "jtext (JBool b) = (if b then ''true'' else ''false'')"
| "jtext (JInt i) = show_int i"
| "jtext (JReal r) = filter (\<lambda>c. c \<notin> {CHR 0x22, CHR 0x5C, CHR 0x7B, CHR 0x7D}) r"
| "jtext (JString s) = jquote s"
| "jtext (JArray l) = ''['' @ sep_by '','' (map jtext l) @ '']''"
| "jtext (JObject m) = [CHR 0x7B] @ sep_by '','' (map (\<lambda>(k, v). jquote k @ '':'' @ jtext v) m) @ [CHR 0x7D]"

end
