(* ===== verification/Mcp_Server.thy ===== *)
theory Mcp_Server
  imports Json Web_Server
begin

text \<open>
  \<^verbatim>\<open>MCPServer.cc\<close>: the raw socket for the Model Context Protocol. A line may hold several JSON objects; the loop of
  \<^verbatim>\<open>OnLine\<close> cuts it by counting braces outside of strings and evaluates the objects one after the other.
\<close>

section \<open>Model\<close>

text \<open>
  The inner loop, from the current character on: what it passes over, what is left, and the brace count at
  which it stops.
\<close>

definition prep :: "string \<Rightarrow> string \<times> string \<times> int \<Rightarrow> string \<times> string \<times> int" where
  "prep a r = (case r of (x, y, z) \<Rightarrow> (a @ x, y, z))"

fun scan :: "int \<Rightarrow> bool \<Rightarrow> bool \<Rightarrow> string \<Rightarrow> string \<times> string \<times> int" where
  "scan brace_count in_string escape_next [] = ([], [], brace_count)"
| "scan brace_count in_string escape_next (c # cs) =
     (if \<not> escape_next \<and> c = CHR 0x5C then prep [c] (scan brace_count in_string True cs)
      else if \<not> escape_next \<and> c = CHR 0x22 then prep [c] (scan brace_count (\<not> in_string) escape_next cs)
      else if \<not> in_string \<and> \<not> escape_next
      then (if c = CHR 0x7B then prep [c] (scan (brace_count + 1) in_string escape_next cs)
            else if c = CHR 0x7D
            then (if brace_count - 1 = 0 then ([c], cs, 0)
                  else prep [c] (scan (brace_count - 1) in_string escape_next cs))
            else prep [c] (scan brace_count in_string escape_next cs))
      else prep [c] (scan brace_count in_string False cs))"

lemma prep_rest [simp]: "fst (snd (prep a r)) = fst (snd r)"
  by (cases r) (simp add: prep_def)

lemma scan_rest: "length (fst (snd (scan d i e s))) \<le> length s"
proof (induction s arbitrary: d i e)
  case (Cons c s)
  have "length (fst (snd (scan d' i' e' s))) \<le> Suc (length s)" for d' i' e'
    using Cons.IH [of d' i' e'] by simp
  then show ?case by simp
qed simp

lemma scan_shrinks: "s \<noteq> [] \<Longrightarrow> length (fst (snd (scan d i e s))) < length s"
proof (cases s)
  case (Cons c cs)
  have "length (fst (snd (scan d' i' e' cs))) < Suc (length cs)" for d' i' e'
    using scan_rest [of d' i' e' cs] by simp
  with Cons show ?thesis by simp
qed simp

text \<open>The outer loop: the texts that are given to the evaluator, in order.\<close>

function mcp_objects :: "string \<Rightarrow> string list" where
  "mcp_objects buffer =
     (let b = dropWhile is_space buffer
      in if b = [] then []
      else let (obj, rest, brace_count) = scan 0 False False b
      in if brace_count = 0 then obj # mcp_objects rest else [b])"
  by pat_completeness auto
termination
proof (relation "measure length", goal_cases)
  case (2 buffer b x obj y rest d)
  have "length b \<le> length buffer" using 2 length_dropWhile_le [of is_space buffer] by simp
  moreover have "scan 0 False False b = (obj, rest, d)" "b \<noteq> []" using 2 by auto
  then have "length rest < length b" using scan_shrinks [of b 0 False False] by simp
  ultimately show ?case by simp
qed simp

declare mcp_objects.simps [simp del]

text \<open>Each text is evaluated, and the answer sent; a null evaluator is followed blindly.\<close>

fun mcp_eval_all ::
  "'e eval_ops \<Rightarrow> string list \<Rightarrow> 'a console_socket_scheme \<times> 'e \<Rightarrow> unit res \<times> 'a console_socket_scheme \<times> 'e" where
  "mcp_eval_all eo [] se = (Inr (), se)"
| "mcp_eval_all eo (x # xs) (s, e) =
     (case ev_eval eo x (ev_begin eo e) of
        (Inl ex, e1) \<Rightarrow> (Inl ex, s, e1)
      | (Inr _, e1) \<Rightarrow>
          (case ev_poll eo e1 of (result, e2) \<Rightarrow>
             (case Send result s of
                (Inl ex, s1) \<Rightarrow> (Inl ex, s1, e2)
              | (Inr _, s1) \<Rightarrow> mcp_eval_all eo xs (s1, e2))))"

definition mcp_OnLine ::
  "(string \<Rightarrow> ('a console_socket_scheme, unit) act) \<Rightarrow> 'e eval_ops \<Rightarrow> string \<Rightarrow>
   'a console_socket_scheme \<times> 'e \<Rightarrow> unit res \<times> 'a console_socket_scheme \<times> 'e" where
  "mcp_OnLine shell_fn eo line se =
     (if console_shell (fst se) \<noteq> None
      then case shell_fn line (fst se) of (res, s) \<Rightarrow> (res, s, snd se)
      else mcp_eval_all eo (mcp_objects line) se)"

section \<open>Evaluators that answer at once\<close>

text \<open>
  The contract that the loop relies on: a text is evaluated without an exception, the first poll returns the whole
  answer, and the next one finds nothing.
\<close>

fun replies :: "(string \<Rightarrow> 'e \<Rightarrow> string) \<Rightarrow> (string \<Rightarrow> 'e \<Rightarrow> 'e) \<Rightarrow> string list \<Rightarrow> 'e \<Rightarrow> string list" where
  "replies answer after [] e = []"
| "replies answer after (x # xs) e = answer x e # replies answer after xs (after x e)"

definition sent_text :: "string \<Rightarrow> string" where
  "sent_text a = (if a = nl then [] else a)"

lemma Send_raw:
  "has_socket s \<Longrightarrow> sock_up s \<Longrightarrow> \<not> do_frame_io s \<Longrightarrow> Send a s = (Inr (), s\<lparr>tx := tx s @ sent_text a\<rparr>)"
  by (simp add: Send_def sent_text_def nl_def)

locale answering_eval =
  fixes eo :: "'e eval_ops"
    and answer :: "string \<Rightarrow> 'e \<Rightarrow> string"
    and after :: "string \<Rightarrow> 'e \<Rightarrow> 'e"
  assumes answers: "\<exists>e1. ev_eval eo x (ev_begin eo e) = (Inr (), e1) \<and> ev_poll eo e1 = (answer x e, after x e)"
    and ready: "ev_ready eo e"
    and idle: "ev_poll eo (after x e) = ([], after x e)"
begin

lemma eval_all:
  assumes "has_socket s" "sock_up s" "\<not> do_frame_io s"
  shows "mcp_eval_all eo xs (s, e) =
     (Inr (), s\<lparr>tx := tx s @ concat (map sent_text (replies answer after xs e))\<rparr>, fold after xs e)"
  using assms
proof (induction xs arbitrary: s e)
  case (Cons x xs)
  obtain e1 where "ev_eval eo x (ev_begin eo e) = (Inr (), e1)" "ev_poll eo e1 = (answer x e, after x e)"
    using answers by blast
  with Cons show ?case by (simp add: Send_raw)
qed simp

lemma collects:
  "\<exists>e1. ev_eval eo x (ev_begin eo e) = (Inr (), e1) \<and> collect_results eo [] e1 = Some (answer x e, after x e)"
proof -
  obtain e1 where e1: "ev_eval eo x (ev_begin eo e) = (Inr (), e1)" "ev_poll eo e1 = (answer x e, after x e)"
    using answers by blast
  have "polls eo e1 (if answer x e = [] then [] else [answer x e]) (after x e)"
    using e1(2) ready idle by simp
  then have "collect_results eo [] e1 = Some (answer x e, after x e)"
    using collect_polls [of eo e1 _ "after x e" "[]"] by (cases "answer x e = []") fastforce+
  with e1(1) show ?thesis by blast
qed

end

section \<open>The cut is where the objects end\<close>

lemma prep_prep [simp]: "prep a (prep b r) = prep (a @ b) r"
  by (cases r) (simp add: prep_def)

lemma prep_Nil [simp]: "prep [] r = r"
  by (cases r) (simp add: prep_def)

lemma scan_string: "scan d True False (jescape s @ CHR 0x22 # t) = prep (jescape s @ [CHR 0x22]) (scan d False False t)"
  by (induction s) (auto simp: jescape_def)

lemma scan_quote: "scan d False False (jquote s @ t) = prep (jquote s) (scan d False False t)"
  using scan_string [of d s t] by (simp add: jquote_def)

lemma scan_plain: "jplain s \<Longrightarrow> scan d False False (s @ t) = prep s (scan d False False t)"
  by (induction s) (auto simp: jplain_def)

lemma show_int_plain: "jplain (show_int i)"
proof -
  have "jplain (show_nat n)" for n
    using show_nat_digits [of n] by (auto simp: jplain_def is_digit_def)
  then show ?thesis by (auto simp: show_int_def jplain_def)
qed

lemma scan_sep:
  assumes "\<And>x t. x \<in> set xs \<Longrightarrow> scan d False False (x @ t) = prep x (scan d False False t)"
  shows "scan d False False (sep_by '','' xs @ t) = prep (sep_by '','' xs) (scan d False False t)"
  using assms
proof (induction "'',''" xs rule: sep_by.induct)
  case (3 x y ys)
  then have "scan d False False (sep_by '','' (y # ys) @ t) = prep (sep_by '','' (y # ys)) (scan d False False t)"
    by auto
  with 3 show ?case by simp
qed auto

text \<open>Inside an object, a value is passed over as a whole.\<close>

lemma scan_value: "0 < d \<Longrightarrow> scan d False False (jtext j @ t) = prep (jtext j) (scan d False False t)"
proof (induction j arbitrary: d t)
  case (JInt i)
  then show ?case by (simp add: scan_plain show_int_plain)
next
  case (JReal r)
  have "jplain (jtext (JReal r))" by (auto simp: jplain_def)
  then show ?case by (rule scan_plain)
next
  case (JString s)
  then show ?case by (simp add: scan_quote)
next
  case (JArray l)
  then have "scan d False False (sep_by '','' (map jtext l) @ CHR '']'' # t) =
      prep (sep_by '','' (map jtext l)) (scan d False False (CHR '']'' # t))"
    by (intro scan_sep) auto
  then show ?case by simp
next
  case (JObject m)
  have "scan (d + 1) False False (sep_by '','' (map (\<lambda>(k, v). jquote k @ '':'' @ jtext v) m) @ CHR 0x7D # t) =
      prep (sep_by '','' (map (\<lambda>(k, v). jquote k @ '':'' @ jtext v) m)) (scan (d + 1) False False (CHR 0x7D # t))"
  proof (rule scan_sep)
    fix x t' assume "x \<in> set (map (\<lambda>(k, v). jquote k @ '':'' @ jtext v) m)"
    then obtain k v where kv: "(k, v) \<in> set m" "x = jquote k @ '':'' @ jtext v" by auto
    have "scan (d + 1) False False (jtext v @ t') = prep (jtext v) (scan (d + 1) False False t')"
      using JObject.IH [OF kv(1), of v "d + 1"] JObject.prems by (simp add: snds.intros)
    with kv(2) show "scan (d + 1) False False (x @ t') = prep x (scan (d + 1) False False t')"
      by (simp add: scan_quote)
  qed
  with JObject.prems show ?case by simp
qed (simp_all add: scan_plain jplain_def)

lemma scan_object: "scan 0 False False (jtext (JObject m) @ t) = (jtext (JObject m), t, 0)"
proof -
  have "scan 1 False False (sep_by '','' (map (\<lambda>(k, v). jquote k @ '':'' @ jtext v) m) @ CHR 0x7D # t) =
      prep (sep_by '','' (map (\<lambda>(k, v). jquote k @ '':'' @ jtext v) m)) (scan 1 False False (CHR 0x7D # t))"
    by (rule scan_sep) (auto simp: scan_quote scan_value)
  then show ?thesis by (simp add: prep_def)
qed

lemma objects_cut:
  assumes "list_all (\<lambda>(ws, m). list_all is_space ws) oms" "list_all is_space trail"
  shows "mcp_objects (concat (map (\<lambda>(ws, m). ws @ jtext (JObject m)) oms) @ trail) =
     map (\<lambda>(ws, m). jtext (JObject m)) oms"
  using assms(1)
proof (induction oms)
  case Nil
  have "dropWhile is_space trail = []" using assms(2) by (simp add: list_all_iff dropWhile_eq_Nil_conv)
  then show ?case by (simp add: mcp_objects.simps [of trail])
next
  case (Cons om oms)
  obtain ws m where om: "om = (ws, m)" by (cases om)
  let ?t = "concat (map (\<lambda>(ws, m). ws @ jtext (JObject m)) oms) @ trail"
  have "\<forall>c \<in> set ws. is_space c" using Cons.prems om by (simp add: list_all_iff)
  moreover have "\<not> is_space (CHR 0x7B)" by (simp add: is_space_def)
  ultimately have "dropWhile is_space (ws @ jtext (JObject m) @ ?t) = jtext (JObject m) @ ?t"
    by (simp add: dropWhile_append2)
  then have "mcp_objects (ws @ jtext (JObject m) @ ?t) = jtext (JObject m) # mcp_objects ?t"
    using scan_object [of m ?t] by (subst mcp_objects.simps) (simp add: Let_def)
  with Cons om show ?case by simp
qed

text \<open>
  C13. Any number of JSON objects on one line, with any white space before, between and after them, and with braces
  and escaped quotes in their strings: each one is evaluated, exactly once and in order.
\<close>

theorem mcp_objects_cut:
  assumes "list_all (\<lambda>(ws, m). list_all is_space ws) oms" "list_all is_space trail"
  shows "mcp_objects (concat (map (\<lambda>(ws, m). ws @ jtext (JObject m)) oms) @ trail) =
     map (\<lambda>(ws, m). jtext (JObject m)) oms"
  by (rule objects_cut [OF assms])

theorem mcp_objects_cut_witness:
  \<open>mcp_objects '' {"a":"}{"} {"b":{"c":[true,null]}}  '' = [''{"a":"}{"}'', ''{"b":{"c":[true,null]}}'']\<close>
  using mcp_objects_cut [of "[('' '', [(''a'', JString ''}{'')]),
      ('' '', [(''b'', JObject [(''c'', JArray [JBool True, JNull])])])]" "''  ''"]
  by (simp add: jquote_def jescape_def is_space_def)

end
