(* ===== verification/Mcp_Eval.thy ===== *)
theory Mcp_Eval
  imports Mcp_Server
begin

text \<open>
  \<^verbatim>\<open>McpEval.cc\<close>: the evaluator of the Model Context Protocol, a JSON-RPC server over the tools of its plugins and
  a fixed set of documents. The JSON library, the file system and the installation prefix are arguments.
\<close>

section \<open>State\<close>

text \<open>
  A plugin, with the pointer as its identity. A tool may change the world it works on (the AtomSpace, the clock) and
  may throw.
\<close>

record 'w mcp_plugin =
  plugin_id :: nat
  tool_descriptions :: string
  invoke_tool :: "string \<Rightarrow> string \<Rightarrow> 'w \<Rightarrow> string jres \<times> 'w"

record 'w mcp_eval =
  mcp_started :: bool
  mcp_done :: bool
  mcp_caught_error :: bool
  mcp_result :: string
  mcp_atomspace :: 'w
  plugins :: "'w mcp_plugin list"
  tool_to_plugin :: "'w mcp_plugin smap"

text \<open>\<open>caught\<close> is what the base class sets \<^verbatim>\<open>_caught_error\<close> to.\<close>

definition new_mcp_eval :: "bool \<Rightarrow> 'w \<Rightarrow> 'w mcp_eval" where
  "new_mcp_eval caught asp =
     \<lparr>mcp_started = False, mcp_done = False, mcp_caught_error = caught, mcp_result = [], mcp_atomspace = asp,
      plugins = [], tool_to_plugin = []\<rparr>"

section \<open>Documents\<close>

definition rpc_error :: "int \<Rightarrow> string \<Rightarrow> json \<Rightarrow> json" where
  "rpc_error code message response =
     jset2 ''error'' ''message'' (JString message) (jset2 ''error'' ''code'' (JInt code) response)"

definition publish_resource ::
  "(string \<Rightarrow> string option) \<Rightarrow> string \<Rightarrow> string \<Rightarrow> string \<Rightarrow> json \<Rightarrow> bool \<times> json" where
  "publish_resource files doc_base uri filename response =
     (let doc_path = doc_base @ filename
      in case files doc_path of
           None \<Rightarrow> (False, rpc_error (- 32602) (''Failed to read documentation file: '' @ doc_path) response)
         | Some buffer \<Rightarrow>
             (let content = jset ''text'' (JString buffer) (jset ''mimeType'' (JString ''text/markdown'')
                              (jset ''uri'' (JString uri) JNull))
              in (True, jset2 ''result'' ''contents''
                    (jappend content (JArray [])) (jset2 ''result'' ''contents'' (JArray []) response))))"

text \<open>What \<^verbatim>\<open>resources/list\<close> announces: URI, name and description.\<close>

definition resource_docs :: "(string \<times> string \<times> string) list" where
  "resource_docs =
     [(''atomspace://docs/introduction'', ''AtomSpace Introduction'',
       ''Overview of the AtomSpace, Atoms, and basic concepts''),
      (''atomspace://docs/atomspace-guide'', ''AtomSpace Detailed Guide'',
       ''Comprehensive guide to Atomese, the AtomSpace, and the CogServer''),
      (''atomspace://docs/cogserver-mcp'', ''CogServer and MCP Access'',
       ''How to access the CogServer, MCP tools, port numbers, and documentation locations''),
      (''atomspace://docs/atom-types'', ''Atom Types Reference'',
       ''Comprehensive reference for 170+ Atom types organized by functional category''),
      (''atomspace://docs/create-atom'', ''Creating Atoms Guide'',
       ''Guide for creating Nodes and Links in the AtomSpace''),
      (''atomspace://docs/designing-structures'', ''Designing Structures Guide'',
       ''Guide for designing data structures in Atomese: global uniqueness, avoiding IDs, Atomese vs programming languages''),
      (''atomspace://docs/query-atom'', ''Querying the AtomSpace'',
       ''Guide for querying and exploring the AtomSpace effectively''),
      (''atomspace://docs/working-with-values'', ''Working with Values'',
       ''Guide for working with Values and key-value pairs''),
      (''atomspace://docs/pattern-matching'', ''Pattern Matching Guide'',
       ''Guide for using MeetLink and QueryLink to search the AtomSpace with patterns''),
      (''atomspace://docs/advanced-pattern-matching'', ''Advanced Pattern Matching'',
       ''Guide for using AbsentLink, ChoiceLink, AlwaysLink, and GroupLink in sophisticated queries''),
      (''atomspace://docs/streams'', ''Working with Streams'',
       ''Comprehensive guide for creating and processing data streams: FormulaStream, FutureStream, FlatStream, FilterLink, DrainLink''),
      (''atomspace://docs/using-storage'', ''Using StorageNodes'',
       ''Guide for using StorageNodes to persist Atoms to databases and remote systems'')]"

definition resource_entry :: "string \<times> string \<times> string \<Rightarrow> json" where
  "resource_entry d =
     (case d of (uri, name, descr) \<Rightarrow>
        jset ''mimeType'' (JString ''text/markdown'') (jset ''description'' (JString descr)
          (jset ''name'' (JString name) (jset ''uri'' (JString uri) JNull))))"

definition resources_list :: "json \<Rightarrow> json" where
  "resources_list response =
     jset2 ''result'' ''resources'' (foldl (\<lambda>rs d. jappend (resource_entry d) rs) (JArray []) resource_docs) response"

text \<open>The chain of comparisons in \<^verbatim>\<open>resources/read\<close>: the file behind each URI.\<close>

definition resource_files :: "(string \<times> string) list" where
  "resource_files =
     [(''atomspace://docs/introduction'', ''AtomSpace-Overview.md''),
      (''atomspace://docs/atomspace-guide'', ''AtomSpace-Details.md''),
      (''atomspace://docs/cogserver-mcp'', ''CogServer-Resource.md''),
      (''atomspace://docs/atom-types'', ''AtomTypes-Resource.md''),
      (''atomspace://docs/create-atom'', ''CreateAtom-Resource.md''),
      (''atomspace://docs/designing-structures'', ''DesigningStructures-Resource.md''),
      (''atomspace://docs/query-atom'', ''QueryAtom-Resource.md''),
      (''atomspace://docs/working-with-values'', ''WorkingWithValues-Resource.md''),
      (''atomspace://docs/pattern-matching'', ''PatternMatching-Resource.md''),
      (''atomspace://docs/advanced-pattern-matching'', ''AdvancedPatternMatching-Resource.md''),
      (''atomspace://docs/streams'', ''Streams-Resource.md''),
      (''atomspace://docs/using-storage'', ''UsingStorage.md'')]"

definition resources_read :: "json_lib \<Rightarrow> (string \<Rightarrow> string option) \<Rightarrow> string \<Rightarrow> json \<Rightarrow> json \<Rightarrow> json jres" where
  "resources_read lib files prefix params response =
     jbind (opt_string lib ''uri'' params) (\<lambda>uri.
       let doc_base = prefix @ ''/share/cogserver/mcp/''
       in Inr (case map_of resource_files uri of
                 Some filename \<Rightarrow> snd (publish_resource files doc_base uri filename response)
               | None \<Rightarrow> rpc_error (- 32602) (''Resource not found: '' @ uri) response))"

section \<open>Tools\<close>

text \<open>\<^verbatim>\<open>tools/list\<close>: the descriptions of all plugins; one that cannot be parsed is left out.\<close>

fun tools_loop :: "json_lib \<Rightarrow> 'w mcp_plugin list \<Rightarrow> json list \<Rightarrow> json list jres" where
  "tools_loop lib [] all_tools = Inr all_tools"
| "tools_loop lib (plugin # ps) all_tools =
     jbind (js_parse lib (tool_descriptions plugin)) (\<lambda>r.
       case r of
         Inl errors \<Rightarrow> tools_loop lib ps all_tools
       | Inr plugin_tools \<Rightarrow>
           jbind (jelems lib plugin_tools) (\<lambda>l. tools_loop lib ps (all_tools @ l)))"

definition tools_list :: "json_lib \<Rightarrow> json \<Rightarrow> 'w mcp_eval \<Rightarrow> json jres" where
  "tools_list lib response ev =
     jbind (tools_loop lib (plugins ev) []) (\<lambda>all_tools. Inr (jset2 ''result'' ''tools'' (JArray all_tools) response))"

text \<open>The content of a result that reports an exception of the tool.\<close>

definition error_content :: "string \<Rightarrow> json" where
  "error_content what =
     jset ''isError'' (JBool True)
       (jset ''content''
         (jappend (jset ''text'' (JString what) (jset ''type'' (JString ''text'') JNull)) JNull) JNull)"

definition tools_call :: "json_lib \<Rightarrow> json \<Rightarrow> json \<Rightarrow> 'w mcp_eval \<Rightarrow> json jres \<times> 'w mcp_eval" where
  "tools_call lib params response ev =
     (case opt_string lib ''name'' params of
        Inl e \<Rightarrow> (Inl e, ev)
      | Inr tool_name \<Rightarrow>
          (case opt_member lib ''arguments'' params (JObject []) of
             Inl e \<Rightarrow> (Inl e, ev)
           | Inr arguments \<Rightarrow>
               (case sm_find tool_name (tool_to_plugin ev) of
                  None \<Rightarrow> (Inr (rpc_error (- 32601) (''Tool not found: '' @ tool_name) response), ev)
                | Some plugin \<Rightarrow>
                    (case invoke_tool plugin tool_name (js_write lib arguments) (mcp_atomspace ev) of (res, w) \<Rightarrow>
                       ((case res of
                           Inl what \<Rightarrow> Inr (jset ''result'' (error_content what) response)
                         | Inr tool_result_json \<Rightarrow>
                             jbind (js_parse lib tool_result_json) (\<lambda>r.
                               Inr (case r of
                                      Inl errors \<Rightarrow> rpc_error (- 32700) ''Failed to parse tool result'' response
                                    | Inr tool_result \<Rightarrow> jset ''result'' tool_result response))),
                        ev\<lparr>mcp_atomspace := w\<rparr>)))))"

section \<open>Requests\<close>

definition mcp_initialize :: "json \<Rightarrow> json" where
  "mcp_initialize response =
     (let toolsCapability = jset ''listChanged'' (JBool False) JNull;
          resourcesCapability = jset ''listChanged'' (JBool False) (jset ''subscribe'' (JBool False) JNull);
          r1 = jset2 ''result'' ''protocolVersion'' (JString ''2025-06-18'') response;
          r2 = jset3 ''result'' ''capabilities'' ''tools'' toolsCapability r1;
          r3 = jset3 ''result'' ''capabilities'' ''resources'' resourcesCapability r2;
          r4 = jset3 ''result'' ''serverInfo'' ''name'' (JString ''CogServer MCP'') r3;
          r5 = jset3 ''result'' ''serverInfo'' ''version'' (JString ''0.2.1'') r4
      in jset3 ''result'' ''serverInfo'' ''instructions''
           (JString (''The CogServer MCP provides access to a live, running instance of the ''
              @ ''AtomSpace. It allows the MCP client to view and manipulate the contents ''
              @ ''of the AtomSpace. This includes creating and deleting Atoms, changing ''
              @ ''the Values attached to them, running the executable Atoms, and sending ''
              @ ''messages to those Atoms that implement an Object interface.'')) r5)"

text \<open>The branches on the method; \<^const>\<open>None\<close> is a request that gets no response.\<close>

definition mcp_method ::
  "json_lib \<Rightarrow> (string \<Rightarrow> string option) \<Rightarrow> string \<Rightarrow> string \<Rightarrow> json \<Rightarrow> json \<Rightarrow> 'w mcp_eval \<Rightarrow>
   json option jres \<times> 'w mcp_eval" where
  "mcp_method lib files prefix method params response ev =
     (if method = ''initialize'' then (Inr (Some (mcp_initialize response)), ev)
      else if method = ''notifications/initialized'' \<or> method = ''initialized''
      then (Inr (Some (jremove ''id'' (jset ''result'' (JObject []) response))), ev)
      else if method = ''notifications/cancelled'' then (Inr None, ev)
      else if method = ''ping'' then (Inr (Some (jset ''result'' (JObject []) response)), ev)
      else if method = ''tools/list'' then (jbind (tools_list lib response ev) (\<lambda>r. Inr (Some r)), ev)
      else if method = ''resources/list'' then (Inr (Some (resources_list response)), ev)
      else if method = ''resources/read''
      then (jbind (resources_read lib files prefix params response) (\<lambda>r. Inr (Some r)), ev)
      else if method = ''tools/call''
      then (case tools_call lib params response ev of (r, ev') \<Rightarrow> (jbind r (\<lambda>r. Inr (Some r)), ev'))
      else (Inr (Some (rpc_error (- 32601) (''Method not found: '' @ method) response)), ev))"

definition error_response :: "int \<Rightarrow> string \<Rightarrow> json" where
  "error_response code message = rpc_error code message (jset ''id'' JNull (jset ''jsonrpc'' (JString ''2.0'') JNull))"

text \<open>
  What the body of the try block does: it returns early without marking the evaluation done (\<open>Undone\<close>), it marks it
  done with a reply or with an empty one, or it throws.
\<close>

datatype outcome = Undone json | Reply json | No_reply

definition version_ok :: "json_lib \<Rightarrow> json \<Rightarrow> bool jres" where
  "version_ok lib request =
     jbind (isMember (js_type_error lib request) ''jsonrpc'' request) (\<lambda>b.
       if \<not> b then Inr False
       else jbind (js_asString lib (jget ''jsonrpc'' request)) (\<lambda>v. Inr (v = ''2.0'')))"

definition handle_request ::
  "json_lib \<Rightarrow> (string \<Rightarrow> string option) \<Rightarrow> string \<Rightarrow> string \<Rightarrow> 'w mcp_eval \<Rightarrow> outcome jres \<times> 'w mcp_eval" where
  "handle_request lib files prefix expr ev =
     (case js_parse lib expr of
        Inl e \<Rightarrow> (Inl e, ev)
      | Inr (Inl errors) \<Rightarrow> (Inr (Undone (error_response (- 32700) (''Parse error: '' @ errors))), ev)
      | Inr (Inr request) \<Rightarrow>
     (case version_ok lib request of
        Inl e \<Rightarrow> (Inl e, ev)
      | Inr False \<Rightarrow> (Inr (Undone (error_response (- 32600) ''Invalid Request - missing jsonrpc 2.0'')), ev)
      | Inr True \<Rightarrow>
     (case opt_string lib ''method'' request of
        Inl e \<Rightarrow> (Inl e, ev)
      | Inr method \<Rightarrow>
     (case opt_member lib ''params'' request (JObject []) of
        Inl e \<Rightarrow> (Inl e, ev)
      | Inr params \<Rightarrow>
     (case opt_member lib ''id'' request JNull of
        Inl e \<Rightarrow> (Inl e, ev)
      | Inr i \<Rightarrow>
     (case mcp_method lib files prefix method params
             (jset ''id'' i (jset ''jsonrpc'' (JString ''2.0'') JNull)) ev of
        (Inl e, ev') \<Rightarrow> (Inl e, ev')
      | (Inr None, ev') \<Rightarrow> (Inr No_reply, ev')
      | (Inr (Some response), ev') \<Rightarrow> (Inr (Reply response), ev')))))))"

section \<open>The evaluator interface\<close>

text \<open>\<^verbatim>\<open>eval_expr\<close>: what is thrown becomes an error reply.\<close>

definition eval_expr ::
  "json_lib \<Rightarrow> (string \<Rightarrow> string option) \<Rightarrow> string \<Rightarrow> string \<Rightarrow> 'w mcp_eval \<Rightarrow> 'w mcp_eval" where
  "eval_expr lib files prefix expr ev =
     (if expr = [] then ev
      else if expr = nl then ev
      else case handle_request lib files prefix expr ev of
        (Inr (Undone r), ev') \<Rightarrow> ev'\<lparr>mcp_result := js_write lib r @ nl\<rparr>
      | (Inr No_reply, ev') \<Rightarrow> ev'\<lparr>mcp_result := [], mcp_done := True\<rparr>
      | (Inr (Reply r), ev') \<Rightarrow> ev'\<lparr>mcp_result := js_write lib r @ nl, mcp_done := True\<rparr>
      | (Inl what, ev') \<Rightarrow>
          ev'\<lparr>mcp_result := js_write lib (error_response (- 32700) (''Parse error: '' @ what)) @ nl, mcp_done := True\<rparr>)"

definition poll_result :: "'w mcp_eval \<Rightarrow> string \<times> 'w mcp_eval" where
  "poll_result ev = (if mcp_done ev then (mcp_result ev, ev\<lparr>mcp_done := False\<rparr>) else ([], ev))"

definition begin_eval :: "'w mcp_eval \<Rightarrow> 'w mcp_eval" where
  "begin_eval ev = ev\<lparr>mcp_done := False\<rparr>"

definition interrupt :: "'w mcp_eval \<Rightarrow> 'w mcp_eval" where
  "interrupt ev = ev\<lparr>mcp_done := True, mcp_started := False, mcp_caught_error := True\<rparr>"

text \<open>The methods that \<^verbatim>\<open>McpEval\<close> overrides; the others are those of the base class.\<close>

definition mcp_ops ::
  "json_lib \<Rightarrow> (string \<Rightarrow> string option) \<Rightarrow> string \<Rightarrow> 'w mcp_eval eval_ops \<Rightarrow> 'w mcp_eval eval_ops" where
  "mcp_ops lib files prefix base =
     base\<lparr>ev_begin := begin_eval, ev_eval := (\<lambda>expr ev. (Inr (), eval_expr lib files prefix expr ev)),
       ev_ready := (\<lambda>_. True), ev_poll := poll_result, ev_interrupt := interrupt\<rparr>"

section \<open>Plugins\<close>

fun map_tools :: "json_lib \<Rightarrow> 'w mcp_plugin \<Rightarrow> json list \<Rightarrow> 'w mcp_eval \<Rightarrow> unit jres \<times> 'w mcp_eval" where
  "map_tools lib plugin [] ev = (Inr (), ev)"
| "map_tools lib plugin (tool # tools) ev =
     (case jbind (jindex lib ''name'' tool) (js_asString lib) of
        Inl e \<Rightarrow> (Inl e, ev)
      | Inr tool_name \<Rightarrow>
          map_tools lib plugin tools (ev\<lparr>tool_to_plugin := sm_put tool_name plugin (tool_to_plugin ev)\<rparr>))"

text \<open>A plugin pointer may be null.\<close>

definition register_plugin :: "json_lib \<Rightarrow> 'w mcp_plugin option \<Rightarrow> 'w mcp_eval \<Rightarrow> unit jres \<times> 'w mcp_eval" where
  "register_plugin lib pl ev =
     (case pl of
        None \<Rightarrow> (Inr (), ev)
      | Some plugin \<Rightarrow>
          (let ev1 = ev\<lparr>plugins := plugins ev @ [plugin]\<rparr>
           in case js_parse lib (tool_descriptions plugin) of
                Inl e \<Rightarrow> (Inl e, ev1)
              | Inr (Inl errors) \<Rightarrow> (Inr (), ev1)
              | Inr (Inr tools) \<Rightarrow>
                  (case jelems lib tools of
                     Inl e \<Rightarrow> (Inl e, ev1)
                   | Inr l \<Rightarrow> map_tools lib plugin l ev1)))"

definition unregister_plugin :: "'w mcp_plugin option \<Rightarrow> 'w mcp_eval \<Rightarrow> 'w mcp_eval" where
  "unregister_plugin pl ev =
     (case pl of
        None \<Rightarrow> ev
      | Some plugin \<Rightarrow>
          ev\<lparr>plugins := filter (\<lambda>p. plugin_id p \<noteq> plugin_id plugin) (plugins ev),
             tool_to_plugin := filter (\<lambda>(t, p). plugin_id p \<noteq> plugin_id plugin) (tool_to_plugin ev)\<rparr>)"

text \<open>
  \<^verbatim>\<open>get_evaluator\<close>: the evaluator of the calling thread, made by the first call (\<open>cur = None\<close>); every call makes the
  two plugins and registers them.
\<close>

definition get_evaluator ::
  "json_lib \<Rightarrow> bool \<Rightarrow> 'w \<Rightarrow> 'w mcp_plugin \<Rightarrow> 'w mcp_plugin \<Rightarrow> 'w mcp_eval option \<Rightarrow> unit jres \<times> 'w mcp_eval" where
  "get_evaluator lib caught asp echo_plugin as_plugin cur =
     (let ev0 = (case cur of None \<Rightarrow> new_mcp_eval caught asp | Some ev \<Rightarrow> ev)
      in case register_plugin lib (Some echo_plugin) ev0 of
           (Inl e, ev1) \<Rightarrow> (Inl e, ev1)
         | (Inr _, ev1) \<Rightarrow> register_plugin lib (Some as_plugin) ev1)"

section \<open>The contract of an answering evaluator\<close>

definition mcp_evaluated :: "json_lib \<Rightarrow> (string \<Rightarrow> string option) \<Rightarrow> string \<Rightarrow> string \<Rightarrow> 'w mcp_eval \<Rightarrow> 'w mcp_eval" where
  "mcp_evaluated lib files prefix x ev = eval_expr lib files prefix x (begin_eval ev)"

definition mcp_answer :: "json_lib \<Rightarrow> (string \<Rightarrow> string option) \<Rightarrow> string \<Rightarrow> string \<Rightarrow> 'w mcp_eval \<Rightarrow> string" where
  "mcp_answer lib files prefix x ev = fst (poll_result (mcp_evaluated lib files prefix x ev))"

definition mcp_after :: "json_lib \<Rightarrow> (string \<Rightarrow> string option) \<Rightarrow> string \<Rightarrow> string \<Rightarrow> 'w mcp_eval \<Rightarrow> 'w mcp_eval" where
  "mcp_after lib files prefix x ev = snd (poll_result (mcp_evaluated lib files prefix x ev))"

interpretation mcp: answering_eval "mcp_ops lib files prefix base" "mcp_answer lib files prefix"
  "mcp_after lib files prefix" for lib files prefix base
  by unfold_locales
    (simp_all add: mcp_ops_def mcp_answer_def mcp_after_def mcp_evaluated_def poll_result_def)

section \<open>Replies\<close>

text \<open>A response under construction, a response with a result, and a response in the form of JSON-RPC 2.0.\<close>

definition rpc_open :: "json \<Rightarrow> json \<Rightarrow> bool" where
  "rpc_open i r \<longleftrightarrow> jinv r \<and> jget ''jsonrpc'' r = JString ''2.0'' \<and> jget ''id'' r = i \<and> \<not> jhas ''result'' r
     \<and> \<not> jhas ''error'' r"

definition rpc_result :: "json \<Rightarrow> json \<Rightarrow> bool" where
  "rpc_result i r \<longleftrightarrow> jinv r \<and> jget ''jsonrpc'' r = JString ''2.0'' \<and> jget ''id'' r = i \<and> jhas ''result'' r
     \<and> \<not> jhas ''error'' r"

definition rpc_reply :: "json \<Rightarrow> json \<Rightarrow> bool" where
  "rpc_reply i r \<longleftrightarrow> jget ''jsonrpc'' r = JString ''2.0'' \<and> jget ''id'' r = i
     \<and> (jhas ''result'' r \<longleftrightarrow> \<not> jhas ''error'' r)"

lemma rpc_open_start: "rpc_open i (jset ''id'' i (jset ''jsonrpc'' (JString ''2.0'') JNull))"
  by (simp add: rpc_open_def json_simps)

lemma rpc_result_set: "rpc_open i r \<Longrightarrow> rpc_result i (jset ''result'' v r)"
  by (auto simp: rpc_open_def rpc_result_def json_simps)

lemma rpc_result_more: "rpc_result i r \<Longrightarrow> rpc_result i (jset ''result'' v r)"
  by (auto simp: rpc_result_def json_simps)

lemma rpc_result_reply: "rpc_result i r \<Longrightarrow> rpc_reply i r"
  by (simp add: rpc_result_def rpc_reply_def)

lemma rpc_error_reply: "rpc_open i r \<Longrightarrow> rpc_reply i (rpc_error c m r)"
  by (auto simp: rpc_open_def rpc_reply_def rpc_error_def jset2_def json_simps)

lemmas rpc_intros = rpc_error_reply rpc_result_reply rpc_result_more rpc_result_set

lemma initialize_reply: "rpc_open i r \<Longrightarrow> rpc_reply i (mcp_initialize r)"
  unfolding mcp_initialize_def Let_def jset2_def jset3_def
  by (rule rpc_result_reply) ((rule rpc_result_set, assumption) | rule rpc_result_more)+

lemma publish_reply: "rpc_open i r \<Longrightarrow> rpc_reply i (snd (publish_resource files base uri file r))"
  by (auto simp: publish_resource_def Let_def jset2_def intro: rpc_intros split: option.splits)

lemma read_reply:
  "rpc_open i r \<Longrightarrow> resources_read lib files prefix params r = Inr r' \<Longrightarrow> rpc_reply i r'"
  by (cases "opt_string lib ''uri'' params")
    (auto simp: resources_read_def intro: rpc_error_reply publish_reply split: option.splits)

lemma call_reply:
  "rpc_open i r \<Longrightarrow> tools_call lib params r ev = (Inr r', ev') \<Longrightarrow> rpc_reply i r'"
  by (auto simp: tools_call_def jbind_def intro: rpc_intros split: sum.splits option.splits prod.splits)

text \<open>The methods whose response is not in this form: the two notifications.\<close>

definition notifications :: "string list" where
  "notifications = [''notifications/initialized'', ''initialized'', ''notifications/cancelled'']"

definition replies_or_throws :: "json \<Rightarrow> json option jres \<Rightarrow> bool" where
  "replies_or_throws i x \<longleftrightarrow> (case x of Inl e \<Rightarrow> True | Inr None \<Rightarrow> False | Inr (Some r) \<Rightarrow> rpc_reply i r)"

lemma replies_if:
  "(c \<Longrightarrow> replies_or_throws i (fst x)) \<Longrightarrow> (\<not> c \<Longrightarrow> replies_or_throws i (fst y)) \<Longrightarrow>
   replies_or_throws i (fst (if c then x else y))"
  by simp

lemma replies_some: "rpc_reply i r \<Longrightarrow> replies_or_throws i (fst (Inr (Some r), ev))"
  by (simp add: replies_or_throws_def)

lemma replies_bind:
  "(\<And>r. x = Inr r \<Longrightarrow> rpc_reply i r) \<Longrightarrow> replies_or_throws i (fst (jbind x (\<lambda>r. Inr (Some r)), ev))"
  by (cases x) (simp_all add: replies_or_throws_def)

lemma list_reply: "rpc_open i r \<Longrightarrow> tools_list lib r ev = Inr r' \<Longrightarrow> rpc_reply i r'"
  by (cases "tools_loop lib (plugins ev) []") (auto simp: tools_list_def jset2_def intro: rpc_intros)

lemma call_replies:
  "rpc_open i r \<Longrightarrow>
   replies_or_throws i (fst (case tools_call lib params r ev of (r, ev') \<Rightarrow> (jbind r (\<lambda>r. Inr (Some r)), ev')))"
  by (cases "tools_call lib params r ev") (auto intro!: replies_bind [simplified] intro: call_reply)

lemma method_reply:
  assumes o: "rpc_open i r" and n: "method \<notin> set notifications"
  shows "replies_or_throws i (fst (mcp_method lib files prefix method params r ev))"
  unfolding mcp_method_def
proof (intro replies_if)
  assume "method = ''notifications/initialized'' \<or> method = ''initialized''"
  with n show "replies_or_throws i (fst (Inr (Some (jremove ''id'' (jset ''result'' (JObject []) r))), ev))"
    by (auto simp: notifications_def)
next
  assume "method = ''notifications/cancelled''"
  with n show "replies_or_throws i (fst (Inr None, ev))" by (simp add: notifications_def)
next
  show "replies_or_throws i (fst (Inr (Some (resources_list r)), ev))"
    unfolding resources_list_def jset2_def by (intro replies_some rpc_intros o)
qed (rule replies_some replies_bind call_replies initialize_reply rpc_result_reply rpc_result_set rpc_error_reply
       list_reply read_reply o | assumption)+

section \<open>Answers\<close>

lemma opt_string_object:
  "opt_string lib k (JObject m) = (if jhas k (JObject m) then js_asString lib (jget k (JObject m)) else Inr [])"
  by (simp add: opt_string_def isMember_def jhas_def)

lemma opt_member_object:
  "opt_member lib k (JObject m) d = Inr (if jhas k (JObject m) then jget k (JObject m) else d)"
  by (simp add: opt_member_def isMember_def jhas_def)

text \<open>A well-formed request, as the library presents it.\<close>

definition rpc_request :: "json_lib \<Rightarrow> (string \<times> json) list \<Rightarrow> string \<Rightarrow> bool" where
  "rpc_request lib m method \<longleftrightarrow>
     sm_find ''jsonrpc'' m = Some (JString ''2.0'') \<and> js_asString lib (JString ''2.0'') = Inr ''2.0''
     \<and> sm_find ''method'' m = Some (JString method) \<and> js_asString lib (JString method) = Inr method"

text \<open>A reply to the request: in the form of JSON-RPC and with its id, or the error reply without an id.\<close>

definition rpc_answers :: "(string \<times> json) list \<Rightarrow> json \<Rightarrow> bool" where
  "rpc_answers m r \<longleftrightarrow> rpc_reply (jget ''id'' (JObject m)) r
     \<or> rpc_reply JNull r \<and> jget ''code'' (jget ''error'' r) = JInt (- 32700)"

lemma error_response_answers: "rpc_answers m (error_response (- 32700) what)"
proof -
  have "rpc_reply JNull (error_response (- 32700) what)"
    unfolding error_response_def by (rule rpc_error_reply [OF rpc_open_start])
  moreover have "jget ''code'' (jget ''error'' (error_response (- 32700) what)) = JInt (- 32700)"
    by (simp add: error_response_def rpc_error_def jset2_def json_simps jget_absent_null)
  ultimately show ?thesis by (simp add: rpc_answers_def)
qed

lemma version_ok_request: "rpc_request lib m method \<Longrightarrow> version_ok lib (JObject m) = Inr True"
  by (simp add: version_ok_def isMember_def rpc_request_def jget_def)

lemma request_method: "rpc_request lib m method \<Longrightarrow> opt_string lib ''method'' (JObject m) = Inr method"
  by (simp add: opt_string_object rpc_request_def jhas_def jget_def)

definition request_params :: "(string \<times> json) list \<Rightarrow> json" where
  "request_params m = (if jhas ''params'' (JObject m) then jget ''params'' (JObject m) else JObject [])"

lemma handle_request_method:
  assumes "js_parse lib x = Inr (Inr (JObject m))" "rpc_request lib m method"
  shows "handle_request lib files prefix x ev =
     (case mcp_method lib files prefix method (request_params m)
             (jset ''id'' (jget ''id'' (JObject m)) (jset ''jsonrpc'' (JString ''2.0'') JNull)) ev of
        (Inl e, ev') \<Rightarrow> (Inl e, ev')
      | (Inr None, ev') \<Rightarrow> (Inr No_reply, ev')
      | (Inr (Some response), ev') \<Rightarrow> (Inr (Reply response), ev'))"
  using assms jget_absent_null [of "''id''" "JObject m"]
  by (simp add: handle_request_def version_ok_request request_method opt_member_object request_params_def)

text \<open>An answered text: evaluation ends with a reply that answers the request, marked done.\<close>

lemma eval_expr_answers:
  assumes parse: "js_parse lib x = Inr (Inr (JObject m))" and req: "rpc_request lib m method"
    and n: "method \<notin> set notifications" and x: "x \<noteq> []" "x \<noteq> nl"
  shows "\<exists>r. mcp_answer lib files prefix x ev = js_write lib r @ nl \<and> rpc_answers m r"
proof -
  note h = handle_request_method [OF parse req, of files prefix "begin_eval ev"]
  obtain res ev' where mm: "mcp_method lib files prefix method (request_params m)
      (jset ''id'' (jget ''id'' (JObject m)) (jset ''jsonrpc'' (JString ''2.0'') JNull)) (begin_eval ev) = (res, ev')"
    by fastforce
  with method_reply [OF rpc_open_start n, of "jget ''id'' (JObject m)" lib files prefix "request_params m" "begin_eval ev"]
  have "replies_or_throws (jget ''id'' (JObject m)) res" by simp
  then consider what where "res = Inl what" | r where "res = Inr (Some r)" "rpc_reply (jget ''id'' (JObject m)) r"
    by (auto simp: replies_or_throws_def split: sum.splits option.splits)
  then show ?thesis
  proof cases
    case 1
    with x h mm error_response_answers show ?thesis
      by (auto simp: mcp_answer_def mcp_evaluated_def eval_expr_def poll_result_def)
  next
    case 2
    with x h mm show ?thesis
      by (auto simp: mcp_answer_def mcp_evaluated_def eval_expr_def poll_result_def rpc_answers_def)
  qed
qed

lemma jtext_object_not_blank: "jtext (JObject m) \<noteq> []" "jtext (JObject m) \<noteq> nl"
  by (simp_all add: nl_def)

lemma replies_answer:
  assumes "list_all (\<lambda>m. js_parse lib (jtext (JObject m)) = Inr (Inr (JObject m))
      \<and> (\<exists>method. rpc_request lib m method \<and> method \<notin> set notifications)) ms"
  shows "\<exists>rs. list_all2 rpc_answers ms rs
     \<and> replies (mcp_answer lib files prefix) (mcp_after lib files prefix) (map (\<lambda>m. jtext (JObject m)) ms) ev
       = map (\<lambda>r. js_write lib r @ nl) rs"
  using assms
proof (induction ms arbitrary: ev)
  case (Cons m ms)
  obtain meth where "js_parse lib (jtext (JObject m)) = Inr (Inr (JObject m))" "rpc_request lib m meth"
      "meth \<notin> set notifications"
    using Cons.prems by auto
  from eval_expr_answers [OF this jtext_object_not_blank] obtain r
    where r: "mcp_answer lib files prefix (jtext (JObject m)) ev = js_write lib r @ nl" "rpc_answers m r" by blast
  obtain rs where "list_all2 rpc_answers ms rs"
      "replies (mcp_answer lib files prefix) (mcp_after lib files prefix) (map (\<lambda>m. jtext (JObject m)) ms)
         (mcp_after lib files prefix (jtext (JObject m)) ev) = map (\<lambda>r. js_write lib r @ nl) rs"
    using Cons.IH [of "mcp_after lib files prefix (jtext (JObject m)) ev"] Cons.prems by auto
  with r show ?case by (intro exI [of _ "r # rs"]) (simp del: jtext.simps)
qed simp

section \<open>Results\<close>

text \<open>
  A client of the raw MCP socket writes any number of requests on one line: each is answered by exactly one line,
  in order, which is a JSON-RPC 2.0 response with the id of its request and either a result or an error. Only when
  something throws, the reply is the error -32700 with a null id.
\<close>

theorem mcp_line_answered:
  assumes "has_socket s" "sock_up s" "\<not> do_frame_io s" "console_shell s = None"
    and "list_all (\<lambda>(ws, m). list_all is_space ws) oms" "list_all is_space trail"
    and "list_all (\<lambda>m. js_parse lib (jtext (JObject m)) = Inr (Inr (JObject m))
      \<and> (\<exists>method. rpc_request lib m method \<and> method \<notin> set notifications)) (map snd oms)"
    and "\<And>j. js_write lib j \<noteq> []"
  shows "\<exists>rs e'. mcp_OnLine shell_fn (mcp_ops lib files prefix base)
       (concat (map (\<lambda>(ws, m). ws @ jtext (JObject m)) oms) @ trail) (s, e) =
       (Inr (), s\<lparr>tx := tx s @ concat (map (\<lambda>r. js_write lib r @ nl) rs)\<rparr>, e')
     \<and> list_all2 rpc_answers (map snd oms) rs"
proof -
  let ?xs = "map (\<lambda>m. jtext (JObject m)) (map snd oms)"
  obtain rs where rs: "list_all2 rpc_answers (map snd oms) rs"
      "replies (mcp_answer lib files prefix) (mcp_after lib files prefix) ?xs e = map (\<lambda>r. js_write lib r @ nl) rs"
    using replies_answer [OF assms(7)] by blast
  have "map (\<lambda>(ws, m). jtext (JObject m)) oms = ?xs" by (simp add: case_prod_beta)
  moreover have "map sent_text (map (\<lambda>r. js_write lib r @ nl) rs) = map (\<lambda>r. js_write lib r @ nl) rs"
    using assms(8) by (simp add: sent_text_def nl_def)
  ultimately have "mcp_OnLine shell_fn (mcp_ops lib files prefix base)
       (concat (map (\<lambda>(ws, m). ws @ jtext (JObject m)) oms) @ trail) (s, e) =
       (Inr (), s\<lparr>tx := tx s @ concat (map (\<lambda>r. js_write lib r @ nl) rs)\<rparr>, fold (mcp_after lib files prefix) ?xs e)"
    using rs(2) mcp.eval_all [OF assms(1-3), of lib files prefix base ?xs e] assms(4)
    by (simp only: mcp_OnLine_def objects_cut [OF assms(5,6)] fst_conv) simp
  with rs(1) show ?thesis by blast
qed

text \<open>A library that knows one request and the descriptions of two tools.\<close>

definition sample_ping :: "(string \<times> json) list" where
  "sample_ping = [(''id'', JInt 7), (''jsonrpc'', JString ''2.0''), (''method'', JString ''ping'')]"

definition sample_lib :: json_lib where
  "sample_lib =
     \<lparr>js_parse = (\<lambda>x. if x = jtext (JObject sample_ping) then Inr (Inr (JObject sample_ping))
        else if x = ''echo'' \<or> x = ''count'' then Inr (Inr (JArray [JObject [(''name'', JString x)]]))
        else Inr (Inl ''syntax'')),
      js_write = (\<lambda>j. jtext j @ '' ''),
      js_asString = (\<lambda>j. case j of JString s \<Rightarrow> Inr s | JNull \<Rightarrow> Inr [] | _ \<Rightarrow> Inl ''not convertible''),
      js_type_error = (\<lambda>j. ''type'')\<rparr>"

lemma sample_ping_request: "rpc_request sample_lib sample_ping ''ping''"
  by (simp add: rpc_request_def sample_ping_def sample_lib_def sm_find_def)

lemma sample_ping_parses: "js_parse sample_lib (jtext (JObject sample_ping)) = Inr (Inr (JObject sample_ping))"
  by (simp add: sample_lib_def)

definition sample_base :: "'w mcp_eval eval_ops" where
  "sample_base =
     \<lparr>ev_begin = (\<lambda>e. e), ev_eval = (\<lambda>x e. (Inr (), e)), ev_ready = (\<lambda>e. True), ev_poll = (\<lambda>e. ([], e)),
      ev_interrupt = (\<lambda>e. e), ev_clear_pending = (\<lambda>e. e), ev_input_pending = (\<lambda>e. False),
      ev_error = mcp_caught_error, ev_error_string = (\<lambda>e. [])\<rparr>"

definition sample_sock :: console_socket where
  "sample_sock = set_connection (new_console_socket 0)"

theorem mcp_line_answered_witness:
  "\<exists>rs e'. mcp_OnLine (\<lambda>x s. (Inr (), s)) (mcp_ops sample_lib (\<lambda>f. None) [] sample_base)
       (concat (map (\<lambda>(ws, m). ws @ jtext (JObject m)) [([], sample_ping), ('' '', sample_ping)]) @ [])
       (sample_sock, new_mcp_eval False ()) =
       (Inr (), sample_sock\<lparr>tx := tx sample_sock @ concat (map (\<lambda>r. js_write sample_lib r @ nl) rs)\<rparr>, e')
     \<and> list_all2 rpc_answers (map snd [([], sample_ping), ('' '', sample_ping)]) rs"
proof (rule mcp_line_answered)
  have "''ping'' \<notin> set notifications" by (simp add: notifications_def)
  then show "list_all (\<lambda>m. js_parse sample_lib (jtext (JObject m)) = Inr (Inr (JObject m))
      \<and> (\<exists>method. rpc_request sample_lib m method \<and> method \<notin> set notifications))
      (map snd [([], sample_ping), ('' '', sample_ping)])"
    using sample_ping_request sample_ping_parses by auto
  show "js_write sample_lib j \<noteq> []" for j by (simp add: sample_lib_def)
qed (simp_all add: sample_sock_def set_connection_def new_console_socket_def new_server_socket_def
       server_socket.defs is_space_def)

text \<open>
  A text that is not JSON, or not a JSON-RPC 2.0 request, gets no answer: the error reply is composed and stored,
  but the evaluation is not marked done, and the poll returns nothing.
\<close>

theorem mcp_bad_request_unanswered:
  assumes "x \<noteq> []" "x \<noteq> nl"
    and "js_parse lib x = Inr (Inl errors)
      \<or> (\<exists>request. js_parse lib x = Inr (Inr request) \<and> version_ok lib request = Inr False)"
  shows "mcp_answer lib files prefix x ev = []
    \<and> (\<exists>r. mcp_result (mcp_after lib files prefix x ev) = js_write lib r @ nl \<and> rpc_reply JNull r)"
proof -
  have r: "rpc_reply JNull (error_response c m)" for c m
    unfolding error_response_def by (rule rpc_error_reply [OF rpc_open_start])
  from assms(3) obtain c m where "handle_request lib files prefix x (begin_eval ev) =
      (Inr (Undone (error_response c m)), begin_eval ev)"
    by (auto simp: handle_request_def)
  with assms(1,2) r show ?thesis
    by (auto simp: mcp_answer_def mcp_after_def mcp_evaluated_def eval_expr_def poll_result_def begin_eval_def)
qed

theorem mcp_bad_request_unanswered_witness:
  "mcp_answer sample_lib (\<lambda>f. None) [] ''{'' (new_mcp_eval False ()) = []
    \<and> (\<exists>r. mcp_result (mcp_after sample_lib (\<lambda>f. None) [] ''{'' (new_mcp_eval False ())) = js_write sample_lib r @ nl
        \<and> rpc_reply JNull r)"
  by (rule mcp_bad_request_unanswered [where errors = "''syntax''"])
    (simp_all add: sample_lib_def nl_def sample_ping_def jquote_def)

section \<open>Tools\<close>

text \<open>A plugin whose descriptions are an array of tools that have a name.\<close>

definition tool_name :: "json_lib \<Rightarrow> json \<Rightarrow> string jres" where
  "tool_name lib tool = jbind (jindex lib ''name'' tool) (js_asString lib)"

definition tool_array :: "json_lib \<Rightarrow> 'w mcp_plugin \<Rightarrow> json list" where
  "tool_array lib p = (case js_parse lib (tool_descriptions p) of Inr (Inr (JArray l)) \<Rightarrow> l | _ \<Rightarrow> [])"

definition tool_names :: "json_lib \<Rightarrow> 'w mcp_plugin \<Rightarrow> string list" where
  "tool_names lib p = map (\<lambda>t. projr (tool_name lib t)) (tool_array lib p)"

definition well_described :: "json_lib \<Rightarrow> 'w mcp_plugin \<Rightarrow> bool" where
  "well_described lib p \<longleftrightarrow>
     js_parse lib (tool_descriptions p) = Inr (Inr (JArray (tool_array lib p)))
     \<and> list_all (\<lambda>t. \<exists>n. tool_name lib t = Inr n) (tool_array lib p)"

text \<open>The table sends every tool to the last plugin that offers it.\<close>

definition tools_inv :: "json_lib \<Rightarrow> 'w mcp_eval \<Rightarrow> bool" where
  "tools_inv lib ev \<longleftrightarrow> sm_inv (tool_to_plugin ev) \<and> list_all (well_described lib) (plugins ev)
     \<and> (\<forall>n. sm_find n (tool_to_plugin ev) = List.find (\<lambda>p. n \<in> set (tool_names lib p)) (rev (plugins ev)))"

lemma tools_inv_new: "tools_inv lib (new_mcp_eval caught asp)"
  by (simp add: tools_inv_def new_mcp_eval_def)

lemma map_tools_named:
  "list_all (\<lambda>t. \<exists>n. tool_name lib t = Inr n) l \<Longrightarrow>
   map_tools lib p l ev = (Inr (), ev\<lparr>tool_to_plugin :=
     fold (\<lambda>n. sm_put n p) (map (\<lambda>t. projr (tool_name lib t)) l) (tool_to_plugin ev)\<rparr>)"
  by (induction l arbitrary: ev) (auto simp: tool_name_def)

lemma fold_put_inv: "sm_inv m \<Longrightarrow> sm_inv (fold (\<lambda>n. sm_put n p) ns m)"
  by (induction ns arbitrary: m) (simp_all add: sm_put_inv)

lemma find_fold_put:
  "sm_inv m \<Longrightarrow> sm_find n (fold (\<lambda>n. sm_put n p) ns m) = (if n \<in> set ns then Some p else sm_find n m)"
  by (induction ns arbitrary: m) (auto simp: sm_put_inv sm_find_put)

definition with_plugin :: "json_lib \<Rightarrow> 'w mcp_plugin \<Rightarrow> 'w mcp_eval \<Rightarrow> 'w mcp_eval" where
  "with_plugin lib p ev = ev\<lparr>plugins := plugins ev @ [p],
     tool_to_plugin := fold (\<lambda>n. sm_put n p) (tool_names lib p) (tool_to_plugin ev)\<rparr>"

lemma register_well_described:
  "well_described lib p \<Longrightarrow> register_plugin lib (Some p) ev = (Inr (), with_plugin lib p ev)"
  by (simp add: register_plugin_def well_described_def jelems_def map_tools_named with_plugin_def tool_names_def)

lemma with_plugin_inv: "tools_inv lib ev \<Longrightarrow> well_described lib p \<Longrightarrow> tools_inv lib (with_plugin lib p ev)"
  by (simp add: tools_inv_def with_plugin_def fold_put_inv find_fold_put)

lemma tools_loop_all:
  "list_all (well_described lib) ps \<Longrightarrow> tools_loop lib ps acc = Inr (acc @ concat (map (tool_array lib) ps))"
  by (induction ps arbitrary: acc) (simp_all add: well_described_def jelems_def)

lemma find_None_iff_set: "List.find P (rev xs) = None \<longleftrightarrow> (\<forall>x \<in> set xs. \<not> P x)"
  by (auto simp: find_None_iff)

text \<open>
  Each call of \<^verbatim>\<open>get_evaluator\<close> adds the tools of its two plugins to those that \<^verbatim>\<open>tools/list\<close> already shows, also when
  they are there already; and after it, the tools that can be called are exactly those in the list, each by the
  plugin that was registered last among those that offer it.
\<close>

theorem get_evaluator_tools:
  assumes "tools_inv lib (case cur of None \<Rightarrow> new_mcp_eval caught asp | Some ev \<Rightarrow> ev)"
    and "well_described lib echo_plugin" "well_described lib as_plugin"
  shows "\<exists>ev. get_evaluator lib caught asp echo_plugin as_plugin cur = (Inr (), ev) \<and> tools_inv lib ev
     \<and> tools_loop lib (plugins ev) [] =
       Inr ((case cur of None \<Rightarrow> [] | Some ev0 \<Rightarrow> concat (map (tool_array lib) (plugins ev0)))
            @ tool_array lib echo_plugin @ tool_array lib as_plugin)
     \<and> {n. sm_find n (tool_to_plugin ev) \<noteq> None} = set (concat (map (tool_names lib) (plugins ev)))"
proof -
  let ?ev = "with_plugin lib as_plugin (with_plugin lib echo_plugin
    (case cur of None \<Rightarrow> new_mcp_eval caught asp | Some ev \<Rightarrow> ev))"
  have inv: "tools_inv lib ?ev" using assms by (simp add: with_plugin_inv)
  have "get_evaluator lib caught asp echo_plugin as_plugin cur = (Inr (), ?ev)"
    using assms(2,3) by (simp add: get_evaluator_def register_well_described)
  moreover have "tools_loop lib (plugins ?ev) [] = Inr (concat (map (tool_array lib) (plugins ?ev)))"
    using inv by (simp add: tools_loop_all tools_inv_def)
  then have "tools_loop lib (plugins ?ev) [] =
      Inr ((case cur of None \<Rightarrow> [] | Some ev0 \<Rightarrow> concat (map (tool_array lib) (plugins ev0)))
           @ tool_array lib echo_plugin @ tool_array lib as_plugin)"
    by (simp add: with_plugin_def new_mcp_eval_def split: option.splits)
  moreover have "{n. sm_find n (tool_to_plugin ?ev) \<noteq> None} = set (concat (map (tool_names lib) (plugins ?ev)))"
    using inv unfolding tools_inv_def by (auto simp: find_None_iff_set simp del: rev.simps)
  ultimately show ?thesis using inv by blast
qed

definition sample_plugin :: "nat \<Rightarrow> string \<Rightarrow> nat mcp_plugin" where
  "sample_plugin i tool =
     \<lparr>plugin_id = i, tool_descriptions = tool, invoke_tool = (\<lambda>t args w. (Inr ''syntax'', Suc w))\<rparr>"

lemma sample_not_ping: "''echo'' \<noteq> jtext (JObject sample_ping)" "''count'' \<noteq> jtext (JObject sample_ping)"
  by simp_all

lemma sample_described:
  "well_described sample_lib (sample_plugin i ''echo'')" "well_described sample_lib (sample_plugin i ''count'')"
  unfolding well_described_def tool_array_def tool_name_def
  by (simp_all add: sample_lib_def sample_plugin_def jindex_def jget_def sm_find_def sample_not_ping del: jtext.simps)

lemma sample_names:
  "tool_names sample_lib (sample_plugin i ''echo'') = [''echo'']"
  "tool_names sample_lib (sample_plugin i ''count'') = [''count'']"
  unfolding tool_names_def tool_array_def tool_name_def
  by (simp_all add: sample_lib_def sample_plugin_def jindex_def jget_def sm_find_def sample_not_ping del: jtext.simps)

theorem get_evaluator_tools_witness:
  "\<exists>ev. get_evaluator sample_lib False 0 (sample_plugin 1 ''echo'') (sample_plugin 2 ''count'') None = (Inr (), ev)
     \<and> tools_inv sample_lib ev
     \<and> tools_loop sample_lib (plugins ev) [] =
       Inr ((case None of None \<Rightarrow> [] | Some ev0 \<Rightarrow> concat (map (tool_array sample_lib) (plugins (ev0 :: nat mcp_eval))))
            @ tool_array sample_lib (sample_plugin 1 ''echo'') @ tool_array sample_lib (sample_plugin 2 ''count''))
     \<and> {n. sm_find n (tool_to_plugin ev) \<noteq> None} = set (concat (map (tool_names sample_lib) (plugins ev)))"
  by (rule get_evaluator_tools) (simp_all add: tools_inv_new sample_described)

text \<open>
  A call of a tool from the list runs a registered plugin that offers it, on the written arguments, and passes the
  plugin's effect on; what the plugin throws becomes a result marked as an error, and its answer the result.
\<close>

theorem tools_call_runs_plugin:
  assumes "tools_inv lib ev" "n \<in> set (concat (map (tool_names lib) (plugins ev)))"
    and "sm_find ''name'' params = Some (JString n)" "js_asString lib (JString n) = Inr n"
    and "sm_find ''arguments'' params = Some args"
  shows "\<exists>p \<in> set (plugins ev). n \<in> set (tool_names lib p)
     \<and> tools_call lib (JObject params) r ev =
       (case invoke_tool p n (js_write lib args) (mcp_atomspace ev) of
          (Inl what, w) \<Rightarrow> (Inr (jset ''result'' (error_content what) r), ev\<lparr>mcp_atomspace := w\<rparr>)
        | (Inr text, w) \<Rightarrow>
            (jbind (js_parse lib text) (\<lambda>q. Inr (case q of
               Inl errors \<Rightarrow> rpc_error (- 32700) ''Failed to parse tool result'' r
             | Inr v \<Rightarrow> jset ''result'' v r)), ev\<lparr>mcp_atomspace := w\<rparr>))"
proof -
  have "sm_find n (tool_to_plugin ev) \<noteq> None"
    using assms(1,2) by (auto simp: tools_inv_def find_None_iff_set)
  then obtain p where p: "sm_find n (tool_to_plugin ev) = Some p" by blast
  with assms(1) have "p \<in> set (plugins ev)" "n \<in> set (tool_names lib p)"
    unfolding tools_inv_def by (metis find_Some_iff nth_mem set_rev)+
  moreover have "opt_string lib ''name'' (JObject params) = Inr n"
      "opt_member lib ''arguments'' (JObject params) (JObject []) = Inr args"
    using assms(3-5) by (simp_all add: opt_string_object opt_member_object jhas_def jget_def)
  ultimately show ?thesis
    using p by (intro bexI [of _ p]) (auto simp: tools_call_def split: prod.splits sum.splits)
qed

definition sample_eval :: "nat mcp_eval" where
  "sample_eval = with_plugin sample_lib (sample_plugin 1 ''echo'') (new_mcp_eval False 0)"

theorem tools_call_runs_plugin_witness:
  "\<exists>p \<in> set (plugins sample_eval). ''echo'' \<in> set (tool_names sample_lib p)
     \<and> tools_call sample_lib (JObject [(''arguments'', JNull), (''name'', JString ''echo'')]) JNull sample_eval =
       (case invoke_tool p ''echo'' (js_write sample_lib JNull) (mcp_atomspace sample_eval) of
          (Inl what, w) \<Rightarrow> (Inr (jset ''result'' (error_content what) JNull), sample_eval\<lparr>mcp_atomspace := w\<rparr>)
        | (Inr text, w) \<Rightarrow>
            (jbind (js_parse sample_lib text) (\<lambda>q. Inr (case q of
               Inl errors \<Rightarrow> rpc_error (- 32700) ''Failed to parse tool result'' JNull
             | Inr v \<Rightarrow> jset ''result'' v JNull)), sample_eval\<lparr>mcp_atomspace := w\<rparr>))"
proof (rule tools_call_runs_plugin)
  show "tools_inv sample_lib sample_eval"
    by (simp add: sample_eval_def with_plugin_inv tools_inv_new sample_described)
  show "''echo'' \<in> set (concat (map (tool_names sample_lib) (plugins sample_eval)))"
    by (simp add: sample_eval_def with_plugin_def new_mcp_eval_def sample_names)
  show "js_asString sample_lib (JString ''echo'') = Inr ''echo''" by (simp add: sample_lib_def)
qed (simp_all add: sm_find_def)

lemma find_filter_values:
  assumes "sm_inv m"
  shows "sm_find n (filter (\<lambda>(t, q). Q q) m) =
     (case sm_find n m of Some q \<Rightarrow> if Q q then Some q else None | None \<Rightarrow> None)"
  using assms
proof (induction m)
  case (Cons tq m)
  obtain t q where tq: "tq = (t, q)" by (cases tq)
  from Cons.prems have "sm_inv m" "t \<notin> fst ` set m" unfolding sm_inv_def tq by auto
  then have "map_of m t = None" by (simp add: map_of_eq_None_iff)
  with Cons.IH [OF \<open>sm_inv m\<close>] show ?case by (auto simp: sm_find_def tq)
qed (simp add: sm_find_def)

text \<open>
  Unregistering a plugin undoes its registration, provided that none of its tools was offered by a plugin before
  it: the table does not remember whom a tool was taken from.
\<close>

theorem unregister_undoes_register:
  assumes "sm_inv (tool_to_plugin ev)" "well_described lib p"
    and "list_all (\<lambda>q. plugin_id q \<noteq> plugin_id p) (plugins ev)"
    and "list_all (\<lambda>(t, q). plugin_id q \<noteq> plugin_id p \<and> t \<notin> set (tool_names lib p)) (tool_to_plugin ev)"
  shows "unregister_plugin (Some p) (snd (register_plugin lib (Some p) ev)) = ev"
proof -
  let ?m = "fold (\<lambda>n. sm_put n p) (tool_names lib p) (tool_to_plugin ev)"
  have "filter (\<lambda>(t, q). plugin_id q \<noteq> plugin_id p) ?m = tool_to_plugin ev"
  proof (rule sm_ext)
    show "sm_inv (filter (\<lambda>(t, q). plugin_id q \<noteq> plugin_id p) ?m)"
      by (intro sm_inv_filter fold_put_inv assms(1))
    fix n
    have "plugin_id q \<noteq> plugin_id p \<and> n \<notin> set (tool_names lib p)" if "sm_find n (tool_to_plugin ev) = Some q" for q
      using map_of_SomeD [of "tool_to_plugin ev" n q] that assms(4) by (auto simp: sm_find_def list_all_iff)
    then show "sm_find n (filter (\<lambda>(t, q). plugin_id q \<noteq> plugin_id p) ?m) = sm_find n (tool_to_plugin ev)"
      using find_filter_values [OF fold_put_inv [OF assms(1)], of n "\<lambda>q. plugin_id q \<noteq> plugin_id p" p "tool_names lib p"]
      by (auto simp: find_fold_put [OF assms(1)] split: option.splits)
  qed (rule assms(1))
  with assms(2,3) show ?thesis
    by (simp add: register_well_described with_plugin_def unregister_plugin_def filter_id_conv list_all_iff)
qed

theorem unregister_undoes_register_witness:
  "unregister_plugin (Some (sample_plugin 2 ''count''))
     (snd (register_plugin sample_lib (Some (sample_plugin 2 ''count'')) sample_eval)) = sample_eval"
proof -
  have "tool_to_plugin sample_eval = [(''echo'', sample_plugin 1 ''echo'')]"
      "plugins sample_eval = [sample_plugin 1 ''echo'']"
    by (simp_all add: sample_eval_def with_plugin_def new_mcp_eval_def sample_names)
  moreover have "plugin_id (sample_plugin i x) = i" for i x by (simp add: sample_plugin_def)
  ultimately show ?thesis
    by (intro unregister_undoes_register sample_described) (simp_all add: sample_names sm_inv_def)
qed

section \<open>Documents\<close>

lemma resource_files_docs: "map fst resource_files = map fst resource_docs"
  by (simp add: resource_files_def resource_docs_def)

lemma foldl_jappend: "foldl (\<lambda>rs d. jappend (f d) rs) (JArray l) ds = JArray (l @ map f ds)"
  by (induction ds arbitrary: l) (simp_all add: jappend_def)

lemma entry_uri: "jget ''uri'' (resource_entry d) = JString (fst d)"
  by (cases d) (simp add: resource_entry_def json_simps)

text \<open>The URIs in the reply to \<^verbatim>\<open>resources/list\<close>.\<close>

definition listed_uris :: "json \<Rightarrow> json list" where
  "listed_uris r = (case jget ''resources'' (jget ''result'' (resources_list r)) of
     JArray l \<Rightarrow> map (jget ''uri'') l | _ \<Rightarrow> [])"

lemma listed_uris_docs: "rpc_open i r \<Longrightarrow> listed_uris r = map (\<lambda>d. JString (fst d)) resource_docs"
  by (simp add: listed_uris_def resources_list_def jset2_def foldl_jappend rpc_open_def json_simps jget_absent_null
    entry_uri o_def)

text \<open>
  The documents that \<^verbatim>\<open>resources/list\<close> announces are exactly those that \<^verbatim>\<open>resources/read\<close> finds: when the files are
  installed, reading a URI of the list returns the text of its file, and any other URI is an error.
\<close>

theorem resources_listed_readable:
  assumes "rpc_open i r" "sm_find ''uri'' params = Some (JString uri)" "js_asString lib (JString uri) = Inr uri"
    and "list_all (\<lambda>(u, f). files (prefix @ ''/share/cogserver/mcp/'' @ f) = Some (txt u)) resource_files"
  shows "\<exists>r'. resources_read lib files prefix (JObject params) r = Inr r'
     \<and> (if JString uri \<in> set (listed_uris r)
        then jget ''contents'' (jget ''result'' r') =
          JArray [JObject [(''mimeType'', JString ''text/markdown''), (''text'', JString (txt uri)), (''uri'', JString uri)]]
        else jget ''code'' (jget ''error'' r') = JInt (- 32602) \<and> \<not> jhas ''result'' r')"
proof -
  have u: "opt_string lib ''uri'' (JObject params) = Inr uri"
    using assms(2,3) by (simp add: opt_string_object jhas_def jget_def)
  have listed: "JString uri \<in> set (listed_uris r) \<longleftrightarrow> uri \<in> set (map fst resource_files)"
    using listed_uris_docs [OF assms(1)] by (auto simp: resource_files_docs)
  show ?thesis
  proof (cases "map_of resource_files uri")
    case None
    then have "uri \<notin> set (map fst resource_files)" by (simp add: map_of_eq_None_iff)
    with None u listed assms(1) show ?thesis
      by (simp add: resources_read_def rpc_error_def jset2_def json_simps rpc_open_def jget_absent_null)
  next
    case (Some f)
    then have f: "(uri, f) \<in> set resource_files" by (rule map_of_SomeD)
    then have "files (prefix @ ''/share/cogserver/mcp/'' @ f) = Some (txt uri)" "uri \<in> set (map fst resource_files)"
      using assms(4) by (auto simp: list_all_iff image_iff intro: bexI [OF _ f])
    with Some u listed assms(1) show ?thesis
      by (simp add: resources_read_def publish_resource_def Let_def jset2_def json_simps rpc_open_def jget_absent_null
        jappend_def) (simp add: jset_def)
  qed
qed

theorem resources_listed_readable_witness:
  "\<exists>r'. resources_read sample_lib Some ''/usr'' (JObject [(''uri'', JString ''atomspace://docs/streams'')])
         (jset ''id'' (JInt 1) (jset ''jsonrpc'' (JString ''2.0'') JNull)) = Inr r'
     \<and> (if JString ''atomspace://docs/streams''
            \<in> set (listed_uris (jset ''id'' (JInt 1) (jset ''jsonrpc'' (JString ''2.0'') JNull)))
        then jget ''contents'' (jget ''result'' r') =
          JArray [JObject [(''mimeType'', JString ''text/markdown''),
            (''text'', JString (''/usr'' @ ''/share/cogserver/mcp/'' @ the (map_of resource_files ''atomspace://docs/streams''))),
            (''uri'', JString ''atomspace://docs/streams'')]]
        else jget ''code'' (jget ''error'' r') = JInt (- 32602) \<and> \<not> jhas ''result'' r')"
proof (rule resources_listed_readable [OF rpc_open_start])
  show "list_all (\<lambda>(u, f). Some (''/usr'' @ ''/share/cogserver/mcp/'' @ f) =
      Some (''/usr'' @ ''/share/cogserver/mcp/'' @ the (map_of resource_files u))) resource_files"
    by (simp add: resource_files_def)
qed (simp_all add: sm_find_def sample_lib_def)

end
