(* ===== verification/Mcp_Session.thy ===== *)
theory Mcp_Session
  imports Mcp_Eval
begin

text \<open>
  A connection to the MCP port as a whole: the loop of \<open>Connection\<close> with the virtual methods of \<^verbatim>\<open>MCPServer\<close> and the evaluator of \<^verbatim>\<open>McpEval\<close>.
\<close>

section \<open>The socket\<close>

text \<open>The socket with its evaluator, which is a null pointer at first.\<close>

record 'w mcp_socket = console_socket +
  mcp_evaluator :: "'w mcp_eval option"

definition new_mcp_socket :: "int \<Rightarrow> 'w mcp_socket" where
  "new_mcp_socket now = console_socket.extend (new_console_socket now) \<lparr>mcp_evaluator = None\<rparr>"

text \<open>
  \<^verbatim>\<open>OnConnection\<close>: the evaluator of this thread, unless there is a shell. What \<open>get\<close> returns is the result of \<^verbatim>\<open>get_evaluator\<close>; an exception
  of the JSON library leaves the method.
\<close>

definition mcp_OnConnection :: "unit jres \<times> 'w mcp_eval \<Rightarrow> ('w mcp_socket, unit) act" where
  "mcp_OnConnection get s =
     (if console_shell s = None
      then (case get of
              (Inl what, _) \<Rightarrow> (Inl (Runtime_exception what), s)
            | (Inr _, ev) \<Rightarrow> (Inr (), s\<lparr>mcp_evaluator := Some ev\<rparr>))
      else (Inr (), s))"

text \<open>\<^verbatim>\<open>OnLine\<close> on the object: without an evaluator the first text that is found is a null pointer access.\<close>

definition mcp_socket_OnLine ::
  "(string \<Rightarrow> ('w mcp_socket, unit) act) \<Rightarrow> 'w mcp_eval eval_ops \<Rightarrow> string \<Rightarrow> ('w mcp_socket, unit) act" where
  "mcp_socket_OnLine shell_fn eo line s =
     (case mcp_evaluator s of
        None \<Rightarrow>
          (if console_shell s \<noteq> None then shell_fn line s
           else if mcp_objects line = [] then (Inr (), s) else (Inl Null_pointer, s))
      | Some ev \<Rightarrow>
          (if console_shell s \<noteq> None then shell_fn line s
           else case mcp_OnLine shell_fn eo line (s, ev) of (res, s', ev') \<Rightarrow> (res, s'\<lparr>mcp_evaluator := Some ev'\<rparr>)))"

definition mcp_handlers ::
  "unit jres \<times> 'w mcp_eval \<Rightarrow> (string \<Rightarrow> ('w mcp_socket, unit) act) \<Rightarrow> 'w mcp_eval eval_ops \<Rightarrow> (string \<Rightarrow> string) \<Rightarrow> (nat \<Rightarrow> int) \<Rightarrow>
   'w mcp_socket handlers" where
  "mcp_handlers get shell_fn eo sha clk =
     \<lparr>sha1 = sha, OnConnection = mcp_OnConnection get, OnLine = mcp_socket_OnLine shell_fn eo, clock = clk\<rparr>"

section \<open>Lines\<close>

text \<open>A connection that serves requests, and what lines do to it: each text on each line is answered.\<close>

definition mcp_serving :: "'w mcp_socket \<Rightarrow> bool" where
  "mcp_serving s \<longleftrightarrow> raw_up s \<and> \<not> is_http_socket s \<and> console_shell s = None \<and> mcp_evaluator s \<noteq> None"

definition mcp_effect ::
  "(string \<Rightarrow> 'w mcp_eval \<Rightarrow> string) \<Rightarrow> (string \<Rightarrow> 'w mcp_eval \<Rightarrow> 'w mcp_eval) \<Rightarrow> string list \<Rightarrow> 'w mcp_socket \<Rightarrow> 'w mcp_socket \<Rightarrow> bool" where
  "mcp_effect answer after ls s s' \<longleftrightarrow>
     (let xs = concat (map mcp_objects ls)
      in mcp_evaluator s' = map_option (fold after xs) (mcp_evaluator s)
       \<and> tx s' = tx s @ (case mcp_evaluator s of None \<Rightarrow> [] | Some ev \<Rightarrow> concat (map sent_text (replies answer after xs ev))))"

lemma replies_append: "replies answer after (xs @ ys) e = replies answer after xs e @ replies answer after ys (fold after xs e)"
  by (induction xs arbitrary: e) simp_all

context answering_eval
begin

lemma line_on_socket:
  assumes "raw_up s" "console_shell s = None"
  shows "mcp_OnLine shell_fn eo line (s, e) =
    (Inr (), s\<lparr>tx := tx s @ concat (map sent_text (replies answer after (mcp_objects line) e))\<rparr>, fold after (mcp_objects line) e)"
  using assms eval_all [of s "mcp_objects line" e] by (simp add: mcp_OnLine_def raw_up_def)

end

interpretation mcp_wire: line_service "mcp_handlers get shell_fn (mcp_ops lib files prefix base) sha clk" mcp_serving "\<lambda>_. True"
  "mcp_effect (mcp_answer lib files prefix) (mcp_after lib files prefix)"
  for get shell_fn lib files prefix base sha clk
proof (unfold_locales, goal_cases)
  case (5 s line)
  then show ?case
    by (auto simp: mcp_handlers_def mcp_serving_def mcp_socket_OnLine_def mcp.line_on_socket raw_up_def)
next
  case (10 s line s')
  then show ?case
    by (auto simp: mcp_handlers_def mcp_serving_def mcp_socket_OnLine_def mcp.line_on_socket mcp_effect_def Let_def)
qed (auto simp: mcp_serving_def raw_up_def got_line_def mcp_effect_def Let_def replies_append comp_def option.map_comp option.map_id
       split: option.splits)

section \<open>A session\<close>

text \<open>A line of requests: any number of them, with white space around.\<close>

definition rpc_line :: "json_lib \<Rightarrow> string \<Rightarrow> (string \<times> json) list list \<Rightarrow> bool" where
  "rpc_line lib line ms \<longleftrightarrow>
     (\<exists>oms trail. line = concat (map (\<lambda>(ws, m). ws @ jtext (JObject m)) oms) @ trail \<and> map snd oms = ms
        \<and> list_all (\<lambda>(ws, m). list_all is_space ws) oms \<and> list_all is_space trail
        \<and> list_all (\<lambda>m. js_parse lib (jtext (JObject m)) = Inr (Inr (JObject m))
            \<and> (\<exists>method. rpc_request lib m method \<and> method \<notin> set notifications)) ms)"

lemma rpc_line_objects: "rpc_line lib line ms \<Longrightarrow> mcp_objects line = map (\<lambda>m. jtext (JObject m)) ms"
  by (auto simp: rpc_line_def objects_cut case_prod_beta comp_def simp del: jtext.simps)

lemma rpc_lines_objects:
  "list_all2 (rpc_line lib) ls mss \<Longrightarrow> concat (map mcp_objects ls) = map (\<lambda>m. jtext (JObject m)) (concat mss)"
  by (induction rule: list_all2_induct) (simp_all add: rpc_line_objects del: jtext.simps)

lemma rpc_lines_requests:
  "list_all2 (rpc_line lib) ls mss \<Longrightarrow>
   list_all (\<lambda>m. js_parse lib (jtext (JObject m)) = Inr (Inr (JObject m))
      \<and> (\<exists>method. rpc_request lib m method \<and> method \<notin> set notifications)) (concat mss)"
  by (induction rule: list_all2_induct) (auto simp: rpc_line_def simp del: jtext.simps)


text \<open>Two pings, the first with a carriage return and cut in two, the second without its newline.\<close>

definition sample_mcp_socket :: "nat mcp_socket" where
  "sample_mcp_socket = set_connection (new_mcp_socket 0)"

definition sample_pings :: rx where
  "sample_pings = (let t = jtext (JObject sample_ping) in [Chunk (take 9 t), Chunk (drop 9 t @ [CHR 0x0D] @ nl @ t)])"

lemma sample_ping_line: "rpc_line sample_lib (jtext (JObject sample_ping)) [sample_ping]"
  unfolding rpc_line_def using sample_ping_request sample_ping_parses
  by (intro exI [of _ "[([], sample_ping)]"] exI [of _ "[]"]) (auto simp: notifications_def simp del: jtext.simps)

lemma seven_shown: "show_int 7 = ''7''"
  by code_simp

lemma sample_ping_plain:
  "plain_line (jtext (JObject sample_ping))" "plain_line (jtext (JObject sample_ping) @ [CHR 0x0D])"
  "strip_cr (jtext (JObject sample_ping)) = jtext (JObject sample_ping)"
  by (simp_all add: sample_ping_def jquote_def jescape_def plain_line_def dbus_garbage_def strip_cr_def seven_shown)


end
