(* ===== verification/Mcp_Plugins.thy ===== *)
theory Mcp_Plugins
  imports Mcp_Eval
begin

text \<open>
  The two plugins of the MCP evaluator: \<^verbatim>\<open>McpPlugEcho.cc\<close>, which answers by itself, and \<^verbatim>\<open>McpPlugAtomSpace.cc\<close>, which
  puts the descriptions of its tools together as text and passes calls on to \<^verbatim>\<open>JSCommands\<close> of the AtomSpace library.
\<close>

section \<open>Echo and time\<close>

definition echo_tools :: json where
  "echo_tools =
     (let schema = jset ''required'' (jappend (JString ''text'') JNull)
            (jset3 ''properties'' ''text'' ''description'' (JString ''Text to echo'')
              (jset3 ''properties'' ''text'' ''type'' (JString ''string'')
                (jset ''type'' (JString ''object'') JNull)));
          echo_tool = jset ''inputSchema'' schema (jset ''description'' (JString ''Echo the input text'')
            (jset ''name'' (JString ''echo'') JNull));
          time_tool = jset2 ''inputSchema'' ''properties'' (JObject []) (jset2 ''inputSchema'' ''type'' (JString ''object'')
            (jset ''description'' (JString ''Get current time'') (jset ''name'' (JString ''time'') JNull)))
      in jappend time_tool (jappend echo_tool (JArray [])))"

definition echo_tool_descriptions :: "json_lib \<Rightarrow> string" where
  "echo_tool_descriptions lib = js_write lib echo_tools"

definition text_content :: "string \<Rightarrow> json" where
  "text_content txt = jset ''text'' (JString txt) (jset ''type'' (JString ''text'') JNull)"

text \<open>\<open>ctime\<close> is the current time as text; what \<^verbatim>\<open>asString\<close> or the parser throws is caught.\<close>

definition echo_invoke_tool :: "json_lib \<Rightarrow> string \<Rightarrow> string \<Rightarrow> string \<Rightarrow> string" where
  "echo_invoke_tool lib ctime tool arguments =
     js_write lib
       (if tool = ''echo''
        then (case js_parse lib arguments of
                Inl what \<Rightarrow> rpc_error (- 32700) (''Parse error: '' @ what) JNull
              | Inr (Inl errors) \<Rightarrow> rpc_error (- 32700) (''Parse error: '' @ errors) JNull
              | Inr (Inr args) \<Rightarrow>
                  (case opt_string lib ''text'' args of
                     Inl what \<Rightarrow> rpc_error (- 32700) (''Parse error: '' @ what) JNull
                   | Inr txt \<Rightarrow> jset ''content'' (jappend (text_content (''Echo: '' @ txt)) JNull) JNull))
        else if tool = ''time''
        then jset ''content'' (jappend (text_content ctime) JNull) JNull
        else rpc_error (- 32601) (''Tool not found in McpPlugEcho: '' @ tool) JNull)"

text \<open>The plugin object; \<open>now\<close> reads the time in a state of the world.\<close>

definition McpPlugEcho :: "json_lib \<Rightarrow> ('w \<Rightarrow> string) \<Rightarrow> nat \<Rightarrow> 'w mcp_plugin" where
  "McpPlugEcho lib now i =
     \<lparr>plugin_id = i, tool_descriptions = echo_tool_descriptions lib,
      invoke_tool = (\<lambda>tool arguments w. (Inr (echo_invoke_tool lib (now w) tool arguments), w))\<rparr>"

section \<open>Tools on the AtomSpace\<close>

text \<open>A backslash, which a literal cannot hold, and the name, description and schema of each tool.\<close>

definition bs :: string where
  "bs = [CHR 0x5C]"

definition as_tools :: "(string \<times> string \<times> string) list" where
  \<open>as_tools =
     [(''version'',
       ''Get the AtomSpace version string'',
       ''{"type": "object", "properties": {}, "required": []}''),
      (''getSubTypes'',
       ''Get all subtypes of a given atom type. Useful for exploring the type hierarchy.'',
       ''{"type": "object", "properties": {"type": {"type": "string", "description": "The atom type to get subtypes of. Examples: 'Node', 'Link', 'Value'. Returns all types that inherit from this type."}, "recursive": {"type": "boolean", "description": "If true, gets all descendants recursively. If false (default), gets only immediate children."}}, "required": ["type"]}''),
      (''getSuperTypes'',
       ''Get all supertypes of a given atom type. Useful for exploring the type hierarchy.'',
       ''{"type": "object", "properties": {"type": {"type": "string", "description": "The atom type to get supertypes of. Examples: 'Concept', 'Edge', 'FloatValue'. Returns all types this type inherits from."}, "recursive": {"type": "boolean", "description": "If true, gets all ancestors recursively up to TopType. If false (default), gets only immediate parents."}}, "required": ["type"]}''),
      (''reportCounts'',
       ''A report of how many Atoms there are in the AtomSpace, organized by Atom type.'',
       ''{"type": "object", "properties": {}, "required": []}''),
      (''getAtoms'',
       ''Get all atoms of a specific type from the AtomSpace. WARNING: May return large results - check count with reportCounts first.'',
       ''{"type": "object", "properties": {"type": {"type": "string", "description": "The atom type to retrieve. Examples: 'Concept', 'Predicate', 'Edge', 'List'. Use getSubTypes/getSuperTypes to explore type hierarchy."}, "subclass": {"type": "boolean", "description": "Whether to include atoms of subtypes. If true, retrieves all subtypes of the given type."}}, "required": ["type"]}''),
      (''haveNode'',
       ''Check if a node exists in the AtomSpace'',
       ''{"type": "object", "properties": {"atomese": {"type": "string", "description": "S-expression for the node, e.g. (Concept '' @ bs @ ''"cat'' @ bs @ ''")"}}, "required": ["atomese"]}''),
      (''haveLink'',
       ''Check if a link exists in the AtomSpace'',
       ''{"type": "object", "properties": {"atomese": {"type": "string", "description": "S-expression for the link, e.g. (List (Concept '' @ bs @ ''"a'' @ bs @ ''") (Concept '' @ bs @ ''"b'' @ bs @ ''"))"}}, "required": ["atomese"]}''),
      (''haveAtom'',
       ''Check if an atom exists in the AtomSpace'',
       ''{"type": "object", "properties": {"atomese": {"type": "string", "description": "S-expression for the atom"}}, "required": ["atomese"]}''),
      (''makeAtom'',
       ''Create an atom in the AtomSpace'',
       ''{"type": "object", "properties": {"atomese": {"type": "string", "description": "S-expression for the atom to create. Examples: (Concept '' @ bs @ ''"cat'' @ bs @ ''"), (List (Concept '' @ bs @ ''"a'' @ bs @ ''") (Concept '' @ bs @ ''"b'' @ bs @ ''")), (Edge (Predicate '' @ bs @ ''"likes'' @ bs @ ''") (List (Concept '' @ bs @ ''"Alice'' @ bs @ ''") (Concept '' @ bs @ ''"Bob'' @ bs @ ''"))). Nodes and Links can be arbitrarily nested."}}, "required": ["atomese"]}''),
      (''getIncoming'',
       ''Get all links that contain a given atom in their outgoing set'',
       ''{"type": "object", "properties": {"atomese": {"type": "string", "description": "S-expression for the atom"}}, "required": ["atomese"]}''),
      (''getKeys'',
       ''Get all keys attached to an atom'',
       ''{"type": "object", "properties": {"atomese": {"type": "string", "description": "S-expression for the atom"}}, "required": ["atomese"]}''),
      (''getValueAtKey'',
       ''Get the value on an atom located at a given key. Returns a Value (FloatValue, StringValue, LinkValue, or Atom) in s-expression format.'',
       ''{"type": "object", "properties": {"atomese": {"type": "string", "description": "S-expression for the atom. Example: (Anchor '' @ bs @ ''"my-data'' @ bs @ ''")"}, "key": {"type": "object", "properties": {"atomese": {"type": "string", "description": "S-expression for the key atom. Example: (Predicate '' @ bs @ ''"my-key'' @ bs @ ''")"}}, "required": ["atomese"]}}, "required": ["atomese", "key"]}''),
      (''getValues'',
       ''Get all values attached to an atom. Returns an association list (alist) of (key . value) pairs in s-expression format.'',
       ''{"type": "object", "properties": {"atomese": {"type": "string", "description": "S-expression for the atom. Example: (Anchor '' @ bs @ ''"my-data'' @ bs @ ''")"}}, "required": ["atomese"]}''),
      (''setValue'',
       ''Set a value on an atom with a given key'',
       ''{"type": "object", "properties": {"atomese": {"type": "string", "description": "S-expression for the atom. Example: (Anchor '' @ bs @ ''"my-data'' @ bs @ ''")"}, "key": {"type": "object", "properties": {"atomese": {"type": "string", "description": "S-expression for the key atom. Example: (Predicate '' @ bs @ ''"my-key'' @ bs @ ''")"}}, "required": ["atomese"]}, "value": {"type": "object", "description": "The value to set. PREFERRED: Use 'atomese' property with s-expression. Examples: {'' @ bs @ ''"atomese'' @ bs @ ''": '' @ bs @ ''"(FloatValue 1.5 2.7 3.14)'' @ bs @ ''"}, {'' @ bs @ ''"atomese'' @ bs @ ''": '' @ bs @ ''"(StringValue '' @ bs @ bs @ bs @ ''"hello'' @ bs @ bs @ bs @ ''" '' @ bs @ bs @ bs @ ''"world'' @ bs @ bs @ bs @ ''")'' @ bs @ ''"}, {'' @ bs @ ''"atomese'' @ bs @ ''": '' @ bs @ ''"(LinkValue (Concept '' @ bs @ bs @ bs @ ''"A'' @ bs @ bs @ bs @ ''") (Concept '' @ bs @ bs @ bs @ ''"B'' @ bs @ bs @ bs @ ''"))'' @ bs @ ''"}. Alternative: verbose JSON format {'' @ bs @ ''"type'' @ bs @ ''": '' @ bs @ ''"FloatValue'' @ bs @ ''", '' @ bs @ ''"value'' @ bs @ ''": [1.5, 2.7, 3.14]}.", "properties": {"atomese": {"type": "string", "description": "S-expression for the value (PREFERRED). Examples: (FloatValue 1.0 2.0), (StringValue '' @ bs @ bs @ bs @ ''"text'' @ bs @ bs @ bs @ ''"), (LinkValue (Concept '' @ bs @ bs @ bs @ ''"X'' @ bs @ bs @ bs @ ''") (Concept '' @ bs @ bs @ bs @ ''"Y'' @ bs @ bs @ bs @ ''"))"}, "type": {"type": "string", "description": "Type name for verbose JSON (not recommended)"}, "value": {"description": "Value data for verbose JSON (not recommended)"}}}}, "required": ["atomese", "key", "value"]}''),
      (''execute'',
       ''Execute an executable atom and get the result. WARNING: Execution has side effects and may modify AtomSpace contents or external systems. Returns a Value.'',
       ''{"type": "object", "properties": {"atomese": {"type": "string", "description": "S-expression for the executable atom. Examples: (PlusLink (Number 1) (Number 2)), (ValueOf (Concept '' @ bs @ ''"foo'' @ bs @ ''") (Predicate '' @ bs @ ''"key'' @ bs @ ''")), (Query ...). Many Link types are executable - see wiki for details."}}, "required": ["atomese"]}''),
      (''extract'',
       ''Remove an atom from the AtomSpace. WARNING: Irreversible operation.'',
       ''{"type": "object", "properties": {"atomese": {"type": "string", "description": "S-expression for the atom to remove. Example: (Concept '' @ bs @ ''"obsolete'' @ bs @ ''")"}, "recursive": {"type": "boolean", "description": "If true, recursively removes all Links containing this atom. If false (default), only removes the atom if nothing references it."}}, "required": ["atomese"]}'')]\<close>

definition add_tool :: "string \<Rightarrow> string \<Rightarrow> string \<Rightarrow> bool \<Rightarrow> string \<Rightarrow> string" where
  \<open>add_tool name descr schema is_last json =
     json @ [CHR 0x09] @ ''{'' @ nl
     @ [CHR 0x09, CHR 0x09] @ ''"name": "'' @ name @ ''",'' @ nl
     @ [CHR 0x09, CHR 0x09] @ ''"description": "'' @ descr @ ''",'' @ nl
     @ [CHR 0x09, CHR 0x09] @ ''"inputSchema": '' @ schema @ nl
     @ [CHR 0x09] @ ''}'' @ (if \<not> is_last then '','' else []) @ nl\<close>

fun add_tools :: "(string \<times> string \<times> string) list \<Rightarrow> string \<Rightarrow> string" where
  "add_tools [] json = json"
| "add_tools ((name, descr, schema) # ts) json = add_tools ts (add_tool name descr schema (ts = []) json)"

definition as_tool_descriptions :: string where
  "as_tool_descriptions = add_tools as_tools (''['' @ nl) @ '']''"

text \<open>\<open>interpret_command\<close> is \<^verbatim>\<open>JSCommands::interpret_command\<close>, which works on the AtomSpace and may throw.\<close>

definition as_invoke_tool ::
  "('w \<Rightarrow> string \<Rightarrow> string jres \<times> 'w) \<Rightarrow> string \<Rightarrow> string \<Rightarrow> 'w \<Rightarrow> string jres \<times> 'w" where
  \<open>as_invoke_tool interpret_command tool arguments as =
     interpret_command as (''{ "tool": "'' @ tool @ ''", "params": '' @ arguments @ ''}'')\<close>

definition McpPlugAtomSpace :: "('w \<Rightarrow> string \<Rightarrow> string jres \<times> 'w) \<Rightarrow> nat \<Rightarrow> 'w mcp_plugin" where
  "McpPlugAtomSpace interpret_command i =
     \<lparr>plugin_id = i, tool_descriptions = as_tool_descriptions, invoke_tool = as_invoke_tool interpret_command\<rparr>"

section \<open>Calls through the evaluator\<close>

lemma echo_names:
  assumes "js_parse lib (js_write lib echo_tools) = Inr (Inr echo_tools)"
    and "js_asString lib (JString ''echo'') = Inr ''echo''" "js_asString lib (JString ''time'') = Inr ''time''"
  shows "well_described lib (McpPlugEcho lib now i)" "tool_names lib (McpPlugEcho lib now i) = [''echo'', ''time'']"
proof -
  obtain a b where l: "echo_tools = JArray [JObject a, JObject b]"
      "jget ''name'' (JObject a) = JString ''echo''" "jget ''name'' (JObject b) = JString ''time''"
    by (simp add: echo_tools_def Let_def jappend_def jset2_def jset3_def jset_def jget_def sm_find_def)
  then have "tool_array lib (McpPlugEcho lib now i) = [JObject a, JObject b]"
    using assms(1) unfolding tool_array_def McpPlugEcho_def echo_tool_descriptions_def l(1) by simp
  with l assms show "well_described lib (McpPlugEcho lib now i)"
      "tool_names lib (McpPlugEcho lib now i) = [''echo'', ''time'']"
    by (simp_all add: well_described_def tool_names_def tool_name_def jindex_def McpPlugEcho_def echo_tool_descriptions_def)
qed

lemma get_evaluator_fresh:
  "well_described lib e \<Longrightarrow> well_described lib p \<Longrightarrow>
   get_evaluator lib caught asp e p None = (Inr (), with_plugin lib p (with_plugin lib e (new_mcp_eval caught asp)))"
  by (simp add: get_evaluator_def register_well_described)

definition echo_args :: "string \<Rightarrow> json" where
  "echo_args txt = JObject [(''text'', JString txt)]"

definition echo_result :: "string \<Rightarrow> json" where
  "echo_result txt = JObject [(''content'',
     JArray [JObject [(''text'', JString (''Echo: '' @ txt)), (''type'', JString ''text'')]])]"

text \<open>What the library promises on the values of this exchange: what it has written, it reads back.\<close>

definition lib_reads :: "json_lib \<Rightarrow> json list \<Rightarrow> bool" where
  "lib_reads lib js \<longleftrightarrow> list_all (\<lambda>j. js_parse lib (js_write lib j) = Inr (Inr j)) js"

lemma echo_invoke:
  assumes "lib_reads lib [echo_args txt]" "js_asString lib (JString txt) = Inr txt"
  shows "echo_invoke_tool lib ctime ''echo'' (js_write lib (echo_args txt)) = js_write lib (echo_result txt)"
  using assms
  by (simp add: echo_invoke_tool_def lib_reads_def echo_args_def echo_result_def opt_string_object jhas_def jget_def
    sm_find_def text_content_def jset_def jappend_def)

lemma echo_call:
  assumes "tools_inv lib ev" "sm_find ''echo'' (tool_to_plugin ev) = Some (McpPlugEcho lib now i)"
    and "lib_reads lib [echo_args txt, echo_result txt]" "\<And>s. js_asString lib (JString s) = Inr s"
    and "sm_find ''name'' params = Some (JString ''echo'')" "sm_find ''arguments'' params = Some (echo_args txt)"
  shows "tools_call lib (JObject params) r ev = (Inr (jset ''result'' (echo_result txt) r), ev)"
proof -
  have "opt_string lib ''name'' (JObject params) = Inr ''echo''"
      "opt_member lib ''arguments'' (JObject params) (JObject []) = Inr (echo_args txt)"
    using assms(4-6) by (simp_all add: opt_string_object opt_member_object jhas_def jget_def)
  with assms(2-4) show ?thesis
    by (simp add: tools_call_def McpPlugEcho_def echo_invoke lib_reads_def)
qed

text \<open>
  On a fresh evaluator with its two plugins, the request \<^verbatim>\<open>tools/call\<close> of the echo tool is answered, in one reply with
  the id of the request, with the text that was sent, whatever the text is.
\<close>

theorem echo_answered:
  assumes lib: "lib_reads lib [echo_tools, echo_args txt, echo_result txt]" "\<And>s. js_asString lib (JString s) = Inr s"
    and as_plugin: "well_described lib p" "''echo'' \<notin> set (tool_names lib p)"
    and ev: "get_evaluator lib caught asp (McpPlugEcho lib now i) p None = (Inr (), ev)"
    and req: "js_parse lib x = Inr (Inr (JObject m))" "rpc_request lib m ''tools/call''" "x \<noteq> []" "x \<noteq> nl"
    and params: "sm_find ''params'' m = Some (JObject params)" "sm_find ''name'' params = Some (JString ''echo'')"
      "sm_find ''arguments'' params = Some (echo_args txt)"
  shows "mcp_answer lib files prefix x ev =
     js_write lib (JObject [(''id'', jget ''id'' (JObject m)), (''jsonrpc'', JString ''2.0''), (''result'', echo_result txt)])
     @ nl"
proof -
  have reads: "js_parse lib (js_write lib echo_tools) = Inr (Inr echo_tools)"
    using lib(1) by (simp add: lib_reads_def)
  note names = echo_names [OF reads lib(2) lib(2), of now i]
  let ?ev = "with_plugin lib p (with_plugin lib (McpPlugEcho lib now i) (new_mcp_eval caught asp))"
  have e: "ev = ?ev" using ev get_evaluator_fresh [OF names(1) as_plugin(1)] by simp
  have inv: "tools_inv lib ev" unfolding e using names(1) as_plugin(1) by (simp add: with_plugin_inv tools_inv_new)
  then have "sm_find ''echo'' (tool_to_plugin ev) =
      List.find (\<lambda>q. ''echo'' \<in> set (tool_names lib q)) (rev (plugins ev))"
    by (simp add: tools_inv_def)
  then have "sm_find ''echo'' (tool_to_plugin (begin_eval ev)) = Some (McpPlugEcho lib now i)"
      "tools_inv lib (begin_eval ev)"
    using as_plugin(2) names(2) inv by (simp_all add: e with_plugin_def new_mcp_eval_def begin_eval_def tools_inv_def)
  moreover have "lib_reads lib [echo_args txt, echo_result txt]" using lib(1) by (simp add: lib_reads_def)
  ultimately have "tools_call lib (JObject params) r (begin_eval ev) =
      (Inr (jset ''result'' (echo_result txt) r), begin_eval ev)" for r
    using lib(2) params(2,3) by (intro echo_call)
  moreover have "request_params m = JObject params"
    using params(1) by (simp add: request_params_def jhas_def jget_def)
  ultimately show ?thesis
    using req(3,4) handle_request_method [OF req(1,2), of files prefix "begin_eval ev"]
    by (simp add: mcp_answer_def mcp_evaluated_def eval_expr_def poll_result_def mcp_method_def) (simp add: jset_def)
qed

text \<open>A library that knows the texts of this exchange.\<close>

definition known_request :: "(string \<times> json) list" where
  "known_request = [(''id'', JInt 1), (''jsonrpc'', JString ''2.0''), (''method'', JString ''tools/call''),
     (''params'', JObject [(''arguments'', echo_args ''hi''), (''name'', JString ''echo'')])]"

definition table_lib :: "json list \<Rightarrow> json_lib" where
  "table_lib known =
     \<lparr>js_parse = (\<lambda>x. case List.find (\<lambda>j. jtext j = x) known of Some j \<Rightarrow> Inr (Inr j) | None \<Rightarrow> Inr (Inl ''syntax'')),
      js_write = jtext,
      js_asString = (\<lambda>j. case j of JString s \<Rightarrow> Inr s | JNull \<Rightarrow> Inr [] | _ \<Rightarrow> Inl ''not convertible''),
      js_type_error = (\<lambda>j. ''type'')\<rparr>"

abbreviation echo_lib :: json_lib where
  "echo_lib \<equiv> table_lib [JObject known_request, JArray [], echo_tools, echo_args ''hi'', echo_result ''hi'']"

definition no_tools :: "unit mcp_plugin" where
  "no_tools = \<lparr>plugin_id = 2, tool_descriptions = ''[]'', invoke_tool = (\<lambda>t a w. (Inl ''none'', w))\<rparr>"

lemma table_lib_reads: "distinct (map jtext known) \<Longrightarrow> j \<in> set known \<Longrightarrow> js_parse (table_lib known) (jtext j) = Inr (Inr j)"
proof -
  assume "distinct (map jtext known)" "j \<in> set known"
  then have "List.find (\<lambda>i. jtext i = jtext j) known = Some j"
    by (induction known) auto
  then show ?thesis by (simp add: table_lib_def)
qed

lemma echo_lib_table:
  "distinct (map jtext [JObject known_request, JArray [], echo_tools, echo_args ''hi'', echo_result ''hi''])"
  by code_simp

lemmas echo_lib_reads = table_lib_reads [OF echo_lib_table]

theorem echo_answered_witness:
  "\<exists>ev. get_evaluator echo_lib False () (McpPlugEcho echo_lib (\<lambda>w. ''noon'') 1) no_tools None = (Inr (), ev)
     \<and> mcp_answer echo_lib (\<lambda>f. None) [] (jtext (JObject known_request)) ev =
       js_write echo_lib (JObject [(''id'', jget ''id'' (JObject known_request)), (''jsonrpc'', JString ''2.0''),
         (''result'', echo_result ''hi'')]) @ nl"
proof -
  have w: "js_write echo_lib = jtext" and s: "js_asString echo_lib (JString s) = Inr s" for s
    by (simp_all add: table_lib_def)
  have reads: "lib_reads echo_lib [echo_tools, echo_args ''hi'', echo_result ''hi'']"
    unfolding lib_reads_def w by (simp add: echo_lib_reads del: jtext.simps)
  have "js_parse echo_lib ''[]'' = Inr (Inr (JArray []))" using echo_lib_reads [of "JArray []"] by simp
  then have p: "well_described echo_lib no_tools" "tool_names echo_lib no_tools = []"
    by (simp_all add: well_described_def tool_names_def tool_array_def no_tools_def)
  have "well_described echo_lib (McpPlugEcho echo_lib (\<lambda>w. ''noon'') 1)"
    using reads by (intro echo_names s) (simp add: lib_reads_def)
  then obtain ev where
    ev: "get_evaluator echo_lib False () (McpPlugEcho echo_lib (\<lambda>w. ''noon'') 1) no_tools None = (Inr (), ev)"
    using get_evaluator_fresh [OF _ p(1)] by blast
  moreover have "mcp_answer echo_lib (\<lambda>f. None) [] (jtext (JObject known_request)) ev =
       js_write echo_lib (JObject [(''id'', jget ''id'' (JObject known_request)), (''jsonrpc'', JString ''2.0''),
         (''result'', echo_result ''hi'')]) @ nl"
  proof (rule echo_answered [OF reads s p(1) _ ev])
    show "js_parse echo_lib (jtext (JObject known_request)) = Inr (Inr (JObject known_request))"
      by (rule echo_lib_reads) simp
    show "rpc_request echo_lib known_request ''tools/call''"
    proof -
      have "sm_find ''jsonrpc'' known_request = Some (JString ''2.0'')"
          "sm_find ''method'' known_request = Some (JString ''tools/call'')"
        by (simp_all add: known_request_def sm_find_def)
      then show ?thesis by (simp add: rpc_request_def s)
    qed
    show "sm_find ''params'' known_request =
        Some (JObject [(''arguments'', echo_args ''hi''), (''name'', JString ''echo'')])"
      by (simp add: known_request_def sm_find_def)
  qed (simp_all add: p(2) sm_find_def nl_def)
  ultimately show ?thesis by blast
qed

end
