(* ===== verification/Mcp_Client.thy ===== *)
theory Mcp_Client
  imports Mcp_Plugins
begin

text \<open>
  \<^verbatim>\<open>examples/mcp/mcp-checker.cc\<close>: a client of the MCP port, which connects, initializes, pings, lists the tools and calls
  the first, lists the resources and reads the first. The second half of the theory lets it talk to the MCP server of
  \<open>Mcp_Server\<close> over a network that cuts the texts as it likes.
\<close>

section \<open>The client\<close>

text \<open>
  The system calls. \<^verbatim>\<open>recv\<close> gives the number it returns and the bytes it has stored; \<^const>\<open>None\<close> is a call that never returns
  because nothing comes any more. The world they work on is the argument \<open>'n\<close>.
\<close>

record 'n net_ops =
  nt_socket :: "'n \<Rightarrow> int \<times> 'n"
  nt_gethostbyname :: "string \<Rightarrow> 'n \<Rightarrow> string option"
  nt_connect :: "int \<Rightarrow> string \<Rightarrow> nat \<Rightarrow> 'n \<Rightarrow> int \<times> 'n"
  nt_close :: "int \<Rightarrow> 'n \<Rightarrow> 'n"
  nt_send :: "int \<Rightarrow> string \<Rightarrow> 'n \<Rightarrow> int \<times> 'n"
  nt_recv :: "int \<Rightarrow> nat \<Rightarrow> 'n \<Rightarrow> (int \<times> string \<times> 'n) option"

text \<open>The client object with the static buffer of \<^verbatim>\<open>receiveMessage\<close>, the world, and what was printed.\<close>

record 'n rpc_client =
  cl_sock :: int
  message_id :: "32 word"
  connected :: bool
  cl_buffer :: string
  cl_net :: 'n
  cl_out :: string
  cl_err :: string

definition SimpleJsonRpcClient :: "'n \<Rightarrow> 'n rpc_client" where
  "SimpleJsonRpcClient n =
     \<lparr>cl_sock = - 1, message_id = 0, connected = False, cl_buffer = [], cl_net = n, cl_out = [], cl_err = []\<rparr>"

text \<open>Methods of the client: they may not return, or throw a \<^verbatim>\<open>std::exception\<close>, given by its text.\<close>

type_synonym ('n, 'a) cl_act = "'n rpc_client \<Rightarrow> ('a jres \<times> 'n rpc_client) option"

definition cl_ret :: "'a \<Rightarrow> ('n, 'a) cl_act" where
  "cl_ret a c = Some (Inr a, c)"

definition cl_bind :: "('n, 'a) cl_act \<Rightarrow> ('a \<Rightarrow> ('n, 'b) cl_act) \<Rightarrow> ('n, 'b) cl_act" where
  "cl_bind m f c =
     (case m c of
        None \<Rightarrow> None
      | Some (Inl e, c') \<Rightarrow> Some (Inl e, c')
      | Some (Inr a, c') \<Rightarrow> f a c')"

definition cl_then :: "('n, 'a) cl_act \<Rightarrow> ('n, 'b) cl_act \<Rightarrow> ('n, 'b) cl_act" where
  "cl_then m k = cl_bind m (\<lambda>_. k)"

definition cl_catch :: "('n, 'a) cl_act \<Rightarrow> (string \<Rightarrow> ('n, 'a) cl_act) \<Rightarrow> ('n, 'a) cl_act" where
  "cl_catch m handler c =
     (case m c of
        Some (Inl e, c') \<Rightarrow> handler e c'
      | r \<Rightarrow> r)"

definition cl_of :: "'a jres \<Rightarrow> ('n, 'a) cl_act" where
  "cl_of r c = Some (r, c)"

definition cout :: "string \<Rightarrow> ('n, unit) cl_act" where
  "cout t c = Some (Inr (), c\<lparr>cl_out := cl_out c @ t\<rparr>)"

definition cerr :: "string \<Rightarrow> ('n, unit) cl_act" where
  "cerr t c = Some (Inr (), c\<lparr>cl_err := cl_err c @ t\<rparr>)"

fun cl_each :: "('a \<Rightarrow> ('n, unit) cl_act) \<Rightarrow> 'a list \<Rightarrow> ('n, unit) cl_act" where
  "cl_each f [] = cl_ret ()"
| "cl_each f (x # xs) = cl_then (f x) (cl_each f xs)"

text \<open>The port is cut to 16 bits.\<close>

definition connect :: "'n net_ops \<Rightarrow> string \<Rightarrow> int \<Rightarrow> ('n, bool) cl_act" where
  "connect nt host port c =
     (case nt_socket nt (cl_net c) of (sk, n1) \<Rightarrow>
        if sk = - 1
        then Some (Inr False, c\<lparr>cl_sock := sk, cl_net := n1, cl_err := cl_err c @ ''Failed to create socket'' @ nl\<rparr>)
        else case nt_gethostbyname nt host n1 of
          None \<Rightarrow> Some (Inr False, c\<lparr>cl_sock := - 1, cl_net := nt_close nt sk n1,
                     cl_err := cl_err c @ ''Failed to resolve hostname: '' @ host @ nl\<rparr>)
        | Some h_addr \<Rightarrow>
            (case nt_connect nt sk h_addr (nat (port mod 65536)) n1 of (rc, n2) \<Rightarrow>
               if rc < 0
               then Some (Inr False, c\<lparr>cl_sock := - 1, cl_net := nt_close nt sk n2,
                      cl_err := cl_err c @ ''Failed to connect to '' @ host @ '':'' @ show_int port @ nl\<rparr>)
               else Some (Inr True, c\<lparr>cl_sock := sk, cl_net := n2, connected := True\<rparr>)))"

definition disconnect :: "'n net_ops \<Rightarrow> 'n rpc_client \<Rightarrow> 'n rpc_client" where
  "disconnect nt c =
     (if cl_sock c \<noteq> - 1
      then c\<lparr>cl_sock := - 1, cl_net := nt_close nt (cl_sock c) (cl_net c), connected := False\<rparr>
      else c\<lparr>connected := False\<rparr>)"

text \<open>The loop of \<^verbatim>\<open>sendMessage\<close>.\<close>

function send_loop :: "'n net_ops \<Rightarrow> int \<Rightarrow> string \<Rightarrow> nat \<Rightarrow> 'n \<Rightarrow> bool \<times> 'n" where
  "send_loop nt sk msg_str total_sent n =
     (if total_sent < length msg_str
      then case nt_send nt sk (drop total_sent msg_str) n of (now_sent, n') \<Rightarrow>
             if now_sent \<le> 0 then (False, n') else send_loop nt sk msg_str (total_sent + nat now_sent) n'
      else (True, n))"
  by pat_completeness auto
termination
  by (relation "measure (\<lambda>(nt, sk, msg_str, total_sent, n). length msg_str - total_sent)") auto

declare send_loop.simps [simp del]

definition sendMessage :: "json_lib \<Rightarrow> 'n net_ops \<Rightarrow> json \<Rightarrow> ('n, bool) cl_act" where
  "sendMessage lib nt message c =
     (if \<not> connected c then Some (Inr False, c)
      else case send_loop nt (cl_sock c) (js_write lib message @ nl) 0 (cl_net c) of
        (True, n) \<Rightarrow> Some (Inr True, c\<lparr>cl_net := n\<rparr>)
      | (False, n) \<Rightarrow> Some (Inr False, c\<lparr>cl_net := n, cl_err := cl_err c @ ''Failed to send message'' @ nl\<rparr>))"

text \<open>What is received is appended as a C string, that is, up to its first NUL.\<close>

definition parse_line :: "json_lib \<Rightarrow> string \<Rightarrow> ('n, json) cl_act" where
  "parse_line lib line c =
     (case js_parse lib line of
        Inl e \<Rightarrow> Some (Inl e, c)
      | Inr (Inl errors) \<Rightarrow> Some (Inr JNull, c\<lparr>cl_err := cl_err c @ ''Failed to parse JSON: '' @ errors @ nl\<rparr>)
      | Inr (Inr root) \<Rightarrow> Some (Inr root, c))"

partial_function (option) recv_loop :: "json_lib \<Rightarrow> 'n net_ops \<Rightarrow> 'n rpc_client \<Rightarrow> (json jres \<times> 'n rpc_client) option" where
  "recv_loop lib nt c =
     (case find_chr (CHR 0x0A) (cl_buffer c) of
        Some newline_pos \<Rightarrow>
          parse_line lib (take newline_pos (cl_buffer c)) (c\<lparr>cl_buffer := drop (newline_pos + 1) (cl_buffer c)\<rparr>)
      | None \<Rightarrow>
          (case nt_recv nt (cl_sock c) 4095 (cl_net c) of
             None \<Rightarrow> None
           | Some (received, recv_buf, n) \<Rightarrow>
               if received \<le> 0
               then Some (Inr JNull, c\<lparr>cl_net := n, cl_err := cl_err c @ ''Failed to receive message'' @ nl\<rparr>)
               else recv_loop lib nt (c\<lparr>cl_net := n, cl_buffer := cl_buffer c @ c_str recv_buf\<rparr>)))"

definition receiveMessage :: "json_lib \<Rightarrow> 'n net_ops \<Rightarrow> ('n, json) cl_act" where
  "receiveMessage lib nt c = (if \<not> connected c then Some (Inr JNull, c) else recv_loop lib nt c)"

text \<open>\<^verbatim>\<open>Json::Value::empty\<close>.\<close>

definition jempty :: "json \<Rightarrow> bool" where
  "jempty j \<longleftrightarrow> j = JNull \<or> j = JArray [] \<or> j = JObject []"

definition rpc_call :: "string \<Rightarrow> int \<Rightarrow> json \<Rightarrow> json" where
  "rpc_call method i params =
     (let request = jset ''id'' (JInt i) (jset ''method'' (JString method) (jset ''jsonrpc'' (JString ''2.0'') JNull))
      in if params = JNull then request else jset ''params'' params request)"

definition rpc_response :: "json_lib \<Rightarrow> json \<Rightarrow> ('n, json) cl_act" where
  "rpc_response lib response =
     (if jempty response then cl_of (Inl ''Failed to receive response'')
      else cl_bind (cl_of (isMember (js_type_error lib response) ''error'' response)) (\<lambda>is_error.
        if is_error then cl_of (Inl (''RPC error: '' @ js_write lib (jget ''error'' response)))
        else cl_bind (cl_of (isMember (js_type_error lib response) ''result'' response)) (\<lambda>has_result.
          cl_ret (if has_result then jget ''result'' response else JNull))))"

definition sendRequest :: "json_lib \<Rightarrow> 'n net_ops \<Rightarrow> string \<Rightarrow> json \<Rightarrow> ('n, json) cl_act" where
  "sendRequest lib nt method params c =
     cl_bind (sendMessage lib nt (rpc_call method (sint (message_id c)) params)) (\<lambda>ok.
       if \<not> ok then cl_of (Inl ''Failed to send request'')
       else cl_bind (receiveMessage lib nt) (rpc_response lib))
     (c\<lparr>message_id := message_id c + 1\<rparr>)"

text \<open>The methods of the protocol. \<open>pretty\<close> is the writer with indentation.\<close>

definition init_params :: "string \<Rightarrow> string \<Rightarrow> json" where
  "init_params name version =
     jset2 ''clientInfo'' ''version'' (JString version) (jset2 ''clientInfo'' ''name'' (JString name)
       (jset ''capabilities'' (JObject []) (jset ''protocolVersion'' (JString ''2025-06-18'') JNull)))"

definition init_notification :: json where
  "init_notification = jset ''method'' (JString ''notifications/initialized'') (jset ''jsonrpc'' (JString ''2.0'') JNull)"

definition client_initialize :: "json_lib \<Rightarrow> (json \<Rightarrow> string) \<Rightarrow> 'n net_ops \<Rightarrow> string \<Rightarrow> string \<Rightarrow> ('n, bool) cl_act" where
  "client_initialize lib pretty nt name version =
     cl_catch
       (cl_bind (sendRequest lib nt ''initialize'' (init_params name version)) (\<lambda>result.
        cl_then (cout (''Initialize response: '' @ pretty result @ nl))
       (cl_then (sendMessage lib nt init_notification)
       (cl_bind (receiveMessage lib nt) (\<lambda>init_response.
        cl_then (cout (''DEBUG: initialize notification response: '' @ pretty init_response @ nl))
          (cl_ret True))))))
       (\<lambda>what. cl_then (cerr (''Initialize failed: '' @ what @ nl)) (cl_ret False))"

definition client_ping :: "json_lib \<Rightarrow> 'n net_ops \<Rightarrow> ('n, bool) cl_act" where
  "client_ping lib nt = cl_catch (cl_then (sendRequest lib nt ''ping'' JNull) (cl_ret True)) (\<lambda>_. cl_ret False)"

definition listTools :: "json_lib \<Rightarrow> 'n net_ops \<Rightarrow> ('n, json) cl_act" where
  "listTools lib nt = sendRequest lib nt ''tools/list'' JNull"

definition call_params :: "string \<Rightarrow> json \<Rightarrow> json" where
  "call_params name arguments =
     (let params = jset ''name'' (JString name) JNull
      in if arguments = JNull then params else jset ''arguments'' arguments params)"

definition callTool :: "json_lib \<Rightarrow> 'n net_ops \<Rightarrow> string \<Rightarrow> json \<Rightarrow> ('n, json) cl_act" where
  "callTool lib nt name arguments = sendRequest lib nt ''tools/call'' (call_params name arguments)"

definition listResources :: "json_lib \<Rightarrow> 'n net_ops \<Rightarrow> ('n, json) cl_act" where
  "listResources lib nt = sendRequest lib nt ''resources/list'' JNull"

definition readResource :: "json_lib \<Rightarrow> 'n net_ops \<Rightarrow> string \<Rightarrow> ('n, json) cl_act" where
  "readResource lib nt uri = sendRequest lib nt ''resources/read'' (jset ''uri'' (JString uri) JNull)"

section \<open>The program\<close>

text \<open>The check mark and the cross, in UTF-8, each with the blank after it.\<close>

definition good :: string where
  "good = [CHR 0xE2, CHR 0x9C, CHR 0x93, CHR 0x20]"

definition bad :: string where
  "bad = [CHR 0xE2, CHR 0x9C, CHR 0x97, CHR 0x20]"

text \<open>\<^verbatim>\<open>value[k].asString()\<close>, printed after a label.\<close>

definition print_member :: "json_lib \<Rightarrow> string \<Rightarrow> string \<Rightarrow> json \<Rightarrow> ('n, unit) cl_act" where
  "print_member lib label k j =
     cl_then (cout label) (cl_bind (cl_of (jbind (jindex lib k j) (js_asString lib))) cout)"

definition print_tool :: "json_lib \<Rightarrow> json \<Rightarrow> ('n, unit) cl_act" where
  "print_tool lib tool =
     cl_then (print_member lib ''  - '' ''name'' tool)
       (cl_then (print_member lib '': '' ''description'' tool) (cout nl))"

definition tool_args :: "string \<Rightarrow> json" where
  "tool_args name =
     (if name = ''echo'' then jset ''text'' (JString ''Hello from network client!'') JNull
      else if name = ''greeting'' then jset ''name'' (JString ''NetworkClient'') JNull
      else JNull)"

definition call_first_tool :: "json_lib \<Rightarrow> (json \<Rightarrow> string) \<Rightarrow> 'n net_ops \<Rightarrow> json \<Rightarrow> ('n, unit) cl_act" where
  "call_first_tool lib pretty nt first_tool =
     cl_bind (cl_of (jbind (jindex lib ''name'' first_tool) (js_asString lib))) (\<lambda>name.
     cl_then (cout (nl @ ''Calling tool '' @ [CHR 0x27] @ name @ [CHR 0x27] @ ''...'' @ nl))
       (cl_catch
         (cl_bind (callTool lib nt name (tool_args name)) (\<lambda>result. cout (good @ ''Tool result: '' @ pretty result @ nl)))
         (\<lambda>what. cout (bad @ ''Tool call failed: '' @ what @ nl))))"

definition check_tools :: "json_lib \<Rightarrow> (json \<Rightarrow> string) \<Rightarrow> 'n net_ops \<Rightarrow> ('n, unit) cl_act" where
  "check_tools lib pretty nt =
     cl_catch
       (cl_bind (listTools lib nt) (\<lambda>tools_response.
        cl_then (cout (''DEBUG: Raw tools response: '' @ pretty tools_response @ nl))
       (cl_bind (cl_of (isMember (js_type_error lib tools_response) ''tools'' tools_response)) (\<lambda>has_tools.
          case (if has_tools then jget ''tools'' tools_response else JNull) of
            JArray tools \<Rightarrow>
              cl_then (cout (good @ ''Found '' @ show_nat (length tools) @ '' tools:'' @ nl))
              (cl_then (cl_each (print_tool lib) tools)
                (case tools of [] \<Rightarrow> cl_ret () | first_tool # _ \<Rightarrow> call_first_tool lib pretty nt first_tool))
          | _ \<Rightarrow> cl_ret ()))))
       (\<lambda>what. cout (bad @ ''Failed to list tools: '' @ what @ nl))"

text \<open>A member that is printed when it is there.\<close>

definition print_optional :: "json_lib \<Rightarrow> string \<Rightarrow> string \<Rightarrow> json \<Rightarrow> ('n, unit) cl_act" where
  "print_optional lib label k j =
     cl_bind (cl_of (isMember (js_type_error lib j) k j)) (\<lambda>there.
       if there then cl_then (print_member lib label k j) (cout nl) else cl_ret ())"

definition print_resource :: "json_lib \<Rightarrow> json \<Rightarrow> ('n, unit) cl_act" where
  "print_resource lib resource =
     cl_then (cl_then (print_member lib ''  - URI: '' ''uri'' resource) (cout nl))
    (cl_then (print_optional lib ''    Name: '' ''name'' resource)
    (cl_then (print_optional lib ''    Description: '' ''description'' resource)
             (print_optional lib ''    MIME Type: '' ''mimeType'' resource)))"

definition print_text :: "string \<Rightarrow> ('n, unit) cl_act" where
  "print_text txt =
     (if length txt > 200
      then cout (good @ ''Resource content (first 200 chars):'' @ nl @ take 200 txt @ ''...'' @ nl)
      else cout (good @ ''Resource content:'' @ nl @ txt @ nl))"

definition print_contents :: "json_lib \<Rightarrow> (json \<Rightarrow> string) \<Rightarrow> json \<Rightarrow> ('n, unit) cl_act" where
  "print_contents lib pretty read_response =
     cl_bind (cl_of (isMember (js_type_error lib read_response) ''contents'' read_response)) (\<lambda>there.
       if there
       then case jget ''contents'' read_response of
              JArray (first_content # _) \<Rightarrow>
                cl_bind (cl_of (isMember (js_type_error lib first_content) ''text'' first_content)) (\<lambda>has_text.
                  if has_text then cl_bind (cl_of (js_asString lib (jget ''text'' first_content))) print_text
                  else cl_bind (cl_of (isMember (js_type_error lib first_content) ''uri'' first_content)) (\<lambda>has_uri.
                    if has_uri
                    then cl_then (print_member lib (good @ ''Resource references URI: '') ''uri'' first_content) (cout nl)
                    else cl_ret ()))
            | _ \<Rightarrow> cl_ret ()
       else cout (good @ ''Read response: '' @ pretty read_response @ nl))"

definition read_first_resource :: "json_lib \<Rightarrow> (json \<Rightarrow> string) \<Rightarrow> 'n net_ops \<Rightarrow> json \<Rightarrow> ('n, unit) cl_act" where
  "read_first_resource lib pretty nt first_resource =
     cl_bind (cl_of (isMember (js_type_error lib first_resource) ''uri'' first_resource)) (\<lambda>there.
       if \<not> there then cl_ret ()
       else cl_bind (cl_of (js_asString lib (jget ''uri'' first_resource))) (\<lambda>uri.
         cl_then (cout (nl @ ''Reading first resource: '' @ uri @ nl))
         (cl_catch (cl_bind (readResource lib nt uri) (print_contents lib pretty))
           (\<lambda>what. cout (bad @ ''Failed to read resource: '' @ what @ nl)))))"

definition check_resources :: "json_lib \<Rightarrow> (json \<Rightarrow> string) \<Rightarrow> 'n net_ops \<Rightarrow> ('n, unit) cl_act" where
  "check_resources lib pretty nt =
     cl_catch
       (cl_bind (listResources lib nt) (\<lambda>resources_response.
        cl_then (cout (''DEBUG: Raw resources response: '' @ pretty resources_response @ nl))
       (cl_bind (cl_of (isMember (js_type_error lib resources_response) ''resources'' resources_response)) (\<lambda>there.
          case (if there then jget ''resources'' resources_response else JNull) of
            JArray resources \<Rightarrow>
              cl_then (cout (good @ ''Found '' @ show_nat (length resources) @ '' resources:'' @ nl))
              (cl_then (cl_each (print_resource lib) resources)
                (case resources of [] \<Rightarrow> cl_ret () | r # _ \<Rightarrow> read_first_resource lib pretty nt r))
          | _ \<Rightarrow> cout (good @ ''No resources available'' @ nl)))))
       (\<lambda>what. cout (bad @ ''Failed to list resources: '' @ what @ nl))"

text \<open>The body of the try block in \<^verbatim>\<open>main\<close>, with the exit code: what follows the connection, and the whole.\<close>

definition checker_dialogue :: "json_lib \<Rightarrow> (json \<Rightarrow> string) \<Rightarrow> 'n net_ops \<Rightarrow> ('n, int) cl_act" where
  "checker_dialogue lib pretty nt =
     cl_then (cout (good @ ''Connected to server'' @ nl))
    (cl_then (cout (nl @ ''Initializing client...'' @ nl))
    (cl_bind (client_initialize lib pretty nt ''NetworkClientJsonOnly'' ''1.0.0'') (\<lambda>ok.
       if \<not> ok then cl_then (cerr (''Failed to initialize client'' @ nl)) (cl_ret 1)
       else
     cl_then (cout (good @ ''Client initialized successfully'' @ nl))
    (cl_then (cout (nl @ ''Testing ping...'' @ nl))
    (cl_bind (client_ping lib nt) (\<lambda>ok.
     cl_then (cout (if ok then good @ ''Ping successful'' @ nl else bad @ ''Ping failed'' @ nl))
    (cl_then (cout (nl @ ''Listing available tools...'' @ nl))
    (cl_then (check_tools lib pretty nt)
    (cl_then (cout (nl @ ''Listing available resources...'' @ nl))
    (cl_then (check_resources lib pretty nt)
    (cl_then (cout (nl @ good @ ''All operations completed successfully!'' @ nl))
      (cl_ret 0))))))))))))"

definition checker_session :: "json_lib \<Rightarrow> (json \<Rightarrow> string) \<Rightarrow> 'n net_ops \<Rightarrow> string \<Rightarrow> int \<Rightarrow> ('n, int) cl_act" where
  "checker_session lib pretty nt host port =
     cl_bind (connect nt host port) (\<lambda>ok.
       if \<not> ok then cl_then (cerr (''Failed to connect to server'' @ nl)) (cl_ret 1)
       else checker_dialogue lib pretty nt)"

text \<open>How the program ends; \<^verbatim>\<open>std::stoi\<close> is outside of the try block.\<close>

datatype checker_end = Exits int | Aborts exn

definition usage :: "string \<Rightarrow> string" where
  "usage program_name =
     ''Usage: '' @ program_name @ '' [options]'' @ nl
     @ ''Options:'' @ nl
     @ ''  -h, --host <host>     Server host (default: localhost)'' @ nl
     @ ''  -p, --port <port>     Server port (default: 18888)'' @ nl
     @ ''  --help               Show this help message'' @ nl
     @ nl
     @ ''Example:'' @ nl
     @ ''  '' @ program_name @ '' --host localhost --port 18888'' @ nl
     @ nl
     @ ''This client connects to an existing MCP server running on the specified'' @ nl
     @ ''host and port, and lists the available tools and resources.'' @ nl"

text \<open>The loop over the arguments: how the program ends at once, with what it prints, or host and port.\<close>

function checker_args :: "string \<Rightarrow> string list \<Rightarrow> string \<Rightarrow> int \<Rightarrow> (checker_end \<times> string \<times> string) + (string \<times> int)" where
  "checker_args prog [] host port = Inr (host, port)"
| "checker_args prog (a # args) host port =
     (if a = ''--help'' then Inl (Exits 0, usage prog, [])
      else if (a = ''-h'' \<or> a = ''--host'') \<and> args \<noteq> [] then checker_args prog (tl args) (hd args) port
      else if (a = ''-p'' \<or> a = ''--port'') \<and> args \<noteq> []
      then (case stoi (hd args) of
              Inl e \<Rightarrow> Inl (Aborts e, [], [])
            | Inr p \<Rightarrow> checker_args prog (tl args) host p)
      else Inl (Exits 1, usage prog, ''Unknown argument: '' @ a @ nl))"
  by pat_completeness auto
termination
  by (relation "measure (\<lambda>(prog, args, host, port). length args)") (simp_all only: in_measure prod.case wf_measure, simp_all add: less_Suc_eq_le)

definition checker_main ::
  "json_lib \<Rightarrow> (json \<Rightarrow> string) \<Rightarrow> 'n net_ops \<Rightarrow> string \<Rightarrow> string list \<Rightarrow> 'n \<Rightarrow> (checker_end \<times> 'n rpc_client) option" where
  "checker_main lib pretty nt prog args n =
     (let c0 = SimpleJsonRpcClient n
      in case checker_args prog args ''localhost'' 18888 of
           Inl (x, txt, err) \<Rightarrow> Some (x, c0\<lparr>cl_out := txt, cl_err := err\<rparr>)
         | Inr (host, port) \<Rightarrow>
             (let c1 = c0\<lparr>cl_out := ''MCP Network Client Example'' @ nl @ ''Connecting to: '' @ host @ '':'' @ show_int port @ nl\<rparr>
              in case checker_session lib pretty nt host port c1 of
                   None \<Rightarrow> None
                 | Some (Inr rc, c) \<Rightarrow> Some (Exits rc, disconnect nt c)
                 | Some (Inl what, c) \<Rightarrow>
                     Some (Exits 1, (disconnect nt c)\<lparr>cl_err := cl_err c @ ''Error: '' @ what @ nl\<rparr>)))"

text \<open>A port that is not a number, or too large for an \<^verbatim>\<open>int\<close>, ends the program with an uncaught exception.\<close>

lemma bad_port_aborts:
  assumes "stoi port = Inl e"
  shows "checker_main lib pretty nt prog [''--port'', port] n = Some (Aborts e, SimpleJsonRpcClient n)"
  using assms by (simp add: checker_main_def SimpleJsonRpcClient_def)

section \<open>A connection to a server that answers lines\<close>

text \<open>
  The client and the server \<open>p\<close> are in step: nothing is on its way over the socket \<open>sk\<close>, and nothing is left over.
  \<open>transit\<close> gives the beginning of a line that has reached the server, what the server has sent, and the server.
\<close>

definition in_step :: "int \<Rightarrow> ('n \<Rightarrow> string \<times> string \<times> 'p) \<Rightarrow> 'n rpc_client \<Rightarrow> 'p \<Rightarrow> bool" where
  "in_step sk transit c p \<longleftrightarrow>
     connected c \<and> cl_sock c = sk \<and> cl_buffer c = [] \<and> transit (cl_net c) = ([], [], p)"

lemma cl_simps [simp]:
  "cl_ret a c = Some (Inr a, c)" "cl_of r c = Some (r, c)"
  "cout t c = Some (Inr (), c\<lparr>cl_out := cl_out c @ t\<rparr>)"
  by (simp_all add: cl_ret_def cl_of_def cout_def)

lemma cl_bind_run [simp]: "m c = Some (Inr a, c') \<Longrightarrow> cl_bind m f c = f a c'"
  by (simp add: cl_bind_def)

lemma cl_then_run [simp]: "m c = Some (Inr a, c') \<Longrightarrow> cl_then m k c = k c'"
  by (simp add: cl_then_def)

lemma cl_catch_run: "m c = Some (Inr a, c') \<Longrightarrow> cl_catch m handler c = Some (Inr a, c')"
  by (simp add: cl_catch_def)

text \<open>A text that passes through: no line ends, no NUL, and none of the characters that the server takes for controls.\<close>

definition clean :: "string \<Rightarrow> bool" where
  "clean t \<longleftrightarrow> list_all (\<lambda>c. c \<noteq> CHR 0x00 \<and> c \<noteq> CHR 0x04 \<and> c \<noteq> CHR 0x0A \<and> c \<noteq> CHR 0x0D \<and> c \<noteq> CHR 0xFF) t"

text \<open>
  What the server does with text that arrives: each complete line is answered. The state is the beginning of the
  next line, what the server has sent, and the server.
\<close>

fun feed :: "(string \<Rightarrow> 'p \<Rightarrow> string \<times> 'p) \<Rightarrow> string \<Rightarrow> string \<times> string \<times> 'p \<Rightarrow> string \<times> string \<times> 'p" where
  "feed respond [] st = st"
| "feed respond (c # cs) (half, out, p) =
     (if c = CHR 0x0A
      then case respond (strip_cr half) p of (reply, p') \<Rightarrow> feed respond cs ([], out @ reply, p')
      else feed respond cs (half @ [c], out, p))"

lemma strip_cr_id: "CHR 0x0D \<notin> set t \<Longrightarrow> strip_cr t = t"
  by (auto simp: strip_cr_def) (metis last_in_set)

lemma feed_append: "feed respond (xs @ ys) st = feed respond ys (feed respond xs st)"
  by (induction respond xs st rule: feed.induct) (auto split: prod.splits)

lemma feed_half: "CHR 0x0A \<notin> set xs \<Longrightarrow> feed respond xs (half, out, p) = (half @ xs, out, p)"
  by (induction xs arbitrary: half) auto

lemma feed_line:
  "CHR 0x0A \<notin> set xs \<Longrightarrow> respond (strip_cr xs) p = (reply, p') \<Longrightarrow>
   feed respond (xs @ nl) ([], out, p) = ([], out @ reply, p')"
  by (simp add: feed_append feed_half nl_def)

text \<open>
  The interface to the network: \<^verbatim>\<open>send\<close> takes at least one byte and at most all, \<^verbatim>\<open>recv\<close> gives at least one byte when
  there are any, and what is sent reaches the server in order.
\<close>

locale line_link =
  fixes nt :: "'n net_ops" and sk :: int
    and transit :: "'n \<Rightarrow> string \<times> string \<times> 'p"
    and respond :: "string \<Rightarrow> 'p \<Rightarrow> string \<times> 'p"
  assumes sends: "xs \<noteq> [] \<Longrightarrow> \<exists>k n'. nt_send nt sk xs n = (int k, n') \<and> 0 < k \<and> k \<le> length xs
       \<and> transit n' = feed respond (take k xs) (transit n)"
    and receives: "transit n = (half, inc, p) \<Longrightarrow> inc \<noteq> [] \<Longrightarrow> 0 < m \<Longrightarrow>
       \<exists>k n'. nt_recv nt sk m n = Some (int k, take k inc, n') \<and> 0 < k \<and> k \<le> length inc
       \<and> transit n' = (half, drop k inc, p)"
begin

lemma send_all:
  "\<exists>n'. send_loop nt sk msg t n = (True, n') \<and> transit n' = feed respond (drop t msg) (transit n)"
proof (induction "length msg - t" arbitrary: t n rule: less_induct)
  case less
  show ?case
  proof (cases "t < length msg")
    case True
    then obtain k n' where k: "nt_send nt sk (drop t msg) n = (int k, n')" "0 < k" "k \<le> length msg - t"
        "transit n' = feed respond (take k (drop t msg)) (transit n)"
      using sends [of "drop t msg" n] by auto
    have "length msg - (t + k) < length msg - t" using True k(2) by simp
    from less.hyps [OF this, of n'] obtain n2 where
      "send_loop nt sk msg (t + k) n' = (True, n2)" "transit n2 = feed respond (drop (t + k) msg) (transit n')"
      by auto
    with k True show ?thesis
      by (simp add: send_loop.simps [of nt sk msg t] feed_append [symmetric] add.commute [of t k]
          flip: drop_drop)
  next
    case False
    then show ?thesis by (simp add: send_loop.simps [of nt sk msg t])
  qed
qed

text \<open>A line that is on its way, without NUL bytes, is received as it is, however it is cut.\<close>

lemma receive_line:
  assumes "CHR 0x0A \<notin> set l" "CHR 0x00 \<notin> set l"
  shows "transit (cl_net c) = (half, inc, p) \<Longrightarrow> cl_sock c = sk \<Longrightarrow> cl_buffer c @ inc = l @ nl \<Longrightarrow>
    \<exists>n'. recv_loop lib nt c = parse_line lib l (c\<lparr>cl_buffer := [], cl_net := n'\<rparr>) \<and> transit n' = (half, [], p)"
proof (induction "length inc" arbitrary: c inc rule: less_induct)
  case less
  show ?case
  proof (cases "inc = []")
    case True
    with less.prems have "cl_buffer c = l @ nl" by simp
    moreover have "c\<lparr>cl_buffer := [], cl_net := cl_net c\<rparr> = c\<lparr>cl_buffer := []\<rparr>" by simp
    ultimately show ?thesis using assms(1) less.prems(1) True
      by (intro exI [of _ "cl_net c"]) (simp add: recv_loop.simps [of lib nt c] nl_def str_simps)
  next
    case False
    with less.prems(3) have "\<exists>a. inc = a @ nl"
      by (cases inc rule: rev_cases) (auto simp: nl_def)
    then have buf: "find_chr (CHR 0x0A) (cl_buffer c) = None"
      using less.prems(3) assms(1) by (auto simp: find_chr_None)
    obtain k n' where k: "nt_recv nt sk 4095 (cl_net c) = Some (int k, take k inc, n')" "0 < k" "k \<le> length inc"
        "transit n' = (half, drop k inc, p)"
      using receives [OF less.prems(1) False, of 4095] by auto
    have "set inc \<subseteq> set (l @ nl)" using less.prems(3) by (metis set_append Un_upper2)
    then have "CHR 0x00 \<notin> set (take k inc)" using assms(2) by (auto simp: nl_def dest: in_set_takeD)
    then have "recv_loop lib nt c = recv_loop lib nt (c\<lparr>cl_net := n', cl_buffer := cl_buffer c @ take k inc\<rparr>)"
      using buf k less.prems(2) by (simp add: recv_loop.simps [of lib nt c])
    moreover have "length (drop k inc) < length inc" using k(2,3) by simp
    ultimately show ?thesis
      using less.hyps [of "drop k inc" "c\<lparr>cl_net := n', cl_buffer := cl_buffer c @ take k inc\<rparr>"] k(4) less.prems(2,3)
      by simp
  qed
qed

lemma message_sent:
  assumes "in_step sk transit c p" "clean (js_write lib q)" "respond (js_write lib q) p = (reply, p')"
  shows "\<exists>n. sendMessage lib nt q c = Some (Inr True, c\<lparr>cl_net := n\<rparr>) \<and> transit n = ([], reply, p')"
proof -
  have q: "CHR 0x0A \<notin> set (js_write lib q)" "strip_cr (js_write lib q) = js_write lib q"
    using assms(2) by (auto simp: clean_def list_all_iff intro: strip_cr_id)
  obtain n where "send_loop nt sk (js_write lib q @ nl) 0 (cl_net c) = (True, n)"
      "transit n = feed respond (js_write lib q @ nl) (transit (cl_net c))"
    using send_all [of "js_write lib q @ nl" 0 "cl_net c"] by auto
  moreover have "feed respond (js_write lib q @ nl) ([], [], p) = ([], reply, p')"
    using feed_line [where out = "[]", OF q(1), of respond] assms(3) q(2) by simp
  ultimately show ?thesis using assms(1) by (auto simp: in_step_def sendMessage_def)
qed

lemma message_received:
  assumes "connected c" "cl_sock c = sk" "cl_buffer c = []" "transit (cl_net c) = ([], js_write lib r @ nl, p)"
    and "clean (js_write lib r)" "lib_reads lib [r]"
  shows "\<exists>n. receiveMessage lib nt c = Some (Inr r, c\<lparr>cl_net := n\<rparr>) \<and> transit n = ([], [], p)"
proof -
  have "CHR 0x0A \<notin> set (js_write lib r)" "CHR 0x00 \<notin> set (js_write lib r)"
    using assms(5) by (auto simp: clean_def list_all_iff)
  from receive_line [OF this assms(4,2), of lib] assms(3)
  obtain n where n: "recv_loop lib nt c = parse_line lib (js_write lib r) (c\<lparr>cl_buffer := [], cl_net := n\<rparr>)"
      "transit n = ([], [], p)"
    by auto
  have "c\<lparr>cl_buffer := [], cl_net := n\<rparr> = c\<lparr>cl_net := n\<rparr>" using assms(3) by simp
  with n assms(1,6) show ?thesis
    by (intro exI [of _ n]) (simp add: receiveMessage_def parse_line_def lib_reads_def)
qed

text \<open>One exchange: the reply is looked at, and client and server are in step again.\<close>

lemma exchange:
  assumes "in_step sk transit c p" "respond (js_write lib q) p = (js_write lib r @ nl, p')"
    and "clean (js_write lib q)" "clean (js_write lib r)" "lib_reads lib [r]"
    and "q = rpc_call meth (sint (message_id c)) params"
  shows "\<exists>n. sendRequest lib nt meth params c = rpc_response lib r (c\<lparr>message_id := message_id c + 1, cl_net := n\<rparr>)
     \<and> transit n = ([], [], p')"
proof -
  let ?c = "c\<lparr>message_id := message_id c + 1\<rparr>"
  have "in_step sk transit ?c p" using assms(1) by (simp add: in_step_def)
  from message_sent [OF this assms(3,2)] obtain n1
    where n1: "sendMessage lib nt q ?c = Some (Inr True, ?c\<lparr>cl_net := n1\<rparr>)" "transit n1 = ([], js_write lib r @ nl, p')"
    by blast
  have "connected (?c\<lparr>cl_net := n1\<rparr>)" "cl_sock (?c\<lparr>cl_net := n1\<rparr>) = sk" "cl_buffer (?c\<lparr>cl_net := n1\<rparr>) = []"
    using assms(1) by (simp_all add: in_step_def)
  from message_received [OF this _ assms(4,5)] n1(2) obtain n
    where "receiveMessage lib nt (?c\<lparr>cl_net := n1\<rparr>) = Some (Inr r, ?c\<lparr>cl_net := n\<rparr>)" "transit n = ([], [], p')"
    by auto
  with n1(1) assms(6) show ?thesis by (auto simp: sendRequest_def)
qed

end

section \<open>The MCP server at the other end\<close>

text \<open>
  The server of a connection is its socket and its evaluator; the answer to a line is what \<^verbatim>\<open>OnLine\<close> writes. The network
  holds the sizes of the pieces it will cut, and what is on its way.
\<close>

type_synonym ('a, 'w) mcp_peer = "'a console_socket_scheme \<times> 'w mcp_eval"

definition mcp_respond ::
  "(string \<Rightarrow> ('a console_socket_scheme, unit) act) \<Rightarrow> 'w mcp_eval eval_ops \<Rightarrow> string \<Rightarrow> ('a, 'w) mcp_peer \<Rightarrow>
   string \<times> ('a, 'w) mcp_peer" where
  "mcp_respond shell_fn eo line se =
     (case mcp_OnLine shell_fn eo line se of (res, s, e) \<Rightarrow> (drop (length (tx (fst se))) (tx s), (s, e)))"

record 'p wire =
  wire_cuts :: "nat list"
  wire_transit :: "string \<times> string \<times> 'p"

definition next_cut :: "'p wire \<Rightarrow> string \<Rightarrow> nat" where
  "next_cut n xs = (case wire_cuts n of [] \<Rightarrow> length xs | k # _ \<Rightarrow> min (Suc k) (length xs))"

definition wire_net :: "(string \<Rightarrow> 'p \<Rightarrow> string \<times> 'p) \<Rightarrow> int \<Rightarrow> 'p wire net_ops" where
  "wire_net respond sk =
     \<lparr>nt_socket = (\<lambda>n. (sk, n)),
      nt_gethostbyname = (\<lambda>host n. Some host),
      nt_connect = (\<lambda>_ addr port n. (0, n)),
      nt_close = (\<lambda>_ n. n),
      nt_send = (\<lambda>_ xs n. (int (next_cut n xs), n\<lparr>wire_cuts := tl (wire_cuts n),
         wire_transit := feed respond (take (next_cut n xs) xs) (wire_transit n)\<rparr>)),
      nt_recv = (\<lambda>_ m n. case wire_transit n of (half, inc, p) \<Rightarrow>
         if inc = [] then None
         else let k = min m (next_cut n inc)
              in Some (int k, take k inc, n\<lparr>wire_cuts := tl (wire_cuts n), wire_transit := (half, drop k inc, p)\<rparr>))\<rparr>"

lemma next_cut_bounds: "xs \<noteq> [] \<Longrightarrow> 0 < next_cut n xs" "next_cut n xs \<le> length xs"
  by (auto simp: next_cut_def split: list.splits)

interpretation port: line_link "wire_net respond sk" sk wire_transit respond for respond sk
proof (unfold_locales, goal_cases)
  case (1 xs n)
  then show ?case using next_cut_bounds [where xs = xs and n = n] by (simp add: wire_net_def)
next
  case (2 n half inc p m)
  then show ?case using next_cut_bounds [where xs = inc and n = n]
    by (intro exI [of _ "min m (next_cut n inc)"]) (simp add: wire_net_def Let_def)
qed

abbreviation mcp_net ::
  "(string \<Rightarrow> ('a console_socket_scheme, unit) act) \<Rightarrow> 'w mcp_eval eval_ops \<Rightarrow> int \<Rightarrow> ('a, 'w) mcp_peer wire net_ops" where
  "mcp_net shell_fn eo sk \<equiv> wire_net (mcp_respond shell_fn eo) sk"

text \<open>The beginning of a response with an id.\<close>

definition response_to :: "json \<Rightarrow> json" where
  "response_to i = jset ''id'' i (jset ''jsonrpc'' (JString ''2.0'') JNull)"

text \<open>The evaluator after it has answered with \<open>r\<close>.\<close>

definition answered :: "json_lib \<Rightarrow> json \<Rightarrow> 'w mcp_eval \<Rightarrow> 'w mcp_eval" where
  "answered lib r ev = ev\<lparr>mcp_result := js_write lib r @ nl, mcp_done := False\<rparr>"

lemma answers_method:
  assumes "js_parse lib x = Inr (Inr (JObject m))" "rpc_request lib m meth" "x \<noteq> []" "x \<noteq> nl"
    and "mcp_method lib files prefix meth (request_params m) (response_to (jget ''id'' (JObject m))) (begin_eval ev) =
      (Inr (Some r), ev')"
  shows "mcp_answer lib files prefix x ev = js_write lib r @ nl" "mcp_after lib files prefix x ev = answered lib r ev'"
  using assms(3-5) handle_request_method [OF assms(1,2), of files prefix "begin_eval ev"]
  by (simp_all add: mcp_answer_def mcp_after_def mcp_evaluated_def eval_expr_def poll_result_def answered_def response_to_def)

definition open_line :: "'a console_socket_scheme \<Rightarrow> bool" where
  "open_line s \<longleftrightarrow> has_socket s \<and> sock_up s \<and> \<not> do_frame_io s \<and> console_shell s = None"

definition wrote :: "string \<Rightarrow> 'a console_socket_scheme \<Rightarrow> 'a console_socket_scheme" where
  "wrote t s = s\<lparr>tx := tx s @ t\<rparr>"

lemma open_line_wrote [simp]: "open_line (wrote t s) = open_line s"
  by (simp add: open_line_def wrote_def)

text \<open>A request on its line is answered on one line.\<close>

lemma mcp_serves:
  assumes "open_line s" "js_parse lib (jtext (JObject m)) = Inr (Inr (JObject m))" "rpc_request lib m meth"
    and "mcp_method lib files prefix meth (request_params m) (response_to (jget ''id'' (JObject m))) (begin_eval ev) =
      (Inr (Some r), ev')"
    and "js_write lib r \<noteq> []"
  shows "mcp_respond shell_fn (mcp_ops lib files prefix base) (jtext (JObject m)) (s, ev) =
     (js_write lib r @ nl, (wrote (js_write lib r @ nl) s, answered lib r ev'))"
proof -
  note a = answers_method [OF assms(2,3) jtext_object_not_blank assms(4)]
  have "mcp_objects (jtext (JObject m)) = [jtext (JObject m)]"
    using objects_cut [of "[([], m)]" "[]"] by simp
  moreover have "has_socket s" "sock_up s" "\<not> do_frame_io s" "console_shell s = None"
    using assms(1) by (simp_all add: open_line_def)
  ultimately have "mcp_OnLine shell_fn (mcp_ops lib files prefix base) (jtext (JObject m)) (s, ev) =
     (Inr (), wrote (js_write lib r @ nl) s, answered lib r ev')"
    using mcp.eval_all [of s lib files prefix base "[jtext (JObject m)]" ev] a assms(5)
    by (simp add: mcp_OnLine_def sent_text_def nl_def wrote_def del: jtext.simps)
  then show ?thesis by (simp add: mcp_respond_def wrote_def del: jtext.simps)
qed

text \<open>The requests of the client, as the evaluator takes them apart.\<close>

lemma rpc_call_object:
  "\<exists>m. rpc_call meth i params = JObject m \<and> sm_find ''jsonrpc'' m = Some (JString ''2.0'')
     \<and> sm_find ''method'' m = Some (JString meth) \<and> jget ''id'' (JObject m) = JInt i
     \<and> request_params m = (if params = JNull then JObject [] else params)"
  by (auto simp: rpc_call_def Let_def jset_def request_params_def jhas_def jget_def sm_find_def)

lemma rpc_response_reply:
  assumes "rpc_reply i r"
  shows "rpc_response lib r c =
    Some (if jhas ''error'' r then Inl (''RPC error: '' @ js_write lib (jget ''error'' r)) else Inr (jget ''result'' r), c)"
proof -
  obtain m where m: "r = JObject m" "m \<noteq> []"
    using assms by (cases r) (fastforce simp: rpc_reply_def jhas_def sm_find_def)+
  then have "isMember e k r = Inr (jhas k r)" for e k by (simp add: isMember_def jhas_def)
  with m assms show ?thesis by (auto simp: rpc_response_def jempty_def rpc_reply_def)
qed

text \<open>What the library promises on a request: it writes compact JSON, and reads it back.\<close>

definition speaks :: "json_lib \<Rightarrow> json \<Rightarrow> bool" where
  "speaks lib q \<longleftrightarrow> js_write lib q = jtext q \<and> js_parse lib (jtext q) = Inr (Inr q) \<and> clean (jtext q)"

text \<open>What it promises on a reply: the text is one line, and is read back.\<close>

definition carries :: "json_lib \<Rightarrow> json \<Rightarrow> bool" where
  "carries lib r \<longleftrightarrow> lib_reads lib [r] \<and> clean (js_write lib r) \<and> js_write lib r \<noteq> []"

lemma request_exchanged:
  assumes "in_step sk wire_transit c (s, ev)" "open_line s"
    and lib: "speaks lib (rpc_call meth (sint (message_id c)) params)" "carries lib r" "\<And>t. js_asString lib (JString t) = Inr t"
    and served: "mcp_method lib files prefix meth (if params = JNull then JObject [] else params)
      (response_to (JInt (sint (message_id c)))) (begin_eval ev) = (Inr (Some r), ev')"
  shows "\<exists>n. sendRequest lib (mcp_net shell_fn (mcp_ops lib files prefix base) sk) meth params c =
        rpc_response lib r (c\<lparr>message_id := message_id c + 1, cl_net := n\<rparr>)
     \<and> in_step sk wire_transit (c\<lparr>message_id := message_id c + 1, cl_net := n\<rparr>)
         (wrote (js_write lib r @ nl) s, answered lib r ev')"
proof -
  let ?q = "rpc_call meth (sint (message_id c)) params"
  obtain m where m: "?q = JObject m" "sm_find ''jsonrpc'' m = Some (JString ''2.0'')"
      "sm_find ''method'' m = Some (JString meth)" "jget ''id'' (JObject m) = JInt (sint (message_id c))"
      "request_params m = (if params = JNull then JObject [] else params)"
    using rpc_call_object by blast
  have "rpc_request lib m meth" using m(2,3) lib(3) by (simp add: rpc_request_def)
  then have "mcp_respond shell_fn (mcp_ops lib files prefix base) (js_write lib ?q) (s, ev) =
     (js_write lib r @ nl, (wrote (js_write lib r @ nl) s, answered lib r ev'))"
    using mcp_serves [OF assms(2), of lib m meth files prefix ev r ev' shell_fn base] lib served m
    by (simp add: speaks_def carries_def del: jtext.simps)
  from port.exchange [where respond = "mcp_respond shell_fn (mcp_ops lib files prefix base)" and lib = lib and q = ?q and r = r,
      OF assms(1) this _ _ _ refl] lib(1,2) obtain n where
    "sendRequest lib (mcp_net shell_fn (mcp_ops lib files prefix base) sk) meth params c =
       rpc_response lib r (c\<lparr>message_id := message_id c + 1, cl_net := n\<rparr>)"
    "wire_transit n = ([], [], (wrote (js_write lib r @ nl) s, answered lib r ev'))"
    by (auto simp: speaks_def carries_def simp del: jtext.simps)
  with assms(1) show ?thesis by (auto simp: in_step_def)
qed

text \<open>
  A request of the client to the MCP server of this repository, over a network that cuts the texts in any way: the
  client gets the result of exactly this request, or an exception with its error, and afterwards nothing is left on the
  way or in the buffer, so that the next request meets its own reply too.
\<close>

theorem request_answered:
  assumes "in_step sk wire_transit c (s, ev)" "open_line s" "meth \<notin> set notifications"
    and lib: "speaks lib (rpc_call meth (sint (message_id c)) params)" "carries lib r" "\<And>t. js_asString lib (JString t) = Inr t"
    and served: "mcp_method lib files prefix meth (if params = JNull then JObject [] else params)
      (response_to (JInt (sint (message_id c)))) (begin_eval ev) = (Inr (Some r), ev')"
  shows "\<exists>c'. sendRequest lib (mcp_net shell_fn (mcp_ops lib files prefix base) sk) meth params c =
       Some (if jhas ''error'' r then Inl (''RPC error: '' @ js_write lib (jget ''error'' r)) else Inr (jget ''result'' r), c')
     \<and> message_id c' = message_id c + 1
     \<and> in_step sk wire_transit c' (wrote (js_write lib r @ nl) s, answered lib r ev')"
proof -
  have "rpc_reply (JInt (sint (message_id c))) r"
    using method_reply [OF rpc_open_start assms(3), of "JInt (sint (message_id c))" lib files prefix _ "begin_eval ev"] served
    by (simp add: replies_or_throws_def response_to_def) (metis fst_conv sum.simps(6) option.simps(5))
  from rpc_response_reply [OF this] request_exchanged [OF assms(1,2) lib served, of shell_fn base] show ?thesis
    by fastforce
qed

section \<open>A whole session\<close>

declare cl_simps [simp del]

text \<open>
  A part of the program runs: started in step, with the request number \<open>k\<close> and an evaluator with the tools of \<open>ev0\<close>, it
  returns \<open>a\<close>, prints \<open>txt\<close>, and has received exactly the replies \<open>rs\<close>; no error is printed, the next request number
  is \<open>k'\<close>, and client and server are in step again.
\<close>

definition same_tools :: "'w mcp_eval \<Rightarrow> 'w mcp_eval \<Rightarrow> bool" where
  "same_tools ev0 ev \<longleftrightarrow> plugins ev = plugins ev0 \<and> tool_to_plugin ev = tool_to_plugin ev0"

definition runs ::
  "json_lib \<Rightarrow> int \<Rightarrow> 'w mcp_eval \<Rightarrow> (('a, 'w) mcp_peer wire, 'b) cl_act \<Rightarrow> 32 word \<Rightarrow> 'b \<Rightarrow> string \<Rightarrow> json list \<Rightarrow> 32 word \<Rightarrow> bool" where
  "runs lib sk ev0 act k a txt rs k' \<longleftrightarrow>
     (\<forall>c s ev. in_step sk wire_transit c (s, ev) \<longrightarrow> open_line s \<longrightarrow> same_tools ev0 ev \<longrightarrow> message_id c = k \<longrightarrow>
        (\<exists>c' ev'. act c = Some (Inr a, c') \<and> message_id c' = k' \<and> cl_out c' = cl_out c @ txt \<and> cl_err c' = cl_err c
           \<and> in_step sk wire_transit c' (wrote (concat (map (\<lambda>r. js_write lib r @ nl) rs)) s, ev') \<and> same_tools ev0 ev'))"

lemma wrote_wrote [simp]: "wrote t (wrote u s) = wrote (u @ t) s" "wrote [] s = s"
  by (simp_all add: wrote_def)

lemma in_step_out [simp]: "in_step sk transit (c\<lparr>cl_out := x\<rparr>) p = in_step sk transit c p"
  by (simp add: in_step_def)

lemma runs_cout: "runs lib sk ev0 (cout t) k () t [] k"
  unfolding runs_def by (simp add: cl_simps, blast)

lemma runs_ret: "runs lib sk ev0 (cl_ret a) k a [] [] k"
  unfolding runs_def by (simp add: cl_simps, blast)

lemma runs_of: "r = Inr a \<Longrightarrow> runs lib sk ev0 (cl_of r) k a [] [] k"
  unfolding runs_def by (simp add: cl_simps, blast)

lemma runsD:
  assumes "runs lib sk ev0 act k a txt rs k'" "in_step sk wire_transit c (s, ev)" "open_line s" "same_tools ev0 ev"
    "message_id c = k"
  obtains c' ev' where "act c = Some (Inr a, c')" "message_id c' = k'" "cl_out c' = cl_out c @ txt" "cl_err c' = cl_err c"
    "in_step sk wire_transit c' (wrote (concat (map (\<lambda>r. js_write lib r @ nl) rs)) s, ev')" "same_tools ev0 ev'"
  using assms unfolding runs_def by blast

lemma runsI:
  assumes "\<And>c s ev. in_step sk wire_transit c (s, ev) \<Longrightarrow> open_line s \<Longrightarrow> same_tools ev0 ev \<Longrightarrow> message_id c = k \<Longrightarrow>
     \<exists>c' ev'. act c = Some (Inr a, c') \<and> message_id c' = k' \<and> cl_out c' = cl_out c @ txt \<and> cl_err c' = cl_err c
       \<and> in_step sk wire_transit c' (wrote (concat (map (\<lambda>r. js_write lib r @ nl) rs)) s, ev') \<and> same_tools ev0 ev'"
  shows "runs lib sk ev0 act k a txt rs k'"
  using assms unfolding runs_def by blast

lemma runs_bind:
  assumes "runs lib sk ev0 m k a t1 r1 k1" "runs lib sk ev0 (f a) k1 b t2 r2 k2"
  shows "runs lib sk ev0 (cl_bind m f) k b (t1 @ t2) (r1 @ r2) k2"
proof (rule runsI, goal_cases)
  case (1 c s ev)
  from runsD [OF assms(1) this] obtain c1 ev1 where m: "m c = Some (Inr a, c1)" "message_id c1 = k1"
      "cl_out c1 = cl_out c @ t1" "cl_err c1 = cl_err c"
      "in_step sk wire_transit c1 (wrote (concat (map (\<lambda>r. js_write lib r @ nl) r1)) s, ev1)" "same_tools ev0 ev1"
    by blast
  from 1(2) have "open_line (wrote (concat (map (\<lambda>r. js_write lib r @ nl) r1)) s)" by simp
  from runsD [OF assms(2) m(5) this m(6,2)] obtain c2 ev2 where f: "f a c1 = Some (Inr b, c2)" "message_id c2 = k2"
      "cl_out c2 = cl_out c1 @ t2" "cl_err c2 = cl_err c1"
      "in_step sk wire_transit c2 (wrote (concat (map (\<lambda>r. js_write lib r @ nl) r2))
         (wrote (concat (map (\<lambda>r. js_write lib r @ nl) r1)) s), ev2)" "same_tools ev0 ev2"
    by blast
  from m f show ?case
    by (intro exI [of _ c2] exI [of _ ev2]) simp
qed

lemma runs_then:
  "runs lib sk ev0 m k a t1 r1 k1 \<Longrightarrow> runs lib sk ev0 f k1 b t2 r2 k2 \<Longrightarrow> runs lib sk ev0 (cl_then m f) k b (t1 @ t2) (r1 @ r2) k2"
  unfolding cl_then_def by (rule runs_bind)

lemma runs_catch: "runs lib sk ev0 m k a t r k' \<Longrightarrow> runs lib sk ev0 (cl_catch m handler) k a t r k'"
  by (rule runsI) (blast elim: runsD intro: cl_catch_run)

lemma cl_each_map: "cl_each f (map g xs) = cl_each (\<lambda>x. f (g x)) xs"
  by (induction xs) simp_all

lemma runs_each:
  "(\<And>x. x \<in> set xs \<Longrightarrow> runs lib sk ev0 (f x) k () (g x) [] k) \<Longrightarrow>
   runs lib sk ev0 (cl_each f xs) k () (concat (map g xs)) [] k"
proof (induction xs)
  case Nil
  show ?case using runs_ret by simp
next
  case (Cons x xs)
  then show ?case using runs_then [of lib sk ev0 "f x" k "()" "g x" "[]" k "cl_each f xs"] by simp
qed

lemma runs_request:
  assumes "\<And>ev. same_tools ev0 ev \<Longrightarrow> mcp_method lib files prefix meth (if params = JNull then JObject [] else params)
      (response_to (JInt (sint k))) ev = (Inr (Some r), ev)"
    and "speaks lib (rpc_call meth (sint k) params)" "carries lib r" "\<And>t. js_asString lib (JString t) = Inr t"
    and "rpc_reply i r" "\<not> jhas ''error'' r"
  shows "runs lib sk ev0 (sendRequest lib (mcp_net shell_fn (mcp_ops lib files prefix base) sk) meth params)
     k (jget ''result'' r) [] [r] (k + 1)"
proof (rule runsI, goal_cases)
  case c: (1 c s ev)
  have "same_tools ev0 (begin_eval ev)" using c(3) by (simp add: same_tools_def begin_eval_def)
  note served = assms(1) [OF this]
  have "same_tools ev0 (answered lib r (begin_eval ev))"
    using c(3) by (simp add: same_tools_def begin_eval_def answered_def)
  moreover from request_exchanged [OF c(1,2) _ assms(3,4), where meth = meth and params = params and files = files and prefix = prefix
      and ev' = "begin_eval ev" and shell_fn = shell_fn and base = base] served assms(2) c(4) obtain n where
    "sendRequest lib (mcp_net shell_fn (mcp_ops lib files prefix base) sk) meth params c =
        rpc_response lib r (c\<lparr>message_id := message_id c + 1, cl_net := n\<rparr>)"
    "in_step sk wire_transit (c\<lparr>message_id := message_id c + 1, cl_net := n\<rparr>)
         (wrote (js_write lib r @ nl) s, answered lib r (begin_eval ev))"
    by blast
  ultimately show ?case
    using rpc_response_reply [OF assms(5)] assms(6) c(4)
    by (intro exI [of _ "c\<lparr>message_id := message_id c + 1, cl_net := n\<rparr>"] exI [of _ "answered lib r (begin_eval ev)"]) simp
qed

text \<open>The notification is answered too, although it has no id; the client takes the reply in.\<close>

definition init_reply :: json where
  "init_reply = jremove ''id'' (jset ''result'' (JObject []) (response_to JNull))"

lemma runs_notify:
  fixes shell_fn files prefix base sk lib
  defines "nt \<equiv> mcp_net shell_fn (mcp_ops lib files prefix base) sk"
  assumes "runs lib sk ev0 (f init_reply) k a txt rs k'"
    and "speaks lib init_notification" "carries lib init_reply" "\<And>t. js_asString lib (JString t) = Inr t"
  shows "runs lib sk ev0 (cl_then (sendMessage lib nt init_notification) (cl_bind (receiveMessage lib nt) f))
     k a txt (init_reply # rs) k'"
proof (rule runsI, goal_cases)
  case c: (1 c s ev)
  obtain m where m: "init_notification = JObject m" "sm_find ''jsonrpc'' m = Some (JString ''2.0'')"
      "sm_find ''method'' m = Some (JString ''notifications/initialized'')" "jget ''id'' (JObject m) = JNull"
    by (simp add: init_notification_def jset_def jget_def sm_find_def)
  let ?ev = "answered lib init_reply (begin_eval ev)"
  let ?s = "wrote (js_write lib init_reply @ nl) s"
  have "rpc_request lib m ''notifications/initialized''" using m(2,3) assms(5) by (simp add: rpc_request_def)
  then have "mcp_respond shell_fn (mcp_ops lib files prefix base) (js_write lib init_notification) (s, ev) =
     (js_write lib init_reply @ nl, (?s, ?ev))"
    using mcp_serves [OF c(2), of lib m "''notifications/initialized''" files prefix ev init_reply "begin_eval ev" shell_fn base]
      assms(3,4) m
    by (simp add: speaks_def carries_def mcp_method_def init_reply_def del: jtext.simps)
  from port.message_sent [where respond = "mcp_respond shell_fn (mcp_ops lib files prefix base)", OF c(1) _ this] assms(3)
  obtain n where n: "sendMessage lib nt init_notification c = Some (Inr True, c\<lparr>cl_net := n\<rparr>)"
      "wire_transit n = ([], js_write lib init_reply @ nl, (?s, ?ev))"
    by (auto simp: nt_def speaks_def)
  have "connected (c\<lparr>cl_net := n\<rparr>)" "cl_sock (c\<lparr>cl_net := n\<rparr>) = sk" "cl_buffer (c\<lparr>cl_net := n\<rparr>) = []"
    using c(1) by (simp_all add: in_step_def)
  from port.message_received [where respond = "mcp_respond shell_fn (mcp_ops lib files prefix base)", OF this] n(2) assms(4)
  obtain n2 where n2: "receiveMessage lib nt (c\<lparr>cl_net := n\<rparr>) = Some (Inr init_reply, c\<lparr>cl_net := n2\<rparr>)"
      "wire_transit n2 = ([], [], (?s, ?ev))"
    by (auto simp: nt_def carries_def)
  have "in_step sk wire_transit (c\<lparr>cl_net := n2\<rparr>) (?s, ?ev)" "open_line ?s" "same_tools ev0 ?ev" "message_id (c\<lparr>cl_net := n2\<rparr>) = k"
    using c n2(2) by (simp_all add: in_step_def same_tools_def answered_def begin_eval_def)
  from runsD [OF assms(2) this] n(1) n2(1) show ?case by fastforce
qed

text \<open>The whole conversation: what the client says, and what the server answers when its tools are \<open>tools\<close>.\<close>

definition reply :: "int \<Rightarrow> json \<Rightarrow> json" where
  "reply i v = jset ''result'' v (response_to (JInt i))"

definition hello :: string where
  "hello = ''Hello from network client!''"

definition intro_uri :: string where
  "intro_uri = ''atomspace://docs/introduction''"

definition checker_requests :: "json list" where
  "checker_requests =
     [rpc_call ''initialize'' 0 (init_params ''NetworkClientJsonOnly'' ''1.0.0''), init_notification,
      rpc_call ''ping'' 1 JNull, rpc_call ''tools/list'' 2 JNull,
      rpc_call ''tools/call'' 3 (JObject [(''arguments'', echo_args hello), (''name'', JString ''echo'')]),
      rpc_call ''resources/list'' 4 JNull, rpc_call ''resources/read'' 5 (JObject [(''uri'', JString intro_uri)])]"

definition initialized :: json where
  "initialized = jget ''result'' (mcp_initialize (response_to (JInt 0)))"

definition tools_result :: "json list \<Rightarrow> json" where
  "tools_result tools = JObject [(''tools'', JArray tools)]"

definition resources_result :: json where
  "resources_result = JObject [(''resources'', JArray (map resource_entry resource_docs))]"

definition read_result :: "string \<Rightarrow> json" where
  "read_result doc = JObject [(''contents'', JArray [JObject [(''mimeType'', JString ''text/markdown''),
     (''text'', JString doc), (''uri'', JString intro_uri)]])]"

definition checker_replies :: "json list \<Rightarrow> string \<Rightarrow> json list" where
  "checker_replies tools doc =
     [reply 0 initialized, init_reply, reply 1 (JObject []), reply 2 (tools_result tools), reply 3 (echo_result hello),
      reply 4 resources_result, reply 5 (read_result doc)]"

lemma reply_replies: "rpc_reply (JInt i) (reply i v)" "\<not> jhas ''error'' (reply i v)" "jget ''result'' (reply i v) = v"
proof -
  have "rpc_result (JInt i) (reply i v)"
    unfolding reply_def response_to_def by (intro rpc_result_set rpc_open_start)
  then show "rpc_reply (JInt i) (reply i v)" "\<not> jhas ''error'' (reply i v)"
    by (simp_all add: rpc_result_reply) (simp add: rpc_result_def)
  show "jget ''result'' (reply i v) = v" by (simp add: reply_def response_to_def json_simps)
qed

lemma runs_reply:
  assumes "\<And>ev. same_tools ev0 ev \<Longrightarrow> mcp_method lib files prefix meth (if params = JNull then JObject [] else params)
      (response_to (JInt i)) ev = (Inr (Some (reply i v)), ev)"
    and "speaks lib (rpc_call meth i params)" "carries lib (reply i v)" "\<And>t. js_asString lib (JString t) = Inr t" "sint k = i" "k' = k + 1"
  shows "runs lib sk ev0 (sendRequest lib (mcp_net shell_fn (mcp_ops lib files prefix base) sk) meth params)
     k v [] [reply i v] k'"
  using runs_request [OF _ _ assms(3,4) reply_replies(1,2), of ev0 files prefix meth params k] assms(1,2,5,6)
  by (simp add: reply_replies(3))

text \<open>What the server makes of each request.\<close>

lemma jset2_response: "jset2 ''result'' k v (response_to (JInt i)) = reply i (JObject [(k, v)])"
  by (simp add: reply_def response_to_def jset2_def jset_def jget_def sm_find_def)

lemma reply_again: "jset ''result'' w (reply i v) = reply i w"
  by (simp add: reply_def response_to_def jset_def)

lemma reply_deeper: "jset3 ''result'' a b w (reply i v) = reply i (jset2 a b w v)"
  by (simp add: jset3_def reply_replies(3) reply_again)

lemma serves_initialize: "mcp_initialize (response_to (JInt 0)) = reply 0 initialized"
proof -
  obtain v where "mcp_initialize (response_to (JInt 0)) = reply 0 v"
    unfolding mcp_initialize_def Let_def jset2_response reply_deeper by blast
  then show ?thesis by (simp add: initialized_def reply_replies(3))
qed

lemma serves_tools:
  assumes "list_all (well_described lib) (plugins ev)"
  shows "tools_list lib (response_to (JInt i)) ev = Inr (reply i (tools_result (concat (map (tool_array lib) (plugins ev)))))"
  using tools_loop_all [OF assms, of "[]"] by (simp add: tools_list_def jset2_response tools_result_def)

lemma serves_resources: "resources_list (response_to (JInt i)) = reply i resources_result"
proof -
  have "foldl (\<lambda>rs d. jappend (resource_entry d) rs) (JArray l) ds = JArray (l @ map resource_entry ds)" for l ds
    by (induction ds arbitrary: l) (simp_all add: jappend_def)
  then show ?thesis by (simp add: resources_list_def jset2_response resources_result_def)
qed

lemma serves_read:
  assumes "files (prefix @ ''/share/cogserver/mcp/AtomSpace-Overview.md'') = Some doc" "js_asString lib (JString intro_uri) = Inr intro_uri"
  shows "resources_read lib files prefix (JObject [(''uri'', JString intro_uri)]) (response_to (JInt i)) = Inr (reply i (read_result doc))"
proof -
  have "map_of resource_files intro_uri = Some ''AtomSpace-Overview.md''"
    by (simp add: resource_files_def intro_uri_def)
  moreover have "opt_string lib ''uri'' (JObject [(''uri'', JString intro_uri)]) = Inr intro_uri"
    using assms(2) by (simp add: opt_string_object jhas_def jget_def sm_find_def)
  ultimately show ?thesis
    using assms(1)
    by (simp add: resources_read_def publish_resource_def read_result_def jappend_def jset_def)
       (simp add: reply_def response_to_def jset2_def jset_def jget_def sm_find_def)
qed

text \<open>What the client prints.\<close>

definition tool_line :: "json_lib \<Rightarrow> json \<Rightarrow> string" where
  "tool_line lib t = ''  - '' @ projr (tool_name lib t) @ '': ''
     @ projr (jbind (jindex lib ''description'' t) (js_asString lib)) @ nl"

definition resource_lines :: "string \<times> string \<times> string \<Rightarrow> string" where
  "resource_lines d = (case d of (uri, name, descr) \<Rightarrow>
     ''  - URI: '' @ uri @ nl @ ''    Name: '' @ name @ nl @ ''    Description: '' @ descr @ nl
     @ ''    MIME Type: text/markdown'' @ nl)"

definition tools_report :: "json_lib \<Rightarrow> (json \<Rightarrow> string) \<Rightarrow> json list \<Rightarrow> string" where
  "tools_report lib pretty tools =
     ''DEBUG: Raw tools response: '' @ pretty (tools_result tools) @ nl
     @ good @ ''Found '' @ show_nat (length tools) @ '' tools:'' @ nl @ concat (map (tool_line lib) tools)
     @ nl @ ''Calling tool '' @ [CHR 0x27] @ ''echo'' @ [CHR 0x27] @ ''...'' @ nl
     @ good @ ''Tool result: '' @ pretty (echo_result hello) @ nl"

definition resources_report :: "(json \<Rightarrow> string) \<Rightarrow> string \<Rightarrow> string" where
  "resources_report pretty doc =
     ''DEBUG: Raw resources response: '' @ pretty resources_result @ nl
     @ good @ ''Found 12 resources:'' @ nl @ concat (map resource_lines resource_docs)
     @ nl @ ''Reading first resource: '' @ intro_uri @ nl
     @ (if length doc > 200
        then good @ ''Resource content (first 200 chars):'' @ nl @ take 200 doc @ ''...'' @ nl
        else good @ ''Resource content:'' @ nl @ doc @ nl)"

definition checker_report :: "json_lib \<Rightarrow> (json \<Rightarrow> string) \<Rightarrow> json list \<Rightarrow> string \<Rightarrow> string" where
  "checker_report lib pretty tools doc =
     good @ ''Connected to server'' @ nl @ nl @ ''Initializing client...'' @ nl
     @ ''Initialize response: '' @ pretty initialized @ nl
     @ ''DEBUG: initialize notification response: '' @ pretty init_reply @ nl
     @ good @ ''Client initialized successfully'' @ nl @ nl @ ''Testing ping...'' @ nl @ good @ ''Ping successful'' @ nl
     @ nl @ ''Listing available tools...'' @ nl @ tools_report lib pretty tools
     @ nl @ ''Listing available resources...'' @ nl @ resources_report pretty doc
     @ nl @ good @ ''All operations completed successfully!'' @ nl"

lemma runs_eq: "runs lib sk ev0 m k a t r k' \<Longrightarrow> t = t' \<Longrightarrow> r = r' \<Longrightarrow> runs lib sk ev0 m k a t' r' k'"
  by simp

lemmas runs_intros = runs_cout runs_ret runs_of runs_then runs_bind runs_catch

lemma runs_print_member:
  assumes "jbind (jindex lib n j) (js_asString lib) = Inr x"
  shows "runs lib sk ev0 (print_member lib label n j) k () (label @ x) [] k"
  unfolding print_member_def using assms by (intro runs_eq [OF runs_then [OF runs_cout runs_bind [OF runs_of runs_cout]]]) simp_all

lemma runs_print_tool:
  assumes "\<exists>x. tool_name lib t = Inr x" "\<exists>d. jbind (jindex lib ''description'' t) (js_asString lib) = Inr d"
  shows "runs lib sk ev0 (print_tool lib t) k () (tool_line lib t) [] k"
proof -
  obtain x d where "jbind (jindex lib ''name'' t) (js_asString lib) = Inr x" "jbind (jindex lib ''description'' t) (js_asString lib) = Inr d"
    using assms by (auto simp: tool_name_def)
  then show ?thesis unfolding print_tool_def
    by (intro runs_eq [OF runs_then [OF runs_print_member runs_then [OF runs_print_member runs_cout]]])
      (simp_all add: tool_line_def tool_name_def)
qed

lemma runs_member:
  assumes "jhas n j" "runs lib sk ev0 (f True) k a t r k'"
  shows "runs lib sk ev0 (cl_bind (cl_of (isMember e n j)) f) k a t r k'"
proof -
  have "isMember e n j = Inr True" using assms(1) by (cases j) (simp_all add: isMember_def jhas_def)
  from runs_bind [where f = f, OF runs_of [OF this] assms(2)] show ?thesis by simp
qed

lemma runs_print_optional:
  assumes "jhas n j" "jbind (jindex lib n j) (js_asString lib) = Inr x"
  shows "runs lib sk ev0 (print_optional lib label n j) k () (label @ x @ nl) [] k"
proof -
  have "runs lib sk ev0 (cl_then (print_member lib label n j) (cout nl)) k () (label @ x @ nl) [] k"
    using assms(2) by (intro runs_eq [OF runs_then [OF runs_print_member runs_cout]]) simp_all
  then show ?thesis unfolding print_optional_def using assms(1) by (intro runs_member) simp_all
qed

lemma runs_print_resource:
  assumes "\<And>t. js_asString lib (JString t) = Inr t"
  shows "runs lib sk ev0 (print_resource lib (resource_entry d)) k () (resource_lines d) [] k"
proof -
  obtain uri name descr where d: "d = (uri, name, descr)" by (cases d)
  have e: "resource_entry d = JObject [(''description'', JString descr), (''mimeType'', JString ''text/markdown''),
      (''name'', JString name), (''uri'', JString uri)]"
    by (simp add: d resource_entry_def jset_def)
  have "jbind (jindex lib ''uri'' (resource_entry d)) (js_asString lib) = Inr uri"
      "jbind (jindex lib ''name'' (resource_entry d)) (js_asString lib) = Inr name"
      "jbind (jindex lib ''description'' (resource_entry d)) (js_asString lib) = Inr descr"
      "jbind (jindex lib ''mimeType'' (resource_entry d)) (js_asString lib) = Inr ''text/markdown''"
      "jhas ''name'' (resource_entry d)" "jhas ''description'' (resource_entry d)" "jhas ''mimeType'' (resource_entry d)"
    by (simp_all add: e assms jindex_def jget_def jhas_def sm_find_def)
  then show ?thesis unfolding print_resource_def
    by (intro runs_eq [OF runs_then [OF runs_then [OF runs_print_member runs_cout] runs_then [OF runs_print_optional
        runs_then [OF runs_print_optional runs_print_optional]]]])
      (simp_all add: d resource_lines_def)
qed

text \<open>
  The other side of the session: an evaluator with its two plugins, as \<^verbatim>\<open>get_evaluator\<close> makes it, the document that the
  client will ask for, and a library that keeps its promises on what is said.
\<close>

definition session_host ::
  "json_lib \<Rightarrow> (string \<Rightarrow> string option) \<Rightarrow> string \<Rightarrow> 'w mcp_plugin \<Rightarrow> 'w mcp_plugin \<Rightarrow> 'w mcp_eval \<Rightarrow> json list \<Rightarrow> string \<Rightarrow> bool" where
  "session_host lib files prefix echo p ev0 tools doc \<longleftrightarrow>
     (\<exists>caught asp. get_evaluator lib caught asp echo p None = (Inr (), ev0))
   \<and> well_described lib p \<and> ''echo'' \<notin> set (tool_names lib p)
   \<and> list_all (\<lambda>t. \<exists>d. jbind (jindex lib ''description'' t) (js_asString lib) = Inr d) (tool_array lib p)
   \<and> tools = tool_array lib echo @ tool_array lib p
   \<and> files (prefix @ ''/share/cogserver/mcp/AtomSpace-Overview.md'') = Some doc
   \<and> list_all (speaks lib) checker_requests \<and> list_all (carries lib) (checker_replies tools doc)
   \<and> lib_reads lib [echo_tools, echo_args hello, echo_result hello] \<and> (\<forall>t. js_asString lib (JString t) = Inr t)"

lemma session_said:
  assumes "session_host lib files prefix echo p ev0 tools doc"
  shows "speaks lib (rpc_call ''initialize'' 0 (init_params ''NetworkClientJsonOnly'' ''1.0.0''))" "speaks lib init_notification"
    "speaks lib (rpc_call ''ping'' 1 JNull)" "speaks lib (rpc_call ''tools/list'' 2 JNull)"
    "speaks lib (rpc_call ''tools/call'' 3 (JObject [(''arguments'', echo_args hello), (''name'', JString ''echo'')]))"
    "speaks lib (rpc_call ''resources/list'' 4 JNull)"
    "speaks lib (rpc_call ''resources/read'' 5 (JObject [(''uri'', JString intro_uri)]))"
  using assms by (simp_all add: session_host_def checker_requests_def)

lemma session_heard:
  assumes "session_host lib files prefix echo p ev0 tools doc"
  shows "carries lib (reply 0 initialized)" "carries lib init_reply" "carries lib (reply 1 (JObject []))"
    "carries lib (reply 2 (tools_result tools))" "carries lib (reply 3 (echo_result hello))"
    "carries lib (reply 4 resources_result)" "carries lib (reply 5 (read_result doc))"
  using assms unfolding session_host_def checker_replies_def list.pred_inject by blast+

lemma session_strings: "session_host lib files prefix echo p ev0 tools doc \<Longrightarrow> js_asString lib (JString t) = Inr t"
  by (simp add: session_host_def)

lemma session_tools:
  assumes "session_host lib files prefix (McpPlugEcho lib now i) p ev0 tools doc"
  shows "tools_inv lib ev0" "sm_find ''echo'' (tool_to_plugin ev0) = Some (McpPlugEcho lib now i)"
    "concat (map (tool_array lib) (plugins ev0)) = tools"
proof -
  let ?e = "McpPlugEcho lib now i"
  have e: "well_described lib ?e" "tool_names lib ?e = [''echo'', ''time'']"
    using assms by (simp_all add: echo_names session_host_def lib_reads_def)
  have p: "well_described lib p" "''echo'' \<notin> set (tool_names lib p)" "tools = tool_array lib ?e @ tool_array lib p"
    using assms by (simp_all add: session_host_def)
  obtain caught asp where ev0: "ev0 = with_plugin lib p (with_plugin lib ?e (new_mcp_eval caught asp))"
    using assms get_evaluator_fresh [OF e(1) p(1)] by (auto simp: session_host_def)
  then show inv: "tools_inv lib ev0" using e(1) p(1) by (simp add: with_plugin_inv tools_inv_new)
  have ps: "plugins ev0 = [?e, p]" by (simp add: ev0 with_plugin_def new_mcp_eval_def)
  with inv p(2) e(2) show "sm_find ''echo'' (tool_to_plugin ev0) = Some ?e" by (simp add: tools_inv_def)
  show "concat (map (tool_array lib) (plugins ev0)) = tools" using ps p(3) by simp
qed

lemma initialize_runs:
  assumes "session_host lib files prefix echo p ev0 tools doc"
  shows "runs lib sk ev0
     (client_initialize lib pretty (mcp_net shell_fn (mcp_ops lib files prefix base) sk) ''NetworkClientJsonOnly'' ''1.0.0'') 0 True
     (''Initialize response: '' @ pretty initialized @ nl
      @ ''DEBUG: initialize notification response: '' @ pretty init_reply @ nl) [reply 0 initialized, init_reply] 1"
proof -
  note x = session_said [OF assms] session_heard [OF assms] session_strings [OF assms]
  have "runs lib sk ev0 (sendRequest lib (mcp_net shell_fn (mcp_ops lib files prefix base) sk) ''initialize''
      (init_params ''NetworkClientJsonOnly'' ''1.0.0'')) 0 initialized [] [reply 0 initialized] 1"
    by (rule runs_reply) (simp_all add: x mcp_method_def serves_initialize)
  then show ?thesis unfolding client_initialize_def
    by (intro runs_eq [OF runs_catch [OF runs_bind]], assumption)
      (rule runs_then, rule runs_cout, rule runs_notify, rule runs_then, rule runs_cout, rule runs_ret, simp_all add: x)
qed

lemma ping_runs:
  assumes "session_host lib files prefix echo p ev0 tools doc"
  shows "runs lib sk ev0 (client_ping lib (mcp_net shell_fn (mcp_ops lib files prefix base) sk)) 1 True [] [reply 1 (JObject [])] 2"
proof -
  note x = session_said [OF assms] session_heard [OF assms] session_strings [OF assms]
  have "runs lib sk ev0 (sendRequest lib (mcp_net shell_fn (mcp_ops lib files prefix base) sk) ''ping'' JNull)
      1 (JObject []) [] [reply 1 (JObject [])] 2"
    by (rule runs_reply) (simp_all add: x mcp_method_def flip: reply_def)
  from runs_catch [OF runs_then [OF this runs_ret]] show ?thesis unfolding client_ping_def by simp
qed

lemma echo_tool_array:
  assumes "session_host lib files prefix (McpPlugEcho lib now i) p ev0 tools doc"
  obtains a b where "tools = JObject a # JObject b # tool_array lib p" "tool_name lib (JObject a) = Inr ''echo''"
    "tool_name lib (JObject b) = Inr ''time''" "jbind (jindex lib ''description'' (JObject a)) (js_asString lib) = Inr ''Echo the input text''"
    "jbind (jindex lib ''description'' (JObject b)) (js_asString lib) = Inr ''Get current time''"
proof -
  obtain a b where l: "echo_tools = JArray [JObject a, JObject b]"
      "jget ''name'' (JObject a) = JString ''echo''" "jget ''name'' (JObject b) = JString ''time''"
      "jget ''description'' (JObject a) = JString ''Echo the input text''" "jget ''description'' (JObject b) = JString ''Get current time''"
    by (simp add: echo_tools_def Let_def jappend_def jset2_def jset3_def jset_def jget_def sm_find_def)
  have "js_parse lib (js_write lib echo_tools) = Inr (Inr echo_tools)" using assms by (simp add: session_host_def lib_reads_def)
  then have "tool_array lib (McpPlugEcho lib now i) = [JObject a, JObject b]"
    unfolding tool_array_def McpPlugEcho_def echo_tool_descriptions_def l(1) by simp
  with assms have "tools = JObject a # JObject b # tool_array lib p" by (simp add: session_host_def)
  then show ?thesis
    by (rule that) (simp_all only: tool_name_def jindex_def json.case jbind_simps l(2-5) session_strings [OF assms])
qed

lemma tools_printed:
  assumes "session_host lib files prefix (McpPlugEcho lib now i) p ev0 tools doc"
  shows "runs lib sk ev0 (cl_each (print_tool lib) tools) k () (concat (map (tool_line lib) tools)) [] k"
proof -
  obtain a b where "tools = JObject a # JObject b # tool_array lib p" "tool_name lib (JObject a) = Inr ''echo''"
    "tool_name lib (JObject b) = Inr ''time''" "jbind (jindex lib ''description'' (JObject a)) (js_asString lib) = Inr ''Echo the input text''"
    "jbind (jindex lib ''description'' (JObject b)) (js_asString lib) = Inr ''Get current time''"
    using echo_tool_array [OF assms] .
  moreover have "list_all (\<lambda>t. \<exists>n. tool_name lib t = Inr n) (tool_array lib p)"
      "list_all (\<lambda>t. \<exists>d. jbind (jindex lib ''description'' t) (js_asString lib) = Inr d) (tool_array lib p)"
    using assms by (simp_all add: session_host_def well_described_def)
  ultimately show ?thesis by (intro runs_each runs_print_tool) (auto simp: list_all_iff)
qed

lemma echo_called:
  assumes "session_host lib files prefix (McpPlugEcho lib now i) p ev0 tools doc"
  shows "runs lib sk ev0 (callTool lib (mcp_net shell_fn (mcp_ops lib files prefix base) sk) ''echo'' (tool_args ''echo''))
     3 (echo_result hello) [] [reply 3 (echo_result hello)] 4"
proof -
  note x = session_said [OF assms] session_heard [OF assms] session_strings [OF assms]
  let ?params = "JObject [(''arguments'', echo_args hello), (''name'', JString ''echo'')]"
  have "lib_reads lib [echo_args hello, echo_result hello]" using assms by (simp add: session_host_def lib_reads_def)
  then have "tools_call lib ?params r ev = (Inr (jset ''result'' (echo_result hello) r), ev)" if "same_tools ev0 ev" for r ev
    using that session_tools [OF assms] x(15)
    by (intro echo_call) (simp_all add: same_tools_def tools_inv_def sm_find_def)
  then have "runs lib sk ev0 (sendRequest lib (mcp_net shell_fn (mcp_ops lib files prefix base) sk) ''tools/call'' ?params)
     3 (echo_result hello) [] [reply 3 (echo_result hello)] 4"
    by (intro runs_reply) (simp_all add: x mcp_method_def flip: reply_def)
  moreover have "call_params ''echo'' (tool_args ''echo'') = ?params"
    by (simp add: call_params_def tool_args_def Let_def jset_def echo_args_def hello_def)
  ultimately show ?thesis by (simp add: callTool_def)
qed

lemma tools_runs:
  assumes "session_host lib files prefix (McpPlugEcho lib now i) p ev0 tools doc"
  shows "runs lib sk ev0 (check_tools lib pretty (mcp_net shell_fn (mcp_ops lib files prefix base) sk)) 2 ()
     (tools_report lib pretty tools) [reply 2 (tools_result tools), reply 3 (echo_result hello)] 4"
proof -
  let ?nt = "mcp_net shell_fn (mcp_ops lib files prefix base) sk"
  note x = session_said [OF assms] session_heard [OF assms] session_strings [OF assms]
  have listed: "runs lib sk ev0 (listTools lib ?nt) 2 (tools_result tools) [] [reply 2 (tools_result tools)] 3"
    unfolding listTools_def
    by (rule runs_reply) (use session_tools [OF assms] in \<open>simp_all add: x mcp_method_def serves_tools tools_inv_def same_tools_def\<close>)
  obtain a rest where a: "tools = a # rest" "tool_name lib a = Inr ''echo''" using echo_tool_array [OF assms] by metis
  have called: "runs lib sk ev0 (call_first_tool lib pretty ?nt a) 3 ()
      (nl @ ''Calling tool '' @ [CHR 0x27] @ ''echo'' @ [CHR 0x27] @ ''...'' @ nl
       @ good @ ''Tool result: '' @ pretty (echo_result hello) @ nl) [reply 3 (echo_result hello)] 4"
    unfolding call_first_tool_def tool_name_def [symmetric]
    by (rule runs_eq, rule runs_bind, rule runs_of, rule a(2), rule runs_then, rule runs_cout, rule runs_catch, rule runs_bind,
        rule echo_called [OF assms], rule runs_cout) simp_all
  have j: "jhas ''tools'' (tools_result tools)" "jget ''tools'' (tools_result tools) = JArray tools"
    by (simp_all add: tools_result_def jhas_def jget_def sm_find_def)
  have first: "(case tools of [] \<Rightarrow> cl_ret () | first_tool # _ \<Rightarrow> call_first_tool lib pretty ?nt first_tool) =
      call_first_tool lib pretty ?nt a"
    using a(1) by simp
  have inner: "runs lib sk ev0 (cl_then (cout (good @ ''Found '' @ show_nat (length tools) @ '' tools:'' @ nl))
        (cl_then (cl_each (print_tool lib) tools) (call_first_tool lib pretty ?nt a))) 3 ()
      (good @ ''Found '' @ show_nat (length tools) @ '' tools:'' @ nl @ concat (map (tool_line lib) tools)
       @ nl @ ''Calling tool '' @ [CHR 0x27] @ ''echo'' @ [CHR 0x27] @ ''...'' @ nl
       @ good @ ''Tool result: '' @ pretty (echo_result hello) @ nl) [reply 3 (echo_result hello)] 4"
    by (intro runs_eq [OF runs_then [OF runs_cout runs_then [OF tools_printed [OF assms] called]]]) simp_all
  show ?thesis unfolding check_tools_def
    by (rule runs_eq, rule runs_catch, rule runs_bind, rule listed, rule runs_then, rule runs_cout, rule runs_member, rule j(1),
        simp only: if_True j(2) json.case first, rule inner) (simp_all add: tools_report_def)
qed

lemma document_printed:
  assumes "\<And>t. js_asString lib (JString t) = Inr t"
  shows "runs lib sk ev0 (print_contents lib pretty (read_result doc)) k ()
     (if length doc > 200
      then good @ ''Resource content (first 200 chars):'' @ nl @ take 200 doc @ ''...'' @ nl
      else good @ ''Resource content:'' @ nl @ doc @ nl) [] k"
proof -
  let ?c = "JObject [(''mimeType'', JString ''text/markdown''), (''text'', JString doc), (''uri'', JString intro_uri)]"
  have j: "jhas ''contents'' (read_result doc)" "jget ''contents'' (read_result doc) = JArray [?c]"
      "jhas ''text'' ?c" "jget ''text'' ?c = JString doc"
    by (simp_all add: read_result_def jhas_def jget_def sm_find_def)
  have shown: "runs lib sk ev0 (print_text doc) k () (if length doc > 200
      then good @ ''Resource content (first 200 chars):'' @ nl @ take 200 doc @ ''...'' @ nl
      else good @ ''Resource content:'' @ nl @ doc @ nl) [] k"
    by (simp add: print_text_def runs_cout)
  show ?thesis unfolding print_contents_def
    by (rule runs_eq, rule runs_member, rule j(1), simp only: if_True j(2) json.case list.case, rule runs_member, rule j(3),
        simp only: if_True j(4), rule runs_bind, rule runs_of, rule assms, rule shown) simp_all
qed

lemma resources_runs:
  assumes "session_host lib files prefix echo p ev0 tools doc"
  shows "runs lib sk ev0 (check_resources lib pretty (mcp_net shell_fn (mcp_ops lib files prefix base) sk)) 4 ()
     (resources_report pretty doc) [reply 4 resources_result, reply 5 (read_result doc)] 6"
proof -
  let ?nt = "mcp_net shell_fn (mcp_ops lib files prefix base) sk" and ?rs = "map resource_entry resource_docs"
  note x = session_said [OF assms] session_heard [OF assms] session_strings [OF assms]
  have document: "files (prefix @ ''/share/cogserver/mcp/AtomSpace-Overview.md'') = Some doc"
    using assms by (simp add: session_host_def)
  have listed: "runs lib sk ev0 (listResources lib ?nt) 4 resources_result [] [reply 4 resources_result] 5"
    unfolding listResources_def by (rule runs_reply) (simp_all add: x mcp_method_def serves_resources)
  have read: "runs lib sk ev0 (readResource lib ?nt intro_uri) 5 (read_result doc) [] [reply 5 (read_result doc)] 6"
    unfolding readResource_def
    by (rule runs_reply) (simp_all add: x mcp_method_def jset_def serves_read [where lib = lib and files = files and prefix = prefix, OF document x(15)])
  obtain a rest where a: "?rs = a # rest" "jhas ''uri'' a" "jget ''uri'' a = JString intro_uri"
    by (simp add: resource_docs_def resource_entry_def intro_uri_def jset_def jhas_def jget_def sm_find_def)
  have first: "(case ?rs of [] \<Rightarrow> cl_ret () | r # _ \<Rightarrow> read_first_resource lib pretty ?nt r) = read_first_resource lib pretty ?nt a"
    by (simp only: a(1) list.case)
  have j: "jhas ''resources'' resources_result" "jget ''resources'' resources_result = JArray ?rs"
    by (simp_all add: resources_result_def jhas_def jget_def sm_find_def)
  have inner: "runs lib sk ev0 (read_first_resource lib pretty ?nt a) 5 ()
      (nl @ ''Reading first resource: '' @ intro_uri @ nl
       @ (if length doc > 200
          then good @ ''Resource content (first 200 chars):'' @ nl @ take 200 doc @ ''...'' @ nl
          else good @ ''Resource content:'' @ nl @ doc @ nl)) [reply 5 (read_result doc)] 6"
    unfolding read_first_resource_def
    by (rule runs_eq, rule runs_member, rule a(2), simp only: not_True_eq_False if_False a(3), rule runs_bind, rule runs_of, rule x(15),
        rule runs_then, rule runs_cout, rule runs_catch, rule runs_bind, rule read, rule document_printed, rule x(15)) simp_all
  have printed: "runs lib sk ev0 (cl_each (print_resource lib) ?rs) 5 () (concat (map resource_lines resource_docs)) [] 5"
    unfolding cl_each_map by (rule runs_each) (rule runs_print_resource [OF x(15)])
  have twelve: "show_nat (length resource_docs) = ''12''" by code_simp
  show ?thesis unfolding check_resources_def
    by (rule runs_eq, rule runs_catch, rule runs_bind, rule listed, rule runs_then, rule runs_cout, rule runs_member, rule j(1),
        simp only: if_True j(2) json.case first, rule runs_then, rule runs_cout, rule runs_then, rule printed, rule inner)
      (simp_all add: resources_report_def twelve)
qed

lemma dialogue_runs:
  assumes "session_host lib files prefix (McpPlugEcho lib now i) p ev0 tools doc"
  shows "runs lib sk ev0 (checker_dialogue lib pretty (mcp_net shell_fn (mcp_ops lib files prefix base) sk)) 0 0
     (checker_report lib pretty tools doc) (checker_replies tools doc) 6"
  unfolding checker_dialogue_def
  by (rule runs_eq, rule runs_then, rule runs_cout, rule runs_then, rule runs_cout, rule runs_bind, rule initialize_runs [OF assms],
      simp only: not_True_eq_False if_False, rule runs_then, rule runs_cout, rule runs_then, rule runs_cout, rule runs_bind,
      rule ping_runs [OF assms], simp only: if_True, rule runs_then, rule runs_cout, rule runs_then, rule runs_cout, rule runs_then,
      rule tools_runs [OF assms], rule runs_then, rule runs_cout, rule runs_then, rule resources_runs [OF assms], rule runs_then,
      rule runs_cout, rule runs_ret)
    (simp_all add: checker_report_def checker_replies_def)

lemma wire_connects:
  assumes "0 \<le> sk" "wire_transit (cl_net c) = ([], [], (s, ev))" "cl_buffer c = []"
  obtains c1 where "connect (mcp_net shell_fn eo sk) host port c = Some (Inr True, c1)"
    "in_step sk wire_transit c1 (s, ev)" "message_id c1 = message_id c" "cl_out c1 = cl_out c" "cl_err c1 = cl_err c"
proof
  let ?c = "c\<lparr>cl_sock := sk, cl_net := cl_net c, connected := True\<rparr>"
  show "connect (mcp_net shell_fn eo sk) host port c = Some (Inr True, ?c)"
    using assms(1) by (simp add: connect_def wire_net_def)
  show "in_step sk wire_transit ?c (s, ev)" using assms(2,3) by (simp add: in_step_def)
qed simp_all

text \<open>
  C15. The checker against the MCP server of this repository, with its two plugins, over any network that cuts texts up:
  it returns, with exit code 0 and without an error, after exactly the seven exchanges; it has printed every tool and every
  resource that the server offers, the answer of the echo tool and the beginning of the first document; and the server has
  written its seven replies and nothing else. In particular the reply to the notification, which JSON-RPC does not foresee,
  is there to be read.
\<close>

theorem checker_succeeds:
  assumes "session_host lib files prefix (McpPlugEcho lib now i) p ev0 tools doc"
    and "checker_args prog args ''localhost'' 18888 = Inr (host, port)"
    and "0 \<le> sk" "open_line s" "wire_transit n = ([], [], (s, ev0))"
  shows "\<exists>c ev. checker_main lib pretty (mcp_net shell_fn (mcp_ops lib files prefix base) sk) prog args n = Some (Exits 0, c)
     \<and> cl_err c = []
     \<and> cl_out c = ''MCP Network Client Example'' @ nl @ ''Connecting to: '' @ host @ '':'' @ show_int port @ nl
         @ checker_report lib pretty tools doc
     \<and> wire_transit (cl_net c) =
         ([], [], (wrote (concat (map (\<lambda>r. js_write lib r @ nl) (checker_replies tools doc))) s, ev))"
proof -
  let ?nt = "mcp_net shell_fn (mcp_ops lib files prefix base) sk"
  let ?c0 = "(SimpleJsonRpcClient n)\<lparr>cl_out := ''MCP Network Client Example'' @ nl @ ''Connecting to: '' @ host @ '':'' @ show_int port @ nl\<rparr>"
  obtain c1 where c1: "connect ?nt host port ?c0 = Some (Inr True, c1)" "in_step sk wire_transit c1 (s, ev0)"
      "message_id c1 = 0" "cl_out c1 = cl_out ?c0" "cl_err c1 = []"
    using wire_connects [of sk ?c0 s ev0 shell_fn "mcp_ops lib files prefix base" host port] assms(3,5)
    by (auto simp: SimpleJsonRpcClient_def)
  have "same_tools ev0 ev0" by (simp add: same_tools_def)
  from runsD [OF dialogue_runs [OF assms(1), of sk pretty shell_fn base] c1(2) assms(4) this c1(3)]
  obtain c2 ev where c2: "checker_dialogue lib pretty ?nt c1 = Some (Inr 0, c2)"
      "cl_out c2 = cl_out c1 @ checker_report lib pretty tools doc" "cl_err c2 = cl_err c1"
      "in_step sk wire_transit c2 (wrote (concat (map (\<lambda>r. js_write lib r @ nl) (checker_replies tools doc))) s, ev)"
    by blast
  have "checker_session lib pretty ?nt host port ?c0 = Some (Inr 0, c2)"
    unfolding checker_session_def using c1(1) c2(1) by simp
  then have "checker_main lib pretty ?nt prog args n = Some (Exits 0, disconnect ?nt c2)"
    unfolding checker_main_def Let_def assms(2) by simp
  moreover have "wire_transit (cl_net (disconnect ?nt c2)) = wire_transit (cl_net c2)"
    by (simp add: disconnect_def wire_net_def)
  moreover have "cl_out (disconnect ?nt c2) = cl_out c2" "cl_err (disconnect ?nt c2) = cl_err c2"
    by (simp_all add: disconnect_def)
  ultimately show ?thesis using c2(2-4) c1(4,5) by (auto simp: in_step_def)
qed

text \<open>
  A library that knows the values of this session, and writes those that are not requests as their number; and a network
  that cuts the first pieces short.
\<close>

definition numbered_lib :: "json list \<Rightarrow> json list \<Rightarrow> json_lib" where
  "numbered_lib known coded =
     (let js_w = (\<lambda>j. if j \<in> set coded then ''#'' @ show_nat (length (takeWhile (\<lambda>k. k \<noteq> j) coded)) else jtext j)
      in \<lparr>js_parse = (\<lambda>x. case List.find (\<lambda>j. js_w j = x) (known @ coded) of Some j \<Rightarrow> Inr (Inr j) | None \<Rightarrow> Inr (Inl ''syntax'')),
          js_write = js_w,
          js_asString = (\<lambda>j. case j of JString s \<Rightarrow> Inr s | JNull \<Rightarrow> Inr [] | _ \<Rightarrow> Inl ''not convertible''),
          js_type_error = (\<lambda>j. ''type'')\<rparr>)"

lemma numbered_lib_reads:
  assumes "distinct (map (js_write (numbered_lib known coded)) (known @ coded))" "j \<in> set (known @ coded)"
  shows "js_parse (numbered_lib known coded) (js_write (numbered_lib known coded) j) = Inr (Inr j)"
proof -
  let ?w = "js_write (numbered_lib known coded)"
  have "List.find (\<lambda>i. ?w i = ?w j) xs = Some j" if "distinct (map ?w xs)" "j \<in> set xs" for xs
    using that by (induction xs) auto
  from this [OF assms] show ?thesis by (simp add: numbered_lib_def Let_def)
qed

definition session_tools_list :: "json list" where
  "session_tools_list = (case echo_tools of JArray l \<Rightarrow> l | _ \<Rightarrow> [])"

definition session_coded :: "json list" where
  "session_coded = checker_replies session_tools_list ''Atoms'' @ [echo_tools, echo_args hello, echo_result hello]"

abbreviation session_lib :: json_lib where
  "session_lib \<equiv> numbered_lib (JArray [] # checker_requests) session_coded"

definition session_echo :: "unit mcp_plugin" where
  "session_echo = McpPlugEcho session_lib (\<lambda>w. ''noon'') 1"

definition session_eval :: "unit mcp_eval" where
  "session_eval = with_plugin session_lib no_tools (with_plugin session_lib session_echo (new_mcp_eval False ()))"

definition session_wire :: "(console_socket \<times> unit mcp_eval) wire" where
  "session_wire = \<lparr>wire_cuts = [0, 6, 0, 2], wire_transit = ([], [], (sample_sock, session_eval))\<rparr>"

lemma session_table: "distinct (map (js_write session_lib) ((JArray [] # checker_requests) @ session_coded))"
  by code_simp

lemma session_plain: "list_all (\<lambda>q. js_write session_lib q = jtext q) (JArray [] # checker_requests)"
  by code_simp

lemma session_request_texts: "list_all (\<lambda>q. clean (jtext q)) checker_requests"
  by code_simp

lemma session_coded_texts: "list_all (\<lambda>q. clean (js_write session_lib q) \<and> js_write session_lib q \<noteq> []) session_coded"
  by code_simp

lemma session_lib_reads: "j \<in> set ((JArray [] # checker_requests) @ session_coded) \<Longrightarrow>
    js_parse session_lib (js_write session_lib j) = Inr (Inr j)"
  by (rule numbered_lib_reads [OF session_table])

lemma session_host_holds:
  "session_host session_lib (\<lambda>f. Some ''Atoms'') [] session_echo no_tools session_eval session_tools_list ''Atoms''"
proof -
  have s: "js_asString session_lib (JString t) = Inr t" for t by (simp add: numbered_lib_def Let_def)
  have w: "q \<in> set (JArray [] # checker_requests) \<Longrightarrow> js_write session_lib q = jtext q" for q
    using session_plain by (simp only: list_all_iff)
  have "js_parse session_lib ''[]'' = Inr (Inr (JArray []))"
    using session_lib_reads [of "JArray []"] w [of "JArray []"] by simp
  then have p: "well_described session_lib no_tools" "tool_array session_lib no_tools = []"
    by (simp_all add: well_described_def tool_array_def no_tools_def)
  have reads: "lib_reads session_lib [echo_tools, echo_args hello, echo_result hello]"
    unfolding lib_reads_def list.pred_inject by (intro conjI session_lib_reads TrueI) (simp_all add: session_coded_def)
  then have e: "well_described session_lib session_echo" "tool_array session_lib session_echo = session_tools_list"
    using echo_names [of session_lib "\<lambda>w. ''noon''" 1] s
    by (simp_all add: session_echo_def lib_reads_def tool_array_def McpPlugEcho_def echo_tool_descriptions_def session_tools_list_def)
  have "list_all (speaks session_lib) checker_requests"
    using session_lib_reads w session_request_texts by (fastforce simp: list_all_iff speaks_def)
  moreover have "list_all (carries session_lib) session_coded"
    using session_lib_reads session_coded_texts by (fastforce simp: list_all_iff carries_def lib_reads_def)
  then have "list_all (carries session_lib) (checker_replies session_tools_list ''Atoms'')"
    by (simp add: session_coded_def)
  moreover have "get_evaluator session_lib False () session_echo no_tools None = (Inr (), session_eval)"
    unfolding session_eval_def by (rule get_evaluator_fresh [OF e(1) p(1)])
  ultimately show ?thesis
    using reads p e(2) s unfolding session_host_def by (auto simp: tool_names_def)
qed

lemma sample_sock_open: "open_line sample_sock"
  by (simp add: open_line_def sample_sock_def set_connection_def new_console_socket_def new_server_socket_def server_socket.defs)

theorem checker_succeeds_witness:
  "\<exists>c ev. checker_main session_lib jtext
       (mcp_net (\<lambda>x s. (Inr (), s)) (mcp_ops session_lib (\<lambda>f. Some ''Atoms'') [] sample_base) 3) ''mcp-checker''
       [''--host'', ''ai''] session_wire = Some (Exits 0, c)
     \<and> cl_err c = []
     \<and> cl_out c = ''MCP Network Client Example'' @ nl @ ''Connecting to: '' @ ''ai'' @ '':'' @ show_int 18888 @ nl
         @ checker_report session_lib jtext session_tools_list ''Atoms''
     \<and> wire_transit (cl_net c) =
         ([], [], (wrote (concat (map (\<lambda>r. js_write session_lib r @ nl) (checker_replies session_tools_list ''Atoms'')))
            sample_sock, ev))"
  by (rule checker_succeeds [OF session_host_holds [unfolded session_echo_def]])
    (simp_all add: sample_sock_open session_wire_def session_echo_def)

definition ping_lib :: json_lib where
  "ping_lib = numbered_lib [rpc_call ''ping'' 0 JNull] [reply 0 (JObject [])]"

definition ping_client :: "(console_socket \<times> unit mcp_eval) wire rpc_client" where
  "ping_client = (SimpleJsonRpcClient \<lparr>wire_cuts = [0, 6], wire_transit = ([], [], (sample_sock, new_mcp_eval False ()))\<rparr>)
     \<lparr>cl_sock := 3, connected := True\<rparr>"

lemma ping_texts:
  "distinct (map (js_write ping_lib) ([rpc_call ''ping'' 0 JNull] @ [reply 0 (JObject [])]))"
  "js_write ping_lib (rpc_call ''ping'' 0 JNull) = jtext (rpc_call ''ping'' 0 JNull)" "clean (jtext (rpc_call ''ping'' 0 JNull))"
  "clean (js_write ping_lib (reply 0 (JObject [])))" "js_write ping_lib (reply 0 (JObject [])) \<noteq> []"
  by code_simp+

theorem request_answered_witness:
  "\<exists>c'. sendRequest ping_lib (mcp_net (\<lambda>x s. (Inr (), s)) (mcp_ops ping_lib (\<lambda>f. None) [] sample_base) 3) ''ping'' JNull
       ping_client = Some (if jhas ''error'' (reply 0 (JObject [])) then Inl (''RPC error: '' @ js_write ping_lib
         (jget ''error'' (reply 0 (JObject [])))) else Inr (jget ''result'' (reply 0 (JObject []))), c')
     \<and> message_id c' = message_id ping_client + 1
     \<and> in_step 3 wire_transit c' (wrote (js_write ping_lib (reply 0 (JObject [])) @ nl) sample_sock,
         answered ping_lib (reply 0 (JObject [])) (begin_eval (new_mcp_eval False ())))"
proof (rule request_answered)
  have r: "js_parse ping_lib (js_write ping_lib j) = Inr (Inr j)" if "j \<in> {rpc_call ''ping'' 0 JNull, reply 0 (JObject [])}" for j
    using numbered_lib_reads [OF ping_texts(1) [unfolded ping_lib_def], of j] that by (auto simp: ping_lib_def)
  have i: "message_id ping_client = 0" by (simp add: ping_client_def SimpleJsonRpcClient_def)
  show "speaks ping_lib (rpc_call ''ping'' (sint (message_id ping_client)) JNull)"
    using r [of "rpc_call ''ping'' 0 JNull"] ping_texts(2,3) by (simp add: speaks_def i)
  show "carries ping_lib (reply 0 (JObject []))"
    using r ping_texts(4,5) by (simp add: carries_def lib_reads_def)
  show "mcp_method ping_lib (\<lambda>f. None) [] ''ping'' (if JNull = JNull then JObject [] else JNull)
      (response_to (JInt (sint (message_id ping_client)))) (begin_eval (new_mcp_eval False ())) =
      (Inr (Some (reply 0 (JObject []))), begin_eval (new_mcp_eval False ()))"
    by (simp add: mcp_method_def i reply_def)
  show "in_step 3 wire_transit ping_client (sample_sock, new_mcp_eval False ())"
    by (simp add: in_step_def ping_client_def SimpleJsonRpcClient_def)
qed (simp_all add: sample_sock_open notifications_def ping_lib_def numbered_lib_def Let_def)

end
