(* ===== verification/Server_Loop.thy ===== *)
theory Server_Loop
  imports Cog_Server
begin

text \<open>
  \<^verbatim>\<open>CogServer::serverLoop\<close> among the threads it shares the server with: the handlers of the connections, which queue
  requests and may drain the queue themselves, and a thread that stops the server. The critical sections are the
  steps of a relation.
\<close>

section \<open>State\<close>

datatype loop_pc =
    L_out | L_test | L_barrier | L_inner | L_reset | L_stop_mcp | L_stop_web | L_stop_con | L_drain
  | L_join_mcp | L_join_web | L_join_con

text \<open>A handler reads lines, or is in the destructor of its socket, where it waits for the use count to be 0.\<close>

datatype conn_pc = Unborn | Reading | Closing | Dead

text \<open>\<open>pushed\<close> and \<open>executed\<close> record the requests; \<open>crashed\<close> says that an exception was not caught.\<close>

record 'q cog_world =
  srv :: "'q cog_server"
  loop_at :: loop_pc
  conn_at :: "nat \<Rightarrow> conn_pc"
  crashed :: bool
  pushed :: "request list"
  executed :: "request list"

definition alive :: "'q cog_world \<Rightarrow> nat \<Rightarrow> bool" where
  "alive w a \<longleftrightarrow> conn_at w a = Reading \<or> conn_at w a = Closing"

fun server_of :: "conn_class \<Rightarrow> 'q cog_server \<Rightarrow> net_server option" where
  "server_of Telnet_conn s = consoleServer s"
| "server_of Web_conn s = webServer s"
| "server_of Mcp_conn s = mcpServer s"

fun set_server :: "conn_class \<Rightarrow> net_server option \<Rightarrow> 'q cog_server \<Rightarrow> 'q cog_server" where
  "set_server Telnet_conn x s = s\<lparr>consoleServer := x\<rparr>"
| "set_server Web_conn x s = s\<lparr>webServer := x\<rparr>"
| "set_server Mcp_conn x s = s\<lparr>mcpServer := x\<rparr>"

section \<open>The loop\<close>

text \<open>
  One turn of \<^verbatim>\<open>processRequests\<close>: pop, execute, delete. \<open>stops r\<close> says that the request is the shutdown command, whose
  \<^verbatim>\<open>execute\<close> calls \<^verbatim>\<open>stop\<close>.
\<close>

definition serve_one ::
  "(request, 'q) cq_ops \<Rightarrow> (request \<Rightarrow> request \<times> consoles \<Rightarrow> request \<times> consoles) \<Rightarrow> (request \<Rightarrow> bool) \<Rightarrow> 'q cog_world \<Rightarrow>
   (unit res \<times> 'q cog_world) option" where
  "serve_one qo exec stops w =
     (let s = srv w
      in case cq_pop qo (requestQueue s) of
           None \<Rightarrow> None
         | Some (Inl e, q) \<Rightarrow> Some (Inl e, w\<lparr>srv := s\<lparr>requestQueue := q\<rparr>\<rparr>)
         | Some (Inr r, q) \<Rightarrow>
             (let s1 = s\<lparr>requestQueue := q, rm_consoles := run_request exec r (rm_consoles s)\<rparr>
              in Some (Inr (), w\<lparr>srv := (if stops r then cog_stop qo s1 else s1), executed := executed w @ [r]\<rparr>)))"

definition stop_server :: "conn_class \<Rightarrow> 'q cog_world \<Rightarrow> 'q cog_world" where
  "stop_server c w =
     w\<lparr>srv := set_server c (map_option (\<lambda>ns. snd (stop_listening ns)) (server_of c (srv w))) (srv w)\<rparr>"

text \<open>Joining the handlers of a server and deleting it; \<^const>\<open>None\<close> while a handler is alive.\<close>

definition join_server :: "conn_class \<Rightarrow> 'q cog_world \<Rightarrow> 'q cog_world option" where
  "join_server c w =
     (case server_of c (srv w) of
        None \<Rightarrow> Some w
      | Some ns \<Rightarrow>
          (case join_threads (alive w) ns of
             None \<Rightarrow> None
           | Some ns1 \<Rightarrow> map_option (\<lambda>ns2. w\<lparr>srv := set_server c (Some ns2) (srv w)\<rparr>) (ns_dtor (alive w) ns1)))"

text \<open>
  The loop thread. \<^verbatim>\<open>requestQueue.barrier()\<close> waits for a request, and throws when the queue is canceled. An exception in
  the drain is not caught.
\<close>

definition loop_step ::
  "(request, 'q) cq_ops \<Rightarrow> (request \<Rightarrow> request \<times> consoles \<Rightarrow> request \<times> consoles) \<Rightarrow> (request \<Rightarrow> bool) \<Rightarrow> 'q cog_world \<Rightarrow>
   'q cog_world option" where
  "loop_step qo exec stops w =
     (let s = srv w; at = (\<lambda>pc w. Some (w\<lparr>loop_at := pc\<rparr>))
      in case loop_at w of
           L_out \<Rightarrow> None
         | L_test \<Rightarrow> at (if cs_running s then L_barrier else L_reset) w
         | L_barrier \<Rightarrow>
             (case cq_pop qo (requestQueue s) of
                None \<Rightarrow> None
              | Some (Inl _, _) \<Rightarrow> at L_reset w
              | Some (Inr _, _) \<Rightarrow> at L_inner w)
         | L_inner \<Rightarrow>
             if 0 < getRequestQueueSize qo s
             then (case serve_one qo exec stops w of
                     None \<Rightarrow> None
                   | Some (Inl _, w1) \<Rightarrow> at L_reset w1
                   | Some (Inr _, w1) \<Rightarrow> at L_inner w1)
             else at L_test w
         | L_reset \<Rightarrow> at L_stop_mcp (w\<lparr>srv := s\<lparr>requestQueue := cq_cancel_reset qo (requestQueue s)\<rparr>\<rparr>)
         | L_stop_mcp \<Rightarrow> at L_stop_web (stop_server Mcp_conn w)
         | L_stop_web \<Rightarrow> at L_stop_con (stop_server Web_conn w)
         | L_stop_con \<Rightarrow> at L_drain (stop_server Telnet_conn w)
         | L_drain \<Rightarrow>
             if 0 < getRequestQueueSize qo s
             then (case serve_one qo exec stops w of
                     None \<Rightarrow> None
                   | Some (Inl _, w1) \<Rightarrow> Some (w1\<lparr>crashed := True\<rparr>)
                   | Some (Inr _, w1) \<Rightarrow> at L_drain w1)
             else at L_join_mcp w
         | L_join_mcp \<Rightarrow> (case join_server Mcp_conn w of None \<Rightarrow> None | Some w1 \<Rightarrow> at L_join_web w1)
         | L_join_web \<Rightarrow> (case join_server Web_conn w of None \<Rightarrow> None | Some w1 \<Rightarrow> at L_join_con w1)
         | L_join_con \<Rightarrow>
             (case join_server Telnet_conn w of
                None \<Rightarrow> None
              | Some w1 \<Rightarrow> at L_out (w1\<lparr>srv := (srv w1)\<lparr>mcpServer := None, webServer := None, consoleServer := None\<rparr>\<rparr>)))"

section \<open>The other threads\<close>

text \<open>The listener of a port takes a new connection.\<close>

definition do_accept :: "int \<Rightarrow> conn_class \<Rightarrow> nat \<Rightarrow> 'q cog_world \<Rightarrow> 'q cog_world option" where
  "do_accept now c a w =
     (case server_of c (srv w) of
        None \<Rightarrow> None
      | Some ns \<Rightarrow>
          if ns_running ns \<and> conn_at w a = Unborn
          then Some (w\<lparr>srv := set_server c (Some (snd (accepted_conn now a ns))) (srv w),
                       conn_at := (conn_at w)(a := Reading)\<rparr>)
          else None)"

text \<open>A telnet handler queues a command: the last part of \<^verbatim>\<open>ServerConsole::OnLine\<close>.\<close>

definition do_command :: "(request, 'q) cq_ops \<Rightarrow> nat \<Rightarrow> request \<Rightarrow> 'q cog_world \<Rightarrow> 'q cog_world option" where
  "do_command qo a r w =
     (case consoleServer (srv w) of
        None \<Rightarrow> None
      | Some ns \<Rightarrow>
          if conn_at w a = Reading \<and> a \<in> set (handlers ns) \<and> rq_console r = None
          then (case set_console (Some a) (r, rm_consoles (srv w)) of
                  (Inl e, _) \<Rightarrow> None
                | (Inr _, r1, cs1) \<Rightarrow>
                    (case pushRequest qo r1 ((srv w)\<lparr>rm_consoles := cs1\<rparr>) of
                       (Inl e, s1) \<Rightarrow> Some (w\<lparr>srv := s1, crashed := True\<rparr>)
                     | (Inr _, s1) \<Rightarrow> Some (w\<lparr>srv := s1, pushed := pushed w @ [r1]\<rparr>)))
          else None)"

text \<open>After a command that enters a shell, the handler drains the queue itself.\<close>

definition do_handler_serve ::
  "(request, 'q) cq_ops \<Rightarrow> (request \<Rightarrow> request \<times> consoles \<Rightarrow> request \<times> consoles) \<Rightarrow> (request \<Rightarrow> bool) \<Rightarrow> nat \<Rightarrow> 'q cog_world \<Rightarrow>
   'q cog_world option" where
  "do_handler_serve qo exec stops a w =
     (if conn_at w a = Reading \<and> 0 < getRequestQueueSize qo (srv w)
      then (case serve_one qo exec stops w of
              None \<Rightarrow> None
            | Some (Inl _, w1) \<Rightarrow> Some (w1\<lparr>crashed := True\<rparr>)
            | Some (Inr _, w1) \<Rightarrow> Some w1)
      else None)"

definition do_hangup :: "nat \<Rightarrow> 'q cog_world \<Rightarrow> 'q cog_world option" where
  "do_hangup a w = (if conn_at w a = Reading then Some (w\<lparr>conn_at := (conn_at w)(a := Closing)\<rparr>) else None)"

definition do_close :: "nat \<Rightarrow> 'q cog_world \<Rightarrow> 'q cog_world option" where
  "do_close a w =
     (if conn_at w a = Closing \<and> rc_use_count (rm_consoles (srv w) a) = 0
      then Some (w\<lparr>conn_at := (conn_at w)(a := Dead)\<rparr>) else None)"

text \<open>The message \<^verbatim>\<open>*-stop-*\<close> from any thread.\<close>

definition do_stop :: "(request, 'q) cq_ops \<Rightarrow> 'q cog_world \<Rightarrow> 'q cog_world option" where
  "do_stop qo w = (if cs_running (srv w) then Some (w\<lparr>srv := cog_stop qo (srv w)\<rparr>) else None)"

datatype cog_event =
    Loop | Accept int conn_class nat | Command nat request | Handler_serve nat | Hangup nat | Close nat | Stop

fun cog_do ::
  "(request, 'q) cq_ops \<Rightarrow> (request \<Rightarrow> request \<times> consoles \<Rightarrow> request \<times> consoles) \<Rightarrow> (request \<Rightarrow> bool) \<Rightarrow> cog_event \<Rightarrow>
   'q cog_world \<Rightarrow> 'q cog_world option" where
  "cog_do qo exec stops Loop w = loop_step qo exec stops w"
| "cog_do qo exec stops (Accept now c a) w = do_accept now c a w"
| "cog_do qo exec stops (Command a r) w = do_command qo a r w"
| "cog_do qo exec stops (Handler_serve a) w = do_handler_serve qo exec stops a w"
| "cog_do qo exec stops (Hangup a) w = do_hangup a w"
| "cog_do qo exec stops (Close a) w = do_close a w"
| "cog_do qo exec stops Stop w = do_stop qo w"

inductive cog_step for qo exec stops where
  step: "\<not> crashed w \<Longrightarrow> cog_do qo exec stops ev w = Some w' \<Longrightarrow> cog_step qo exec stops w w'"

inductive_cases cog_stepE: "cog_step qo exec stops w w'"

definition started_world :: "'q cog_server \<Rightarrow> 'q cog_world" where
  "started_world s = \<lparr>srv = s, loop_at = L_test, conn_at = (\<lambda>_. Unborn), crashed = False, pushed = [], executed = []\<rparr>"

section \<open>Accounting\<close>

text \<open>
  Every request gives its console back exactly once, when it is executed and deleted, and touches no other use count
  (theorem \<open>request_use_count_balanced\<close> of theory \<open>Requests\<close> has the condition on the command).
\<close>

definition balanced :: "(request \<Rightarrow> request \<times> consoles \<Rightarrow> request \<times> consoles) \<Rightarrow> bool" where
  "balanced exec \<longleftrightarrow> (\<forall>r cs a b. rq_console r = Some a \<longrightarrow>
     rc_use_count (run_request exec r cs b) = (if b = a then rc_use_count (cs b) - 1 else rc_use_count (cs b)))"

definition queued_by :: "request list \<Rightarrow> nat \<Rightarrow> nat" where
  "queued_by rs a = length (filter (\<lambda>r. rq_console r = Some a) rs)"

lemma queued_by_simps [simp]:
  "queued_by [] a = 0"
  "queued_by (r # rs) a = (if rq_console r = Some a then Suc (queued_by rs a) else queued_by rs a)"
  "queued_by (rs @ rs') a = queued_by rs a + queued_by rs' a"
  by (simp_all add: queued_by_def)

lemma queued_by_pos: "r \<in> set rs \<Longrightarrow> rq_console r = Some a \<Longrightarrow> 0 < queued_by rs a"
  by (auto simp: queued_by_def filter_empty_conv)

text \<open>
  The use count of a console is the number of its requests in the queue; a connection that has ended has none; what
  is queued comes from a handler of the telnet port that has not been joined.
\<close>

definition accounts :: "('q \<Rightarrow> request list) \<Rightarrow> 'q cog_world \<Rightarrow> bool" where
  "accounts items w \<longleftrightarrow>
     pushed w = executed w @ items (requestQueue (srv w))
   \<and> (\<forall>a. rc_use_count (rm_consoles (srv w) a) = queued_by (items (requestQueue (srv w))) a)
   \<and> (\<forall>a. \<not> alive w a \<longrightarrow> queued_by (items (requestQueue (srv w))) a = 0)
   \<and> (\<forall>r \<in> set (items (requestQueue (srv w))).
        \<exists>ns a. consoleServer (srv w) = Some ns \<and> rq_console r = Some a \<and> a \<in> set (handlers ns))"

definition ports_closed :: "'q cog_world \<Rightarrow> bool" where
  "ports_closed w \<longleftrightarrow> consoleServer (srv w) = None \<and> webServer (srv w) = None \<and> mcpServer (srv w) = None"

definition loop_inv :: "('q \<Rightarrow> request list) \<Rightarrow> 'q cog_world \<Rightarrow> bool" where
  "loop_inv items w \<longleftrightarrow> crashed w
     \<or> accounts items w \<and> (loop_at w = L_out \<longrightarrow> items (requestQueue (srv w)) = [] \<and> ports_closed w)"

lemma accounts_at [simp]: "accounts items (w\<lparr>loop_at := pc\<rparr>) = accounts items w"
  by (simp add: accounts_def alive_def)

lemma serve_one_cases:
  assumes "cq_laws qo items canceled" "serve_one qo exec stops w = Some (res, w')"
  obtains (cancel) e where "res = Inl e" "w' = w"
  | (serve) r q where "res = Inr ()" "items (requestQueue (srv w)) = r # items q" "executed w' = executed w @ [r]"
      "items (requestQueue (srv w')) = items q" "rm_consoles (srv w') = run_request exec r (rm_consoles (srv w))"
      "consoleServer (srv w') = consoleServer (srv w)" "pushed w' = pushed w" "conn_at w' = conn_at w"
      "crashed w' = crashed w" "loop_at w' = loop_at w" "webServer (srv w') = webServer (srv w)"
      "mcpServer (srv w') = mcpServer (srv w)"
proof (cases "canceled (requestQueue (srv w))")
  case True
  then show ?thesis using assms(2) cq_lawsD(3) [OF assms(1) True] by (auto simp: serve_one_def Let_def intro: cancel)
next
  case False
  show ?thesis
  proof (cases "items (requestQueue (srv w))")
    case Nil
    then show ?thesis using assms(2) cq_lawsD(4) [OF assms(1) False Nil] by (simp add: serve_one_def Let_def)
  next
    case (Cons r rs)
    obtain q where "cq_pop qo (requestQueue (srv w)) = Some (Inr r, q)" "items q = rs"
      using cq_lawsD(5) [OF assms(1) False Cons] by blast
    with assms(2) Cons show ?thesis
      by (intro serve [of r q]) (auto simp: serve_one_def Let_def cog_stop_def cq_lawsD(9) [OF assms(1)])
  qed
qed

lemma serve_one_accounts:
  assumes "cq_laws qo items canceled" "balanced exec" "accounts items w" "serve_one qo exec stops w = Some (res, w')"
  shows "accounts items w'"
  using assms(1,4)
proof (cases rule: serve_one_cases)
  case (serve r q)
  obtain ns a where a: "consoleServer (srv w) = Some ns" "rq_console r = Some a" "a \<in> set (handlers ns)"
    using assms(3) serve(2) by (auto simp: accounts_def)
  have "rc_use_count (rm_consoles (srv w') b) = (if b = a then rc_use_count (rm_consoles (srv w) b) - 1
      else rc_use_count (rm_consoles (srv w) b))" for b
    using assms(2) a(2) serve(5) by (simp add: balanced_def)
  with assms(3) serve a(2) have "rc_use_count (rm_consoles (srv w') b) = queued_by (items q) b" for b
    by (auto simp: accounts_def)
  moreover have "queued_by (items q) b = 0" if "\<not> alive w b" for b
    using assms(3) that serve(2) by (auto simp: accounts_def split: if_splits)
  ultimately show ?thesis
    using assms(3) serve by (auto simp: accounts_def alive_def)
qed (use assms(3) in simp)

lemma stop_server_accounts: "accounts items w \<Longrightarrow> accounts items (stop_server c w)"
  by (cases c; cases "consoleServer (srv w)")
    (auto simp: accounts_def alive_def stop_server_def stop_listening_def)

lemma join_server_spec:
  assumes "join_server c w = Some w'"
  shows "w' = w\<lparr>srv := set_server c (map_option (\<lambda>ns. (snd (stop_listening ns))\<lparr>handlers := []\<rparr>) (server_of c (srv w))) (srv w)\<rparr>"
    "\<And>ns a. server_of c (srv w) = Some ns \<Longrightarrow> a \<in> set (handlers ns) \<Longrightarrow> \<not> alive w a"
  using assms
  by (cases c; cases "server_of c (srv w)";
      force simp: join_server_def join_threads_def ns_dtor_def stop_listening_def list_ex_iff split: if_splits)+

lemma loop_invI: "accounts items w \<Longrightarrow> loop_at w \<noteq> L_out \<Longrightarrow> loop_inv items w"
  by (simp add: loop_inv_def)

lemma loop_inv_at [simp]: "accounts items w \<Longrightarrow> pc \<noteq> L_out \<Longrightarrow> loop_inv items (w\<lparr>loop_at := pc\<rparr>)"
  by (simp add: loop_inv_def)

lemma join_server_accounts:
  assumes "accounts items w" "join_server c w = Some w'" "c \<noteq> Telnet_conn"
  shows "accounts items w'"
  using assms join_server_spec(1) [OF assms(2)] by (cases c) (auto simp: accounts_def alive_def)

lemma last_join:
  assumes "accounts items w" "join_server Telnet_conn w = Some w'"
  shows "items (requestQueue (srv w)) = []"
proof (rule ccontr)
  assume "items (requestQueue (srv w)) \<noteq> []"
  then obtain r where r: "r \<in> set (items (requestQueue (srv w)))" using hd_in_set by blast
  then obtain ns a where a: "consoleServer (srv w) = Some ns" "rq_console r = Some a" "a \<in> set (handlers ns)"
    using assms(1) by (auto simp: accounts_def)
  then have "\<not> alive w a" using join_server_spec(2) [OF assms(2)] by simp
  then show False using assms(1) queued_by_pos [OF r a(2)] by (simp add: accounts_def)
qed

lemma serve_inv:
  assumes "cq_laws qo items canceled" "balanced exec" "accounts items w"
    and "(case serve_one qo exec stops w of None \<Rightarrow> None
      | Some (Inl _, w1) \<Rightarrow> Some (f w1) | Some (Inr _, w1) \<Rightarrow> Some (g w1)) = Some w'"
    and "\<And>w. accounts items w \<Longrightarrow> loop_inv items (f w)" "\<And>w. accounts items w \<Longrightarrow> loop_inv items (g w)"
  shows "loop_inv items w'"
proof -
  obtain res w1 where s: "serve_one qo exec stops w = Some (res, w1)" using assms(4) by (auto split: option.splits)
  then have "accounts items w1" by (rule serve_one_accounts [OF assms(1-3)])
  with s assms(4-6) show ?thesis by (auto split: sum.splits)
qed

lemma loop_step_inv:
  assumes laws: "cq_laws qo items canceled" and b: "balanced exec" and c: "\<not> crashed w" and inv: "loop_inv items w"
    and step: "loop_step qo exec stops w = Some w'"
  shows "loop_inv items w'"
proof -
  have a: "accounts items w" using c inv by (simp add: loop_inv_def)
  note serve = serve_inv [OF laws b a]
  show ?thesis
  proof (cases "loop_at w")
    case L_inner
    show ?thesis
    proof (cases "0 < getRequestQueueSize qo (srv w)")
      case True
      show ?thesis
        by (rule serve [where stops = stops and f = "\<lambda>w. w\<lparr>loop_at := L_reset\<rparr>" and g = "\<lambda>w. w\<lparr>loop_at := L_inner\<rparr>"])
          (use step L_inner True in \<open>simp_all add: loop_step_def Let_def loop_invI\<close>)
    qed (use step L_inner a in \<open>auto simp: loop_step_def Let_def intro: loop_invI\<close>)
  next
    case L_drain
    show ?thesis
    proof (cases "0 < getRequestQueueSize qo (srv w)")
      case True
      show ?thesis
        by (rule serve [where stops = stops and f = "\<lambda>w. w\<lparr>crashed := True\<rparr>" and g = "\<lambda>w. w\<lparr>loop_at := L_drain\<rparr>"])
          (use step L_drain True in \<open>simp_all add: loop_step_def Let_def loop_invI\<close>, simp_all add: loop_inv_def)
    qed (use step L_drain a in \<open>auto simp: loop_step_def Let_def intro: loop_invI\<close>)
  next
    case L_join_con
    then obtain w1 where w1: "join_server Telnet_conn w = Some w1"
      using step by (auto simp: loop_step_def Let_def split: option.splits)
    have "items (requestQueue (srv w)) = []" using a w1 by (rule last_join)
    with a w1 L_join_con step join_server_spec(1) [OF w1] show ?thesis
      by (auto simp: loop_step_def Let_def loop_inv_def accounts_def alive_def ports_closed_def)
  next
    case L_reset
    with step a show ?thesis
      by (auto simp: loop_step_def Let_def loop_inv_def accounts_def alive_def cq_lawsD(11) [OF laws])
  next
    case L_barrier
    with step a show ?thesis
      by (auto simp: loop_step_def Let_def intro!: loop_invI split: option.splits sum.splits prod.splits)
  qed (use step a in \<open>auto simp: loop_step_def Let_def intro!: loop_inv_at
         intro: stop_server_accounts join_server_accounts split: option.splits if_splits\<close>)
qed

lemma do_command_cases:
  assumes "cq_laws qo items canceled" "do_command qo n r w = Some w'"
  obtains (lost) "crashed w'"
  | (queued) ns q where "consoleServer (srv w) = Some ns" "conn_at w n = Reading" "n \<in> set (handlers ns)" "rq_console r = None"
      "items q = items (requestQueue (srv w)) @ [r\<lparr>rq_console := Some n\<rparr>]"
      "w' = w\<lparr>srv := (srv w)\<lparr>rm_consoles := con_get n (rm_consoles (srv w)), requestQueue := q\<rparr>,
              pushed := pushed w @ [r\<lparr>rq_console := Some n\<rparr>]\<rparr>"
proof -
  obtain ns where ns: "consoleServer (srv w) = Some ns" "conn_at w n = Reading" "n \<in> set (handlers ns)" "rq_console r = None"
    using assms(2) by (auto simp: do_command_def split: option.splits if_splits)
  show thesis
  proof (cases "canceled (requestQueue (srv w))")
    case True
    with assms(2) ns show ?thesis
      by (intro lost) (auto simp: do_command_def set_console_def pushRequest_def cq_lawsD(2) [OF assms(1)])
  next
    case False
    obtain q where "cq_push qo (r\<lparr>rq_console := Some n\<rparr>) (requestQueue (srv w)) = (Inr (), q)"
      "items q = items (requestQueue (srv w)) @ [r\<lparr>rq_console := Some n\<rparr>]"
      using cq_lawsD(1) [OF assms(1) False] by blast
    with assms(2) ns show ?thesis
      by (intro queued) (auto simp: do_command_def set_console_def pushRequest_def)
  qed
qed

lemma other_step_inv:
  assumes laws: "cq_laws qo items canceled" and b: "balanced exec" and c: "\<not> crashed w" and inv: "loop_inv items w"
    and step: "cog_do qo exec stops ev w = Some w'" "ev \<noteq> Loop"
  shows "loop_inv items w'"
proof -
  have a: "accounts items w" and out: "loop_at w = L_out \<Longrightarrow> items (requestQueue (srv w)) = [] \<and> ports_closed w"
    using c inv by (auto simp: loop_inv_def)
  show ?thesis
  proof (cases ev)
    case (Accept now k n)
    obtain ns where ns: "server_of k (srv w) = Some ns"
        "w' = w\<lparr>srv := set_server k (Some (snd (accepted_conn now n ns))) (srv w), conn_at := (conn_at w)(n := Reading)\<rparr>"
      using step(1) Accept by (auto simp: do_accept_def split: option.splits if_splits)
    with out have "loop_at w \<noteq> L_out" by (cases k) (auto simp: ports_closed_def)
    moreover have "accounts items w'"
      using a ns by (cases k) (auto simp: accounts_def alive_def accepted_conn_def)
    ultimately show ?thesis using ns(2) by (simp add: loop_inv_def)
  next
    case (Command n r)
    from step(1) Command have "do_command qo n r w = Some w'" by simp
    with laws show ?thesis
    proof (cases rule: do_command_cases)
      case (queued ns q)
      then have "accounts items w'" using a by (auto simp: accounts_def alive_def con_get_def)
      moreover have "loop_at w' \<noteq> L_out" using out queued by (auto simp: ports_closed_def)
      ultimately show ?thesis by (rule loop_invI)
    qed (simp add: loop_inv_def)
  next
    case (Handler_serve n)
    show ?thesis
    proof (cases "loop_at w = L_out")
      case True
      then show ?thesis using out step(1) Handler_serve
        by (auto simp: do_handler_serve_def getRequestQueueSize_def cq_lawsD(8) [OF laws] split: if_splits)
    next
      case False
      obtain res w1 where s: "serve_one qo exec stops w = Some (res, w1)"
        using step(1) Handler_serve by (auto simp: do_handler_serve_def split: if_splits option.splits)
      with laws have "loop_at w1 = loop_at w" by (cases rule: serve_one_cases) auto
      moreover have "accounts items w1" by (rule serve_one_accounts [OF laws b a s])
      ultimately show ?thesis using s step(1) Handler_serve False
        by (auto simp: do_handler_serve_def loop_inv_def split: if_splits sum.splits)
    qed
  next
    case (Close n)
    with step(1) a out show ?thesis
      by (auto simp: do_close_def loop_inv_def accounts_def alive_def ports_closed_def split: if_splits)
  qed (use step a out in \<open>auto simp: do_hangup_def do_stop_def cog_stop_def loop_inv_def accounts_def alive_def
         ports_closed_def cq_lawsD(9) [OF laws] split: if_splits\<close>)
qed

lemma loop_inv_step:
  assumes "cq_laws qo items canceled" "balanced exec" "loop_inv items w" "cog_step qo exec stops w w'"
  shows "loop_inv items w'"
  using assms(4)
proof cases
  case (step ev)
  then show ?thesis
    using loop_step_inv [OF assms(1,2) step(1) assms(3)] other_step_inv [OF assms(1,2) step(1) assms(3)]
    by (cases "ev = Loop") auto
qed

lemma loop_inv_reach:
  assumes "cq_laws qo items canceled" "balanced exec" "(cog_step qo exec stops)\<^sup>*\<^sup>* (started_world s) w"
    and "items (requestQueue s) = []" "\<And>a. rc_use_count (rm_consoles s a) = 0"
  shows "loop_inv items w"
  using assms(3)
proof (induction rule: rtranclp_induct)
  case base
  then show ?case using assms(4,5) by (simp add: started_world_def loop_inv_def accounts_def)
qed (rule loop_inv_step [OF assms(1,2)])

section \<open>Results\<close>

text \<open>
  When the main loop returns, then whatever the interleaving of the loop, the handlers and the stop, every request
  that was accepted has been executed, in the order of acceptance; no console is in use, and all ports are closed.
\<close>

theorem shutdown_complete:
  assumes "cq_laws qo items canceled" "balanced exec" "(cog_step qo exec stops)\<^sup>*\<^sup>* (started_world s) w"
    and "items (requestQueue s) = []" "\<And>a. rc_use_count (rm_consoles s a) = 0"
    and "loop_at w = L_out" "\<not> crashed w"
  shows "executed w = pushed w \<and> ports_closed w \<and> rc_use_count (rm_consoles (srv w) a) = 0"
  using loop_inv_reach [OF assms(1-5)] assms(6,7) by (simp add: loop_inv_def accounts_def)

section \<open>Runs\<close>

fun cog_run ::
  "(request, 'q) cq_ops \<Rightarrow> (request \<Rightarrow> request \<times> consoles \<Rightarrow> request \<times> consoles) \<Rightarrow> (request \<Rightarrow> bool) \<Rightarrow> cog_event list \<Rightarrow>
   'q cog_world \<Rightarrow> 'q cog_world option" where
  "cog_run qo exec stops [] w = Some w"
| "cog_run qo exec stops (ev # evs) w =
     (if crashed w then None
      else case cog_do qo exec stops ev w of None \<Rightarrow> None | Some w' \<Rightarrow> cog_run qo exec stops evs w')"

lemma cog_run_reach: "cog_run qo exec stops evs w = Some w' \<Longrightarrow> (cog_step qo exec stops)\<^sup>*\<^sup>* w w'"
proof (induction evs arbitrary: w)
  case (Cons ev evs)
  then obtain w1 where "\<not> crashed w" "cog_do qo exec stops ev w = Some w1" "cog_run qo exec stops evs w1 = Some w'"
    by (auto split: if_splits option.splits)
  with Cons.IH show ?case by (meson cog_step.step converse_rtranclp_into_rtranclp)
qed simp

text \<open>A server with a telnet port, commands that only return, and the shutdown command.\<close>

definition telnet_port :: net_server where
  "telnet_port = \<lparr>ns_name = ''Telnet Server'', ns_port = 17001, ns_running = True, listener = True,
     getServer = Some Telnet_conn, handlers = [], ns_start_time = 0, ns_last_connect = 0, ns_nconnections = 0\<rparr>"

definition loop_server :: "(request list \<times> bool) cog_server" where
  "loop_server = demo_server\<lparr>consoleServer := Some telnet_port, cs_running := True\<rparr>"

definition plain_exec :: "request \<Rightarrow> request \<times> consoles \<Rightarrow> request \<times> consoles" where
  "plain_exec r rc = rc"

definition is_shutdown :: "request \<Rightarrow> bool" where
  "is_shutdown r \<longleftrightarrow> rci_id (rq_info r) = ''shutdown''"

definition help_request :: request where
  "help_request = factory_create help_info"

definition shutdown_request :: request where
  "shutdown_request = factory_create (emptyClassInfo\<lparr>rci_id := ''shutdown''\<rparr>)"

abbreviation demo_run :: "cog_event list \<Rightarrow> (request list \<times> bool) cog_world option" where
  "demo_run evs \<equiv> cog_run list_cq plain_exec is_shutdown evs (started_world loop_server)"

lemma plain_exec_balanced: "balanced plain_exec"
  by (auto simp: balanced_def plain_exec_def run_request_def request_dtor_def con_put_def con_send_def)

lemma loop_server_idle: "fst (requestQueue loop_server) = []" "rc_use_count (rm_consoles loop_server a) = 0"
  by (simp_all add: loop_server_def demo_server_def new_cog_server_def idle_console_def)

definition orderly :: "cog_event list" where
  "orderly = [Accept 1 Telnet_conn 1, Command 1 help_request, Loop, Loop, Loop, Command 1 shutdown_request, Loop, Loop,
     Hangup 1, Close 1] @ replicate 9 Loop"

definition orderly_end :: "(request list \<times> bool) cog_world" where
  "orderly_end = the (demo_run orderly)"

lemma orderly_runs: "demo_run orderly = Some orderly_end"
proof -
  have "\<not> Option.is_none (demo_run orderly)" by code_simp
  then show ?thesis by (auto simp: orderly_end_def Option.is_none_def)
qed

theorem shutdown_complete_witness:
  "executed orderly_end = pushed orderly_end \<and> ports_closed orderly_end
    \<and> rc_use_count (rm_consoles (srv orderly_end) 1) = 0"
proof -
  have "loop_at orderly_end = L_out" "\<not> crashed orderly_end" by code_simp+
  then show ?thesis
    using shutdown_complete [OF list_cq_laws plain_exec_balanced cog_run_reach [OF orderly_runs] loop_server_idle] by blast
qed

definition late_command :: "cog_event list" where
  "late_command = [Accept 1 Telnet_conn 1, Stop] @ replicate 8 Loop @ [Command 1 help_request, Hangup 1]"

definition hung :: "(request list \<times> bool) cog_world" where
  "hung = the (demo_run late_command)"

lemma hung_runs: "demo_run late_command = Some hung"
proof -
  have "\<not> Option.is_none (demo_run late_command)" by code_simp
  then show ?thesis by (auto simp: hung_def Option.is_none_def)
qed

lemma hung_facts:
  "loop_at hung = L_join_con" "\<not> crashed hung" "\<not> cs_running (srv hung)"
  "map_option handlers (consoleServer (srv hung)) = Some [1]" "map_option ns_running (consoleServer (srv hung)) = Some False"
  "webServer (srv hung) = None" "mcpServer (srv hung) = None" "conn_at hung 1 = Closing"
  "rc_use_count (rm_consoles (srv hung) 1) = 1"
  unfolding hung_def by code_simp+

lemma serve_one_conn: "serve_one qo exec stops w = Some (res, w') \<Longrightarrow> conn_at w' = conn_at w"
  by (auto simp: serve_one_def Let_def split: option.splits sum.splits)

lemma loop_step_conn: "loop_step qo exec stops w = Some w' \<Longrightarrow> conn_at w' = conn_at w"
  by (cases "loop_at w")
    (auto simp: loop_step_def Let_def stop_server_def dest: serve_one_conn join_server_spec(1)
      split: option.splits sum.splits if_splits prod.splits)

fun accepts :: "cog_event \<Rightarrow> nat option" where
  "accepts (Accept now c a) = Some a"
| "accepts _ = None"

lemma cog_do_unborn:
  "cog_do qo exec stops ev w = Some w' \<Longrightarrow> conn_at w n = Unborn \<Longrightarrow> accepts ev \<noteq> Some n \<Longrightarrow> conn_at w' n = Unborn"
  by (cases ev)
    (auto simp: do_accept_def do_command_def do_handler_serve_def do_hangup_def do_close_def do_stop_def
      dest: serve_one_conn loop_step_conn split: option.splits sum.splits if_splits prod.splits)

lemma cog_run_unborn:
  "cog_run qo exec stops evs w = Some w' \<Longrightarrow> conn_at w n = Unborn \<Longrightarrow> Some n \<notin> accepts ` set evs \<Longrightarrow> conn_at w' n = Unborn"
proof (induction evs arbitrary: w)
  case (Cons ev evs)
  from Cons.prems(1) obtain w1 where w1: "cog_do qo exec stops ev w = Some w1" "cog_run qo exec stops evs w1 = Some w'"
    by (auto split: if_splits option.splits)
  have "accepts ev \<noteq> Some n" using Cons.prems(3) by force
  with w1(1) Cons.prems(2) have "conn_at w1 n = Unborn" by (rule cog_do_unborn)
  with w1(2) Cons.prems(3) show ?case by (intro Cons.IH) auto
qed simp

lemma hung_others: "n \<noteq> 1 \<Longrightarrow> conn_at hung n = Unborn"
  by (rule cog_run_unborn [OF hung_runs]) (auto simp: started_world_def late_command_def)

text \<open>
  C35. But the loop need not return. When a client sends a command after the drain, nobody executes it; when the client
  hangs up, its handler waits for the command, and the loop waits for the handler: no step is possible any more.
\<close>

theorem shutdown_can_hang:
  "\<exists>w. (cog_step list_cq plain_exec is_shutdown)\<^sup>*\<^sup>* (started_world loop_server) w \<and> loop_at w = L_join_con
     \<and> (\<forall>w'. \<not> cog_step list_cq plain_exec is_shutdown w w')"
proof (intro exI conjI allI notI)
  show "(cog_step list_cq plain_exec is_shutdown)\<^sup>*\<^sup>* (started_world loop_server) hung" by (rule cog_run_reach [OF hung_runs])
  show "loop_at hung = L_join_con" by (rule hung_facts)
  fix w' assume "cog_step list_cq plain_exec is_shutdown hung w'"
  then obtain ev where ev: "cog_do list_cq plain_exec is_shutdown ev hung = Some w'" by (auto elim: cog_stepE)
  obtain ns where ns: "consoleServer (srv hung) = Some ns" "handlers ns = [1]" "\<not> ns_running ns"
    using hung_facts(4,5) by auto
  have c: "conn_at hung n \<noteq> Reading" "conn_at hung n = Closing \<longleftrightarrow> n = 1" for n
    using hung_facts(8) hung_others [of n] by (cases "n = 1"; simp)+
  show False
  proof (cases ev)
    case Loop
    with ev ns hung_facts(1) c show False
      by (auto simp: loop_step_def Let_def join_server_def join_threads_def alive_def)
  next
    case (Accept now k n)
    with ev ns hung_facts(6,7) show False by (cases k) (auto simp: do_accept_def)
  next
    case (Close n)
    with ev c(2) hung_facts(9) show False by (auto simp: do_close_def split: if_splits)
  qed (use ev ns c hung_facts(3) in \<open>auto simp: do_command_def do_handler_serve_def do_hangup_def do_stop_def split: if_splits\<close>)
qed


end
