(* ===== verification/Modules.thy ===== *)
theory Modules
  imports Std_Map
begin

text \<open>
  \<^verbatim>\<open>ModuleManager.cc\<close>: loading, finding and unloading modules. The dynamic linker, the file system and the code of the
  modules are arguments; a module works on the rest of the server, which is a state of type \<open>'w\<close>.
\<close>

section \<open>State\<close>

text \<open>
  A shared library as \<^verbatim>\<open>dlopen\<close> finds it. \<open>id_symbol\<close> is \<^const>\<open>None\<close> when the symbol is missing, and \<^term>\<open>Some None\<close> when the
  function returns a null pointer; the load function may return a null module.
\<close>

record 'w dso =
  dso_handle :: nat
  id_symbol :: "string option option"
  load_symbol :: "('w \<Rightarrow> nat option \<times> 'w) option"
  unload_symbol :: "(nat option \<Rightarrow> 'w \<Rightarrow> 'w) option"
  module_init :: "nat \<Rightarrow> 'w \<Rightarrow> 'w"

record 'w linker =
  dl_open :: "string \<Rightarrow> 'w dso option"
  dl_close :: "nat \<Rightarrow> bool"

record 'w module_data =
  md_module :: "nat option"
  md_id :: string
  md_filename :: string
  md_dirpath :: string
  md_unload :: "nat option \<Rightarrow> 'w \<Rightarrow> 'w"
  md_handle :: nat

text \<open>\<open>opened\<close> collects the handles that were opened and not closed again.\<close>

record 'w module_manager =
  modules :: "'w module_data smap"
  module_paths :: "string list"
  opened :: "nat list"
  server :: 'w

text \<open>The constructor; \<open>tokenize\<close> is the utility library's, \<open>env_path\<close> the variable \<^verbatim>\<open>COGSERVER_MODULE_PATH\<close>.\<close>

definition new_module_manager ::
  "(string \<Rightarrow> string \<Rightarrow> string list) \<Rightarrow> string option \<Rightarrow> string \<Rightarrow> 'w \<Rightarrow> 'w module_manager" where
  "new_module_manager tokenize env_path prefix w =
     \<lparr>modules = [],
      module_paths =
        (case env_path of None \<Rightarrow> [] | Some e \<Rightarrow> filter (\<lambda>p. p \<noteq> []) (tokenize e '':'')) @ [prefix @ ''/lib/opencog/modules/''],
      opened = [], server = w\<rparr>"

section \<open>Loading\<close>

definition get_filename :: "string \<Rightarrow> string" where
  "get_filename fullpath =
     (case rfind_chr CHR ''/'' fullpath of Some path_sep \<Rightarrow> drop (path_sep + 1) fullpath | None \<Rightarrow> fullpath)"

definition get_filepath :: "string \<Rightarrow> string" where
  "get_filepath fullpath =
     (case rfind_chr CHR ''/'' fullpath of Some path_sep \<Rightarrow> take path_sep fullpath | None \<Rightarrow> fullpath)"

text \<open>The part after the symbols have been found.\<close>

definition install_module ::
  "string \<Rightarrow> string \<Rightarrow> ('w \<Rightarrow> nat option \<times> 'w) \<Rightarrow> (nat option \<Rightarrow> 'w \<Rightarrow> 'w) \<Rightarrow> 'w dso \<Rightarrow> ('w module_manager, bool) act" where
  "install_module path module_id load_func unload_func lib mm =
     (case load_func (server mm) of (module, w) \<Rightarrow>
        (let f = get_filename path;
             mdata = \<lparr>md_module = module, md_id = module_id, md_filename = f, md_dirpath = get_filepath path,
               md_unload = unload_func, md_handle = dso_handle lib\<rparr>;
             mm1 = mm\<lparr>modules := sm_put f mdata (sm_put module_id mdata (modules mm)), server := w\<rparr>
         in case module of
              None \<Rightarrow> (Inl Null_pointer, mm1)
            | Some m \<Rightarrow> (Inr True, mm1\<lparr>server := module_init lib m (server mm1)\<rparr>)))"

definition loadAbsPath :: "'w linker \<Rightarrow> string \<Rightarrow> ('w module_manager, bool) act" where
  "loadAbsPath dl path mm =
     (let fi = get_filename path
      in if sm_find fi (modules mm) \<noteq> None then (Inr True, mm)
      else case dl_open dl (c_str path) of
        None \<Rightarrow> (Inr False, mm)
      | Some lib \<Rightarrow>
          (let mm1 = mm\<lparr>opened := dso_handle lib # opened mm\<rparr>
           in case id_symbol lib of
                None \<Rightarrow> (Inr False, mm1)
              | Some None \<Rightarrow> (Inr False, mm1)
              | Some (Some module_id) \<Rightarrow>
                  (case load_symbol lib of
                     None \<Rightarrow> (Inr False, mm1)
                   | Some load_func \<Rightarrow>
                       (case unload_symbol lib of
                          None \<Rightarrow> (Inr False, mm1)
                        | Some unload_func \<Rightarrow> install_module path module_id load_func unload_func lib mm1))))"

text \<open>\<^verbatim>\<open>std::filesystem::path::operator/=\<close> with a relative right side.\<close>

definition path_join :: "string \<Rightarrow> string \<Rightarrow> string" where
  "path_join a b = (if a = [] \<or> last a = CHR ''/'' then a @ b else a @ ''/'' @ b)"

text \<open>
  \<^verbatim>\<open>loadModule\<close> calls itself with every path that exists; \<open>fuel\<close> bounds the depth of these calls, and \<^const>\<open>None\<close> means
  that it was not enough.
\<close>

fun loadModule :: "nat \<Rightarrow> 'w linker \<Rightarrow> (string \<Rightarrow> bool) \<Rightarrow> string \<Rightarrow> 'w module_manager \<Rightarrow> (bool res \<times> 'w module_manager) option"
  and load_loop :: "nat \<Rightarrow> 'w linker \<Rightarrow> (string \<Rightarrow> bool) \<Rightarrow> string \<Rightarrow> string list \<Rightarrow> 'w module_manager \<Rightarrow>
    (bool res \<times> 'w module_manager) option"
where
  "loadModule 0 dl exists path mm = None"
| "loadModule (Suc fuel) dl exists path mm =
     (if path = [] then Some (Inr False, mm)
      else if hd path = CHR ''/'' then Some (loadAbsPath dl path mm)
      else load_loop fuel dl exists path (module_paths mm) mm)"
| "load_loop fuel dl exists path [] mm = Some (Inr False, mm)"
| "load_loop fuel dl exists path (module_path # ps) mm =
     (let modulePath = path_join module_path path
      in if exists modulePath
         then (case loadModule fuel dl exists modulePath mm of
                 None \<Rightarrow> None
               | Some (Inl e, mm') \<Rightarrow> Some (Inl e, mm')
               | Some (Inr rc, mm') \<Rightarrow>
                   if rc then Some (Inr True, mm') else load_loop fuel dl exists path ps mm')
         else load_loop fuel dl exists path ps mm)"

text \<open>\<^verbatim>\<open>loadModules\<close>: the default modules, whose failure is only logged.\<close>

definition default_modules :: "string list" where
  "default_modules =
     [''libbuiltinreqs.so'', ''libtop-shell.so'', ''libscheme-shell.so'', ''libsexpr-shell.so'', ''libjson-shell.so'',
      ''libmcp-shell.so'', ''libpy-shell.so'']"

fun load_all :: "nat \<Rightarrow> 'w linker \<Rightarrow> (string \<Rightarrow> bool) \<Rightarrow> string list \<Rightarrow> 'w module_manager \<Rightarrow>
    (unit res \<times> 'w module_manager) option" where
  "load_all fuel dl exists [] mm = Some (Inr (), mm)"
| "load_all fuel dl exists (m # ms) mm =
     (case loadModule fuel dl exists m mm of
        None \<Rightarrow> None
      | Some (Inl e, mm') \<Rightarrow> Some (Inl e, mm')
      | Some (Inr rc, mm') \<Rightarrow> load_all fuel dl exists ms mm')"

definition loadModules :: "nat \<Rightarrow> 'w linker \<Rightarrow> (string \<Rightarrow> bool) \<Rightarrow> 'w module_manager \<Rightarrow>
    (unit res \<times> 'w module_manager) option" where
  "loadModules fuel dl exists mm = load_all fuel dl exists default_modules mm"

section \<open>Finding, listing and unloading\<close>

definition getModuleData :: "string \<Rightarrow> 'w module_manager \<Rightarrow> 'w module_data option" where
  "getModuleData moduleId mm = sm_find (get_filename moduleId) (modules mm)"

definition getModule :: "string \<Rightarrow> 'w module_manager \<Rightarrow> nat option" where
  "getModule moduleId mm = (case getModuleData moduleId mm of None \<Rightarrow> None | Some mdata \<Rightarrow> md_module mdata)"

text \<open>Left-justified in a field, as \<^verbatim>\<open>%-21s\<close> prints.\<close>

definition pad_right :: "nat \<Rightarrow> string \<Rightarrow> string" where
  "pad_right w s = s @ replicate (w - length s) CHR '' ''"

definition module_row :: "'w module_data \<Rightarrow> string" where
  "module_row mdata =
     (let tlen = length (md_dirpath mdata);
          trunc = (if 38 < tlen then ''...'' @ drop (tlen - 35) (md_dirpath mdata) else md_dirpath mdata)
      in snprintf 120 (pad_right 21 (c_str (md_id mdata)) @ '' '' @ pad_right 18 (c_str (md_filename mdata)) @ '' ''
           @ c_str trunc @ nl))"

definition listModules :: "'w module_manager \<Rightarrow> string" where
  "listModules mm =
     ''   Module Name           Library            Module Directory Path'' @ nl
     @ ''   -----------           -------            ---------------------'' @ nl
     @ concat (map (\<lambda>(module_id, mdata). if find_str ''.so'' module_id = None then [] else module_row mdata) (modules mm))"

definition erase_module :: "'w module_data \<Rightarrow> 'w module_manager \<Rightarrow> 'w module_manager" where
  "erase_module mdata mm =
     mm\<lparr>server := md_unload mdata (md_module mdata) (server mm),
        modules := snd (sm_erase (md_id mdata) (snd (sm_erase (md_filename mdata) (modules mm))))\<rparr>"

definition unloadModule :: "'w linker \<Rightarrow> string \<Rightarrow> 'w module_manager \<Rightarrow> bool \<times> 'w module_manager" where
  "unloadModule dl moduleId mm =
     (case getModuleData moduleId mm of
        None \<Rightarrow> (False, mm)
      | Some mdata \<Rightarrow>
          (case md_module mdata of
             None \<Rightarrow> (False, mm)
           | Some m \<Rightarrow>
               (let mm1 = erase_module mdata mm
                in if dl_close dl (md_handle mdata) then (True, mm1\<lparr>opened := remove1 (md_handle mdata) (opened mm1)\<rparr>)
                   else (False, mm1))))"

text \<open>The destructor: the keys are collected first, and looked up again because an earlier step may have erased them.\<close>

fun unload_keys :: "string list \<Rightarrow> 'w module_manager \<Rightarrow> 'w module_manager" where
  "unload_keys [] mm = mm"
| "unload_keys (k # ks) mm =
     unload_keys ks
       (case sm_find k (modules mm) of
          None \<Rightarrow> mm
        | Some mdata \<Rightarrow> erase_module mdata mm)"

definition module_manager_dtor :: "'w module_manager \<Rightarrow> 'w module_manager" where
  "module_manager_dtor mm = unload_keys (sm_keys (modules mm)) mm"

section \<open>Invariant\<close>

text \<open>A loaded module has two entries, under its id and under its file name, and there are no others.\<close>

definition mm_inv :: "'w module_manager \<Rightarrow> bool" where
  "mm_inv mm \<longleftrightarrow> sm_inv (modules mm)
     \<and> (\<forall>k d. sm_find k (modules mm) = Some d \<longrightarrow>
          (k = md_id d \<or> k = md_filename d) \<and> md_module d \<noteq> None
          \<and> sm_find (md_id d) (modules mm) = Some d \<and> sm_find (md_filename d) (modules mm) = Some d)"

definition loaded :: "'w module_manager \<Rightarrow> 'w module_data set" where
  "loaded mm = {d. \<exists>k. sm_find k (modules mm) = Some d}"

lemma mm_inv_new: "mm_inv (new_module_manager tokenize env prefix w)"
  by (simp add: mm_inv_def new_module_manager_def sm_inv_def sm_find_def)

lemma find_erase_module:
  "sm_inv (modules mm) \<Longrightarrow> sm_find k (modules (erase_module d mm)) =
     (if k = md_id d \<or> k = md_filename d then None else sm_find k (modules mm))"
  by (simp add: erase_module_def sm.find_erase sm.inv_erase)

lemma erase_module_inv:
  assumes "mm_inv mm" "sm_find k (modules mm) = Some d"
  shows "mm_inv (erase_module d mm)" "loaded (erase_module d mm) = loaded mm - {d}"
proof -
  have s: "sm_inv (modules mm)" using assms(1) by (simp add: mm_inv_def)
  have other: "k' \<noteq> md_id d \<and> k' \<noteq> md_filename d \<longleftrightarrow> d' \<noteq> d" if "sm_find k' (modules mm) = Some d'" for k' d'
    using assms that unfolding mm_inv_def by (metis option.inject)
  show "mm_inv (erase_module d mm)"
    using assms other unfolding mm_inv_def find_erase_module [OF s]
    by (auto simp: erase_module_def sm.inv_erase split: if_splits)
  show "loaded (erase_module d mm) = loaded mm - {d}"
    using assms other unfolding loaded_def find_erase_module [OF s] by (auto split: if_splits)
qed

section \<open>Results\<close>

lemma install_find:
  assumes "sm_inv (modules mm)" "sm_find i (modules mm) = None" "sm_find f (modules mm) = None"
  shows "sm_find k (sm_put f d (sm_put i d (modules mm))) = (if k = f \<or> k = i then Some d else sm_find k (modules mm))"
    "snd (sm_erase i (snd (sm_erase f (sm_put f d (sm_put i d (modules mm)))))) = modules mm"
proof -
  show f: "sm_find k (sm_put f d (sm_put i d (modules mm))) = (if k = f \<or> k = i then Some d else sm_find k (modules mm))" for k
    using assms(1) by (simp add: sm_find_put sm_put_inv)
  show "snd (sm_erase i (snd (sm_erase f (sm_put f d (sm_put i d (modules mm)))))) = modules mm"
    using assms by (intro sm_ext) (auto simp: sm.inv_erase sm_put_inv sm.find_erase f)
qed

text \<open>The manager after a module has been loaded.\<close>

definition new_data :: "string \<Rightarrow> 'w dso \<Rightarrow> string \<Rightarrow> (nat option \<Rightarrow> 'w \<Rightarrow> 'w) \<Rightarrow> nat \<Rightarrow> 'w module_data" where
  "new_data path lib i ul m = \<lparr>md_module = Some m, md_id = i, md_filename = get_filename path,
     md_dirpath = get_filepath path, md_unload = ul, md_handle = dso_handle lib\<rparr>"

lemma new_data_sel [simp]:
  "md_module (new_data path lib i ul m) = Some m" "md_id (new_data path lib i ul m) = i"
  "md_filename (new_data path lib i ul m) = get_filename path" "md_unload (new_data path lib i ul m) = ul"
  "md_handle (new_data path lib i ul m) = dso_handle lib"
  by (simp_all add: new_data_def)

definition with_module :: "string \<Rightarrow> 'w dso \<Rightarrow> 'w module_data \<Rightarrow> 'w \<Rightarrow> 'w module_manager \<Rightarrow> 'w module_manager" where
  "with_module path lib d w mm = mm\<lparr>opened := dso_handle lib # opened mm,
     modules := sm_put (get_filename path) d (sm_put (md_id d) d (modules mm)), server := w\<rparr>"

lemma load_installs:
  assumes "dl_open dl (c_str path) = Some lib" "id_symbol lib = Some (Some i)" "load_symbol lib = Some ld"
    "unload_symbol lib = Some ul" "ld (server mm) = (Some m, w)" "sm_find (get_filename path) (modules mm) = None"
  shows "loadAbsPath dl path mm = (Inr True, with_module path lib (new_data path lib i ul m) (module_init lib m w) mm)"
  using assms by (simp add: loadAbsPath_def install_module_def with_module_def new_data_def Let_def)

lemma with_module_inv:
  assumes "mm_inv mm" "sm_find i (modules mm) = None" "sm_find (get_filename path) (modules mm) = None"
  shows "mm_inv (with_module path lib (new_data path lib i ul m) w mm)"
proof -
  have s: "sm_inv (modules mm)" using assms(1) by (simp add: mm_inv_def)
  have old: "md_id d \<noteq> i \<and> md_id d \<noteq> get_filename path \<and> md_filename d \<noteq> i \<and> md_filename d \<noteq> get_filename path"
    if "sm_find k (modules mm) = Some d" for k d
    using assms that unfolding mm_inv_def by (metis option.distinct(1))
  show ?thesis
    using assms(1) old install_find(1) [OF s assms(2,3)] unfolding mm_inv_def with_module_def
    by (auto simp: sm_put_inv split: if_splits)
qed

text \<open>
  C24. Loading a library that has the three symbols and whose id and file name are not in use: the module is found under
  its id and under its path, and unloading it under either name gives back the manager as it was, with the library
  closed, after the module's own unload function has run.
\<close>

theorem module_load_unload:
  assumes inv: "mm_inv mm"
    and lib: "dl_open dl (c_str path) = Some lib" "id_symbol lib = Some (Some i)" "load_symbol lib = Some ld"
      "unload_symbol lib = Some ul" "ld (server mm) = (Some m, w)" "dl_close dl (dso_handle lib)"
    and fresh: "sm_find i (modules mm) = None" "sm_find (get_filename path) (modules mm) = None" "CHR ''/'' \<notin> set i"
  shows "\<exists>mm'. loadAbsPath dl path mm = (Inr True, mm') \<and> mm_inv mm'
     \<and> getModule i mm' = Some m \<and> getModule path mm' = Some m
     \<and> unloadModule dl i mm' = (True, mm\<lparr>server := ul (Some m) (module_init lib m w)\<rparr>)
     \<and> unloadModule dl path mm' = (True, mm\<lparr>server := ul (Some m) (module_init lib m w)\<rparr>)"
proof -
  let ?d = "new_data path lib i ul m"
  let ?mm = "with_module path lib ?d (module_init lib m w) mm"
  have s: "sm_inv (modules mm)" using inv by (simp add: mm_inv_def)
  note find = install_find [OF s fresh(1,2), where d = ?d]
  have gi: "get_filename i = i" using fresh(3) by (simp add: get_filename_def rfind_chr_None [THEN iffD2])
  have d: "getModuleData i ?mm = Some ?d" "getModuleData path ?mm = Some ?d"
    by (simp_all add: getModuleData_def gi with_module_def find(1))
  moreover have "unloadModule dl k ?mm = (True, mm\<lparr>server := ul (Some m) (module_init lib m w)\<rparr>)"
    if "getModuleData k ?mm = Some ?d" for k
    using that lib(6) find(2) by (simp add: unloadModule_def erase_module_def Let_def with_module_def)
  ultimately show ?thesis
    using load_installs [OF lib(1-5) fresh(2)] with_module_inv [OF inv fresh(1,2)] by (auto simp: getModule_def)
qed

lemma unload_keys_all:
  assumes "mm_inv mm" "{k. sm_find k (modules mm) \<noteq> None} \<subseteq> set ks"
  shows "\<exists>ds. distinct ds \<and> set ds = loaded mm
     \<and> unload_keys ks mm = mm\<lparr>modules := [], server := fold (\<lambda>d. md_unload d (md_module d)) ds (server mm)\<rparr>"
  using assms
proof (induction ks arbitrary: mm)
  case Nil
  then have "modules mm = []" by (intro sm_ext) (auto simp: mm_inv_def)
  then show ?case by (intro exI [of _ "[]"]) (auto simp: loaded_def)
next
  case (Cons k ks)
  show ?case
  proof (cases "sm_find k (modules mm)")
    case None
    with Cons.prems have "{k. sm_find k (modules mm) \<noteq> None} \<subseteq> set ks" by auto
    with Cons.IH [OF Cons.prems(1)] None show ?thesis by simp
  next
    case (Some d)
    let ?mm = "erase_module d mm"
    note e = erase_module_inv [OF Cons.prems(1) Some]
    have "k = md_id d \<or> k = md_filename d" "sm_inv (modules mm)" using Cons.prems(1) Some by (auto simp: mm_inv_def)
    then have "{k. sm_find k (modules ?mm) \<noteq> None} \<subseteq> set ks"
      using Cons.prems(2) by (auto simp: find_erase_module split: if_splits)
    from Cons.IH [OF e(1) this] obtain ds where ds: "distinct ds" "set ds = loaded mm - {d}"
      "unload_keys ks ?mm = ?mm\<lparr>modules := [], server := fold (\<lambda>d. md_unload d (md_module d)) ds (server ?mm)\<rparr>"
      using e(2) by auto
    moreover have "d \<in> loaded mm" using Some by (auto simp: loaded_def)
    ultimately show ?thesis using Some
      by (intro exI [of _ "d # ds"]) (auto simp: erase_module_def)
  qed
qed

text \<open>
  When the manager is destroyed, every loaded module is unloaded exactly once, although it stands in the table twice,
  and the table is empty.
\<close>

theorem dtor_unloads_each_once:
  assumes "mm_inv mm"
  shows "\<exists>ds. distinct ds \<and> set ds = loaded mm
     \<and> module_manager_dtor mm = mm\<lparr>modules := [], server := fold (\<lambda>d. md_unload d (md_module d)) ds (server mm)\<rparr>"
  unfolding module_manager_dtor_def using assms
  by (intro unload_keys_all) (simp_all add: mm_inv_def sm.keys_find)

text \<open>The search along absolute directories.\<close>

fun search_dirs :: "'w linker \<Rightarrow> (string \<Rightarrow> bool) \<Rightarrow> string \<Rightarrow> string list \<Rightarrow> ('w module_manager, bool) act" where
  "search_dirs dl ex path [] mm = (Inr False, mm)"
| "search_dirs dl ex path (p # ps) mm =
     (if ex (path_join p path)
      then (case loadAbsPath dl (path_join p path) mm of
              (Inr False, mm') \<Rightarrow> search_dirs dl ex path ps mm'
            | r \<Rightarrow> r)
      else search_dirs dl ex path ps mm)"

definition is_absolute :: "string \<Rightarrow> bool" where
  "is_absolute p \<longleftrightarrow> p \<noteq> [] \<and> hd p = CHR ''/''"

lemma join_absolute: "is_absolute p \<Longrightarrow> is_absolute (path_join p path)"
  by (auto simp: is_absolute_def path_join_def)

lemma load_absolute: "is_absolute path \<Longrightarrow> loadModule (Suc n) dl ex path mm = Some (loadAbsPath dl path mm)"
  by (simp add: is_absolute_def)

lemma load_loop_absolute:
  "list_all is_absolute ps \<Longrightarrow> load_loop (Suc n) dl ex path ps mm = Some (search_dirs dl ex path ps mm)"
  by (induction ps arbitrary: mm)
    (auto simp: load_absolute [OF join_absolute] Let_def simp del: loadModule.simps split: sum.splits prod.splits bool.splits)

text \<open>
  C25. When all directories of the search path are absolute, \<^verbatim>\<open>loadModule\<close> returns, and it has tried the existing files in
  the order of the directories until one could be loaded.
\<close>

theorem loadModule_returns:
  assumes "list_all is_absolute (module_paths mm)"
  shows "loadModule (Suc (Suc n)) dl ex path mm =
     Some (if path = [] then (Inr False, mm)
           else if is_absolute path then loadAbsPath dl path mm
           else search_dirs dl ex path (module_paths mm) mm)"
  by (simp add: is_absolute_def load_loop_absolute [OF assms])

text \<open>
  A relative directory on the search path is of no use: a module that exists only there is never loaded. The call
  with the joined path starts the same search again, which fails, or never returns.
\<close>

theorem relative_path_never_loads:
  assumes "list_all (\<lambda>p. is_absolute p \<longrightarrow> (\<forall>s. \<not> ex (path_join p s))) (module_paths mm)" "\<not> is_absolute path"
  shows "loadModule fuel dl ex path mm \<in> {None, Some (Inr False, mm)}"
  using assms(2)
proof (induction fuel arbitrary: path)
  case (Suc fuel)
  have loop: "load_loop fuel dl ex path ps mm \<in> {None, Some (Inr False, mm)}"
    if "list_all (\<lambda>p. is_absolute p \<longrightarrow> (\<forall>s. \<not> ex (path_join p s))) ps" for ps
    using that
  proof (induction ps)
    case (Cons p ps)
    show ?case
    proof (cases "ex (path_join p path)")
      case True
      with Cons.prems have "\<not> is_absolute p" by auto
      then have "\<not> is_absolute (path_join p path)"
        using Suc.prems by (cases p) (auto simp: is_absolute_def path_join_def)
      with Suc.IH [OF this] Cons show ?thesis by (auto simp: Let_def)
    qed (use Cons in simp)
  qed simp
  show ?case using loop [OF assms(1)] Suc.prems by (auto simp: is_absolute_def)
qed simp

text \<open>
  With the current directory as first entry, written as a dot, the search for a file that is there never returns:
  no depth of calls is enough.
\<close>

theorem dot_path_never_returns:
  assumes "module_paths mm = ''.'' # ps" "\<And>p. ex p \<Longrightarrow> ex (''./'' @ p)" "ex (''./'' @ path)"
    and "path \<noteq> []" "\<not> is_absolute path"
  shows "loadModule fuel dl ex path mm = None"
  using assms(3-)
proof (induction fuel arbitrary: path)
  case (Suc fuel)
  have j: "path_join ''.'' path = ''./'' @ path" by (simp add: path_join_def)
  have "loadModule fuel dl ex (''./'' @ path) mm = None"
    using Suc.prems assms(2) by (intro Suc.IH) (auto simp: is_absolute_def)
  with Suc.prems show ?case by (simp add: assms(1) j Let_def is_absolute_def)
qed simp

section \<open>The table stays well-formed\<close>

text \<open>
  The assumption that the comment in \<^verbatim>\<open>loadAbsPath\<close> states: a library is known by its file name, \<open>idof\<close> gives the id for each,
  different libraries have different ids, and no id is a file name. The load functions return a module.
\<close>

definition files :: "'w linker \<Rightarrow> string set" where
  "files dl = {get_filename p | p. dl_open dl p \<noteq> None}"

definition well_named :: "'w linker \<Rightarrow> (string \<Rightarrow> string) \<Rightarrow> bool" where
  "well_named dl idof \<longleftrightarrow>
     (\<forall>path lib i. dl_open dl path = Some lib \<longrightarrow> id_symbol lib = Some (Some i) \<longrightarrow> i = idof (get_filename path))
   \<and> (\<forall>path lib ld w. dl_open dl path = Some lib \<longrightarrow> load_symbol lib = Some ld \<longrightarrow> fst (ld w) \<noteq> None)
   \<and> inj_on idof (files dl) \<and> idof ` files dl \<inter> files dl = {}"

definition tidy :: "'w linker \<Rightarrow> (string \<Rightarrow> string) \<Rightarrow> 'w module_manager \<Rightarrow> bool" where
  "tidy dl idof mm \<longleftrightarrow> mm_inv mm \<and> list_all (\<lambda>p. CHR 0x00 \<notin> set p) (module_paths mm)
     \<and> (\<forall>k d. sm_find k (modules mm) = Some d \<longrightarrow> md_id d = idof (md_filename d) \<and> md_filename d \<in> files dl)"

lemma tidy_opened [simp]: "tidy dl idof (mm\<lparr>opened := hs\<rparr>) = tidy dl idof mm"
  by (simp add: tidy_def mm_inv_def)

lemma tidy_install:
  assumes wn: "well_named dl idof" and t: "tidy dl idof mm" and n: "sm_find (get_filename path) (modules mm) = None"
    and lib: "dl_open dl path = Some lib" "id_symbol lib = Some (Some i)"
  shows "tidy dl idof (with_module path lib (new_data path lib i ul m) w mm)"
proof -
  have i: "i = idof (get_filename path)" using wn lib by (simp add: well_named_def)
  have f: "get_filename path \<in> files dl" using lib(1) by (auto simp: files_def)
  have s: "sm_inv (modules mm)" using t by (simp add: tidy_def mm_inv_def)
  have free: "sm_find i (modules mm) = None"
  proof (rule ccontr)
    assume "sm_find i (modules mm) \<noteq> None"
    then obtain d where d: "sm_find i (modules mm) = Some d" by auto
    with t have k: "i = md_id d \<or> i = md_filename d" "sm_find (md_filename d) (modules mm) = Some d"
      "md_id d = idof (md_filename d)" "md_filename d \<in> files dl"
      by (auto simp: tidy_def mm_inv_def)
    have "i \<notin> files dl" using wn f i by (auto simp: well_named_def)
    with k i have "idof (md_filename d) = idof (get_filename path)" by auto
    with wn f k(4) have "md_filename d = get_filename path" by (auto simp: well_named_def inj_on_def)
    with k(2) n show False by simp
  qed
  have "mm_inv (with_module path lib (new_data path lib i ul m) w mm)"
    using with_module_inv [OF _ free n] t by (simp add: tidy_def)
  then show ?thesis
    using t i f install_find(1) [OF s free n] by (auto simp: tidy_def with_module_def)
qed

lemma loadAbsPath_tidy:
  assumes wn: "well_named dl idof" and t: "tidy dl idof mm" and nul: "CHR 0x00 \<notin> set path"
  shows "tidy dl idof (snd (loadAbsPath dl path mm))"
proof (cases "sm_find (get_filename path) (modules mm) = None \<and> dl_open dl path \<noteq> None")
  case False
  then show ?thesis using t nul by (auto simp: loadAbsPath_def Let_def)
next
  case True
  then obtain lib where n: "sm_find (get_filename path) (modules mm) = None" and lib: "dl_open dl path = Some lib" by auto
  show ?thesis
  proof (cases "\<exists>i ld ul. id_symbol lib = Some (Some i) \<and> load_symbol lib = Some ld \<and> unload_symbol lib = Some ul")
    case False
    then show ?thesis using t nul n lib by (auto simp: loadAbsPath_def Let_def split: option.splits)
  next
    case True
    then obtain i ld ul where l: "id_symbol lib = Some (Some i)" "load_symbol lib = Some ld" "unload_symbol lib = Some ul" by auto
    obtain m w where "ld (server mm) = (Some m, w)"
      using wn lib l(2) unfolding well_named_def by (metis option.exhaust prod.exhaust_sel)
    with load_installs [of dl path lib i ld ul mm m w] lib l n nul tidy_install [OF wn t n lib l(1)] show ?thesis by simp
  qed
qed

lemma loadModule_tidy:
  shows "well_named dl idof \<Longrightarrow> loadModule fuel dl ex path mm = Some (res, mm') \<Longrightarrow> tidy dl idof mm \<Longrightarrow> CHR 0x00 \<notin> set path
      \<Longrightarrow> tidy dl idof mm'"
    and "well_named dl idof \<Longrightarrow> load_loop fuel dl ex path ps mm = Some (res, mm') \<Longrightarrow> tidy dl idof mm \<Longrightarrow> CHR 0x00 \<notin> set path
      \<Longrightarrow> list_all (\<lambda>p. CHR 0x00 \<notin> set p) ps \<Longrightarrow> tidy dl idof mm'"
proof (induction fuel dl ex path mm and fuel dl ex path ps mm arbitrary: res mm' and res mm' rule: loadModule_load_loop.induct)
  case (2 fuel dl ex path mm)
  show ?case
  proof (cases "path \<noteq> [] \<and> hd path = CHR ''/''")
    case True
    with 2 loadAbsPath_tidy [of dl idof mm path] show ?thesis by auto
  next
    case False
    with 2 show ?thesis by (auto simp: tidy_def split: if_splits)
  qed
next
  case (4 fuel dl ex path p ps mm)
  have nul: "CHR 0x00 \<notin> set (path_join p path)" using "4.prems" by (auto simp: path_join_def)
  show ?case
  proof (cases "ex (path_join p path)")
    case True
    with "4.prems" obtain r1 mm1 where l: "loadModule fuel dl ex (path_join p path) mm = Some (r1, mm1)"
      by (auto simp: Let_def split: option.splits)
    have t: "tidy dl idof mm1" using "4.IH"(1) [OF refl True "4.prems"(1) l] "4.prems" nul by simp
    show ?thesis
    proof (cases "r1 = Inr False")
      case True
      with \<open>ex (path_join p path)\<close> l "4.prems" have "load_loop fuel dl ex path ps mm1 = Some (res, mm')" by (simp add: Let_def)
      with "4.IH"(2) [OF refl \<open>ex (path_join p path)\<close> l [unfolded True] refl refl] t "4.prems" show ?thesis by simp
    next
      case False
      with \<open>ex (path_join p path)\<close> l "4.prems" t show ?thesis by (auto simp: Let_def split: sum.splits bool.splits)
    qed
  qed (use 4 in \<open>auto simp: Let_def\<close>)
qed auto

lemma load_all_tidy:
  assumes "well_named dl idof"
  shows "load_all fuel dl ex ms mm = Some (res, mm') \<Longrightarrow> tidy dl idof mm \<Longrightarrow> list_all (\<lambda>p. CHR 0x00 \<notin> set p) ms \<Longrightarrow> tidy dl idof mm'"
proof (induction ms arbitrary: mm)
  case (Cons m ms)
  then obtain r1 mm1 where l: "loadModule fuel dl ex m mm = Some (r1, mm1)" by (auto split: option.splits)
  with loadModule_tidy(1) [OF assms l] Cons.prems have "tidy dl idof mm1" by simp
  with Cons l show ?case by (cases r1) auto
qed simp

lemma unloadModule_tidy:
  assumes "tidy dl idof mm"
  shows "tidy dl idof (snd (unloadModule dl i mm))"
proof (cases "getModuleData i mm")
  case (Some d)
  then have d: "sm_find (get_filename i) (modules mm) = Some d" by (simp add: getModuleData_def)
  have "mm_inv (erase_module d mm)" using erase_module_inv(1) [OF _ d] assms by (simp add: tidy_def)
  moreover have "sm_inv (modules mm)" using assms by (simp add: tidy_def mm_inv_def)
  ultimately have "tidy dl idof (erase_module d mm)"
    using assms by (auto simp: tidy_def find_erase_module split: if_splits) (simp add: erase_module_def)
  with Some assms show ?thesis by (auto simp: unloadModule_def Let_def split: option.splits)
qed (use assms in \<open>simp add: unloadModule_def\<close>)

text \<open>What the rest of the server does to the module table, in any order.\<close>

inductive mm_step for dl ex where
  load: "CHR 0x00 \<notin> set path \<Longrightarrow> loadModule fuel dl ex path mm = Some (res, mm') \<Longrightarrow> mm_step dl ex mm mm'"
| load_default: "loadModules fuel dl ex mm = Some (res, mm') \<Longrightarrow> mm_step dl ex mm mm'"
| unload: "mm_step dl ex mm (snd (unloadModule dl i mm))"

text \<open>
  C23. Whatever modules are loaded and unloaded, in whatever order and whether that succeeds or not: the table holds every
  loaded module under its id and under its file name, with the same data, and nothing else.
\<close>

theorem module_table_wf:
  assumes "well_named dl idof" "mm0 = new_module_manager tokenize env prefix w"
    and "list_all (\<lambda>p. CHR 0x00 \<notin> set p) (module_paths mm0)" "(mm_step dl ex)\<^sup>*\<^sup>* mm0 mm"
  shows "mm_inv mm"
proof -
  have "tidy dl idof mm0"
    using assms(3) unfolding assms(2) by (simp add: tidy_def mm_inv_new) (simp add: new_module_manager_def)
  with assms(4) have "tidy dl idof mm"
  proof (induction rule: rtranclp_induct)
    case (step y z)
    have d: "list_all (\<lambda>p. CHR 0x00 \<notin> set p) default_modules" by (simp add: default_modules_def)
    from step.hyps(2) step.IH [OF step.prems] show ?case
      by cases (auto intro: loadModule_tidy(1) [OF assms(1)] load_all_tidy [OF assms(1) _ _ d] unloadModule_tidy simp: loadModules_def)
  qed simp
  then show ?thesis by (simp add: tidy_def)
qed

section \<open>A concrete module\<close>

text \<open>The server is a list of what happened; one library is installed.\<close>

definition demo_lib :: "string list dso" where
  "demo_lib =
     \<lparr>dso_handle = 7, id_symbol = Some (Some ''DemoModule''), load_symbol = Some (\<lambda>w. (Some 1, w @ [''load''])),
      unload_symbol = Some (\<lambda>m w. w @ [''unload'']), module_init = (\<lambda>m w. w @ [''init''])\<rparr>"

definition demo_linker :: "string list linker" where
  "demo_linker = \<lparr>dl_open = (\<lambda>p. if p = ''/m/libdemo.so'' then Some demo_lib else None), dl_close = (\<lambda>h. True)\<rparr>"

definition demo_manager :: "string option \<Rightarrow> string list module_manager" where
  "demo_manager env = new_module_manager (\<lambda>s d. [s]) env ''/usr'' []"

theorem module_load_unload_witness:
  "\<exists>mm'. loadAbsPath demo_linker ''/m/libdemo.so'' (demo_manager None) = (Inr True, mm') \<and> mm_inv mm'
     \<and> getModule ''DemoModule'' mm' = Some 1 \<and> getModule ''/m/libdemo.so'' mm' = Some 1
     \<and> unloadModule demo_linker ''DemoModule'' mm' =
       (True, (demo_manager None)\<lparr>server := (\<lambda>m w. w @ [''unload'']) (Some (1::nat)) (module_init demo_lib 1 [''load''])\<rparr>)
     \<and> unloadModule demo_linker ''/m/libdemo.so'' mm' =
       (True, (demo_manager None)\<lparr>server := (\<lambda>m w. w @ [''unload'']) (Some (1::nat)) (module_init demo_lib 1 [''load''])\<rparr>)"
  by (rule module_load_unload [where ld = "\<lambda>w. (Some 1, w @ [''load''])"])
    (simp_all add: demo_manager_def mm_inv_new, simp_all add: demo_linker_def demo_lib_def new_module_manager_def c_str_def)

definition demo_loaded :: "string list module_manager" where
  "demo_loaded = snd (loadAbsPath demo_linker ''/m/libdemo.so'' (demo_manager None))"

theorem dtor_unloads_each_once_witness:
  "\<exists>ds. distinct ds \<and> set ds = loaded demo_loaded
     \<and> module_manager_dtor demo_loaded =
       demo_loaded\<lparr>modules := [], server := fold (\<lambda>d. md_unload d (md_module d)) ds (server demo_loaded)\<rparr>"
proof (rule dtor_unloads_each_once)
  have "mm_inv (demo_manager None)" by (simp add: demo_manager_def mm_inv_new)
  then have "mm_inv (with_module ''/m/libdemo.so'' demo_lib
      (new_data ''/m/libdemo.so'' demo_lib ''DemoModule'' (\<lambda>m w. w @ [''unload'']) 1) [''load'', ''init''] (demo_manager None))"
    by (rule with_module_inv) (simp_all add: demo_manager_def new_module_manager_def)
  moreover have "demo_loaded = with_module ''/m/libdemo.so'' demo_lib
      (new_data ''/m/libdemo.so'' demo_lib ''DemoModule'' (\<lambda>m w. w @ [''unload'']) 1) [''load'', ''init''] (demo_manager None)"
    unfolding demo_loaded_def
    by (subst load_installs [where lib = demo_lib and i = "''DemoModule''" and ld = "\<lambda>w. (Some 1, w @ [''load''])"
          and ul = "\<lambda>m w. w @ [''unload'']" and m = 1 and w = "[''load'']"])
      (simp_all add: demo_linker_def demo_lib_def demo_manager_def new_module_manager_def c_str_def)
  ultimately show "mm_inv demo_loaded" by simp
qed

theorem loadModule_returns_witness:
  "loadModule (Suc (Suc 0)) demo_linker (\<lambda>p. True) ''libdemo.so'' (demo_manager (Some ''/m'')) =
     Some (if ''libdemo.so'' = [] then (Inr False, demo_manager (Some ''/m''))
           else if is_absolute ''libdemo.so'' then loadAbsPath demo_linker ''libdemo.so'' (demo_manager (Some ''/m''))
           else search_dirs demo_linker (\<lambda>p. True) ''libdemo.so'' (module_paths (demo_manager (Some ''/m'')))
                  (demo_manager (Some ''/m'')))"
  by (rule loadModule_returns) (simp add: demo_manager_def new_module_manager_def is_absolute_def)

theorem relative_path_never_loads_witness:
  "loadModule 5 demo_linker (\<lambda>p. p = ''m/libdemo.so'') ''libdemo.so'' (demo_manager (Some ''m''))
     \<in> {None, Some (Inr False, demo_manager (Some ''m''))}"
  by (rule relative_path_never_loads)
    (auto simp: demo_manager_def new_module_manager_def is_absolute_def path_join_def)

theorem dot_path_never_returns_witness:
  "loadModule 5 demo_linker (\<lambda>p. get_filename p = ''libdemo.so'') ''libdemo.so'' (demo_manager (Some ''.'')) = None"
proof (rule dot_path_never_returns)
  show "get_filename p = ''libdemo.so'' \<Longrightarrow> get_filename (''./'' @ p) = ''libdemo.so''" for p
    by (auto simp: get_filename_def split: option.splits)
qed (simp_all add: demo_manager_def new_module_manager_def is_absolute_def get_filename_def)

theorem module_table_wf_witness: "mm_inv demo_loaded"
proof (rule module_table_wf)
  show "demo_manager None = new_module_manager (\<lambda>s d. [s]) None ''/usr'' []" by (simp add: demo_manager_def)
  show "list_all (\<lambda>p. CHR 0x00 \<notin> set p) (module_paths (demo_manager None))"
    by (simp add: demo_manager_def new_module_manager_def)
  show "well_named demo_linker (\<lambda>f. ''DemoModule'')"
    by (auto simp: well_named_def files_def demo_linker_def demo_lib_def get_filename_def inj_on_def split: if_splits)
  have "loadModule 1 demo_linker (\<lambda>p. True) ''/m/libdemo.so'' (demo_manager None) =
      Some (loadAbsPath demo_linker ''/m/libdemo.so'' (demo_manager None))"
    by simp
  then have "mm_step demo_linker (\<lambda>p. True) (demo_manager None) demo_loaded"
    by (intro mm_step.load [of "''/m/libdemo.so''" 1 _ _ _ "fst (loadAbsPath demo_linker ''/m/libdemo.so'' (demo_manager None))"])
      (simp_all add: demo_loaded_def)
  then show "(mm_step demo_linker (\<lambda>p. True))\<^sup>*\<^sup>* (demo_manager None) demo_loaded" by simp
qed

end
