(* ===== verification/Builtin.thy ===== *)
theory Builtin
  imports Server_Loop Modules
begin

text \<open>
  The commands of \<^verbatim>\<open>BuiltinRequestsModule.cc\<close>, \<^verbatim>\<open>ModuleManagement.cc\<close> and \<^verbatim>\<open>ShutdownRequest.cc\<close>, and the statistics of the server
  that some of them print.
\<close>

section \<open>Statistics\<close>

text \<open>\<^verbatim>\<open>CogServer::display_stats\<close> and \<^verbatim>\<open>display_web_stats\<close>; \<open>full\<close> is \<^verbatim>\<open>display_stats_full\<close> of the socket manager.\<close>

definition cs_display_stats ::
  "(string \<Rightarrow> int \<Rightarrow> int \<Rightarrow> sock_list \<Rightarrow> string res \<times> sock_list) \<Rightarrow> int \<Rightarrow> 'q cog_server \<Rightarrow> sock_list \<Rightarrow> string res \<times> sock_list" where
  "cs_display_stats full nlines s l =
     (case consoleServer s of
        Some ns \<Rightarrow> full (ns_name ns) (ns_start_time ns) nlines l
      | None \<Rightarrow> (Inr ''Console server is not running'', l))"

definition display_web_stats ::
  "(string \<Rightarrow> int \<Rightarrow> int \<Rightarrow> sock_list \<Rightarrow> string res \<times> sock_list) \<Rightarrow> 'q cog_server \<Rightarrow> sock_list \<Rightarrow> string res \<times> sock_list" where
  "display_web_stats full s l =
     (case webServer s of
        Some ns \<Rightarrow> full (ns_name ns) (ns_start_time ns) (- 1) l
      | None \<Rightarrow> (Inr ''Web server is not running'', l))"

definition stats_legend :: string where
  "stats_legend = concat (map (\<lambda>l. l @ nl)
     [''The current date in UTC is printed, followed by:'',
      ''  up-since: the date when the server was started.'',
      ''  last: the date when the most recent connection was opened.'',
      ''  tot-cnct: grand total number of network connections opened.'',
      ''  cur-open-socks: number of currently open connections.'',
      ''  num-open-fds: number of open file descriptors.'',
      ''  stalls: times that open stalled due to hitting max-open-cnt.'',
      ''  tot-lines: total number of newlines received by all shells.'',
      ''  cpu user sys: number of CPU seconds used by server.'',
      ''  maxrss: resident set size, in KB. Taken from `getrusage`.'',
      [],
      ''The table shows a list of the currently open connections.'',
      ''The table header has the following form:'',
      ''OPEN-DATE THREAD STATE NLINE LAST-ACTIVITY K U SHEL QZ E PENDG'',
      ''The columns are:'',
      ''  OPEN-DATE -- when the connection was opened.'',
      ''  THREAD -- the Linux thread-id, as printed by `ps -eLf`'',
      ''  STATE -- several states possible; `iwait` means waiting for input.'',
      ''  NLINE -- number of newlines received by the shell.'',
      ''  LAST-ACTIVITY -- the last time anything was received.'',
      ''  K -- socket kind. `T` for telnet, `W` for WebSocket,'',
      ''                    `H` for http, 'M' for MCP.'',
      ''  U -- use count. The number of active handlers for the socket.'',
      ''  SHEL -- the current shell processor for the socket.'',
      ''  QZ -- size of the unprocessed (pending) request queue.'',
      ''  E -- `T` if the shell evaluator is running, else `F`.'',
      ''  PENDG -- number of bytes of output not yet sent.'',
      []])"

section \<open>The commands\<close>

definition command_info :: "string \<Rightarrow> string \<Rightarrow> string list \<Rightarrow> bool \<Rightarrow> RequestClassInfo" where
  "command_info i d h hide =
     \<lparr>rci_id = i, description = d, rci_help = concat (map (\<lambda>l. l @ nl) h), is_shell = False, hidden = hide\<rparr>"

definition close_help :: "string \<Rightarrow> string list" where
  "close_help usage = [''Usage: '' @ usage, [], ''Close the shell TCP/IP connection.'']"

definition menu_help :: "string \<Rightarrow> string list" where
  "menu_help name = [''Usage: '' @ name @ '' [<command>]'', [], ''If no command is specified, then print a menu of commands.'',
     ''Otherwise, print verbose help for the indicated command.'']"

definition iaceof :: string where
  "iaceof = [CHR 0xFF, CHR 0xEC]"

definition ctrld :: string where
  "ctrld = [CHR 0x04]"

text \<open>The usage text of \<^verbatim>\<open>shutdown\<close> has no newline at its end.\<close>

definition shutdown_info :: RequestClassInfo where
  "shutdown_info = \<lparr>rci_id = ''shutdown'', description = ''Shut down the cogserver'',
     rci_help = ''Usage: shutdown'' @ nl @ nl @ ''Halt the cogserver in an  orderly fashion'', is_shell = False, hidden = False\<rparr>"

definition list_info :: RequestClassInfo where
  "list_info = command_info ''list'' ''List the currently loaded cogserver modules''
     [''Usage: list'', [], ''List modules currently loaded into the cogserver.''] False"

definition load_info :: RequestClassInfo where
  "load_info = command_info ''load'' ''Load a cogserver module''
     [''Usage: load <module>'', [], ''Load the named cogserver module. The module name must be'',
      ''specified as the shared-library filename. The full directory'', ''path, starting with a leading slash, must be provided!''] False"

definition unload_info :: RequestClassInfo where
  "unload_info = command_info ''unload'' ''Unload an opencog module''
     [''Usage: unload <module>'', [], ''Unload the indicated module. The module can be specified'',
      ''either as the shared-lib filename, or as the module id.'', ''Both of these are shown by the `list` command.''] False"

definition menu_info :: "string \<Rightarrow> bool \<Rightarrow> RequestClassInfo" where
  "menu_info name hide =
     command_info name ''List the available commands; print help for a specific command'' (menu_help name) hide"

definition close_info :: "string \<Rightarrow> string \<Rightarrow> bool \<Rightarrow> RequestClassInfo" where
  "close_info name usage hide = command_info name ''Close the shell connection'' (close_help usage) hide"

definition stats_info :: RequestClassInfo where
  "stats_info = \<lparr>rci_id = ''stats'', description = ''Print some diagnostic statistics about the server.'',
     rci_help = ''Usage: stats'' @ nl @ nl @ stats_legend, is_shell = False, hidden = False\<rparr>"

text \<open>In the order in which the constructor registers them, and the names in the order in which the destructor goes.\<close>

definition builtin_infos :: "RequestClassInfo list" where
  "builtin_infos =
     [shutdown_info, list_info, load_info, unload_info, menu_info ''help'' False, menu_info ''h'' True,
      close_info ''exit'' ''exit'' True, close_info ''quit'' ''quit'' False, close_info ''q'' ''q'' True,
      close_info ctrld ''^D'' True, close_info iaceof ''^D'' True, close_info ''.'' ''.'' True, stats_info]"

definition unregister_order :: "string list" where
  "unregister_order = [''help'', ''h'', ''exit'', ''quit'', ''q'', ctrld, iaceof, ''.'', ''stats'', ''shutdown'', ''list'', ''load'', ''unload'']"

definition register_all :: "RequestClassInfo list \<Rightarrow> 'q request_manager \<Rightarrow> 'q request_manager" where
  "register_all fs m = fold (\<lambda>f m. snd (registerRequest (rci_id f) f m)) fs m"

definition unregister_all :: "string list \<Rightarrow> 'q request_manager \<Rightarrow> 'q request_manager" where
  "unregister_all ns m = fold (\<lambda>n m. snd (unregisterRequest n m)) ns m"

definition builtin_module_ctor :: "'q request_manager \<Rightarrow> 'q request_manager" where
  "builtin_module_ctor m = register_all builtin_infos m"

definition builtin_module_dtor :: "'q request_manager \<Rightarrow> 'q request_manager" where
  "builtin_module_dtor m = unregister_all unregister_order m"

subsection \<open>Closing the connection\<close>

definition do_exit :: do_cmd where
  "do_exit rc =
     (case rc of (r, cs) \<Rightarrow>
        (case rq_console r of
           None \<Rightarrow> (Inl Assert_fail, r, cs)
         | Some con \<Rightarrow> (case set_console None (r, con_exit con cs) of (res, rc') \<Rightarrow> (map_sum id (\<lambda>_. []) res, rc'))))"

subsection \<open>Help\<close>

abbreviation esc :: "string \<Rightarrow> string" where
  "esc code \<equiv> CHR 0x1B # CHR ''['' # code"

definition ansi_name :: "string \<Rightarrow> string" where
  "ansi_name cmdname = esc ''32m'' @ esc ''1m'' @ cmdname @ esc ''0m'' @ esc ''32m'' @ '':'' @ esc ''0m''"

definition help_row :: "nat \<Rightarrow> string \<Rightarrow> string \<Rightarrow> string" where
  "help_row maxl cmdname desc =
     (let ansi_cmdname = ansi_name cmdname;
          ansi_code_length = length (c_str ansi_cmdname) - length cmdname
      in ''  '' @ pad_right (maxl + ansi_code_length + 2) ansi_cmdname @ desc @ nl)"

definition do_help_text :: "'q request_manager \<Rightarrow> string list \<Rightarrow> string" where
  "do_help_text m args =
     (case args of
        [] \<Rightarrow>
          (let commands = requestIds m;
               maxl = fold (\<lambda>c maxl. max maxl (length c)) commands 0
           in ''Available commands:'' @ nl
              @ concat (map (\<lambda>c. help_row maxl c (description (requestInfo c m)))
                  (filter (\<lambda>c. \<not> hidden (requestInfo c m)) commands)))
      | [arg] \<Rightarrow> (let cci = requestInfo arg m in if rci_help cci \<noteq> [] then rci_help cci @ nl else [])
      | _ \<Rightarrow> rci_help (menu_info ''help'' False) @ nl)"

definition do_help :: "'q request_manager \<Rightarrow> do_cmd" where
  "do_help m rc = (Inr (do_help_text m (parameters (fst rc))), rc)"

subsection \<open>Modules and shutdown\<close>

definition list_execute :: "'w module_manager \<Rightarrow> request \<times> consoles \<Rightarrow> request \<times> consoles" where
  "list_execute mm rc = (case rc of (r, cs) \<Rightarrow> (r, req_send (listModules mm) r cs))"

text \<open>\<open>result\<close> is what the manager says; \<open>verb\<close> is \<^verbatim>\<open>load\<close> or \<^verbatim>\<open>unload\<close>.\<close>

definition module_reply :: "string \<Rightarrow> string \<Rightarrow> bool \<Rightarrow> string" where
  "module_reply verb filename result =
     (if result then ''done'' @ nl
      else ''Unable to '' @ verb @ '' module '' @ [CHR 0x22] @ filename @ [CHR 0x22] @ ''. Check the server logs for details.'' @ nl)"

definition load_execute ::
  "nat \<Rightarrow> 'w linker \<Rightarrow> (string \<Rightarrow> bool) \<Rightarrow> request \<times> consoles \<Rightarrow> 'w module_manager \<Rightarrow>
   (unit res \<times> (request \<times> consoles) \<times> 'w module_manager) option" where
  "load_execute fuel dl ex rc mm =
     (case rc of (r, cs) \<Rightarrow>
        (case parameters r of
           [] \<Rightarrow> Some (Inr (), (r, req_send (''invalid syntax: load <filename>'' @ nl) r cs), mm)
         | filename # _ \<Rightarrow>
             (case loadModule fuel dl ex filename mm of
                None \<Rightarrow> None
              | Some (Inl e, mm1) \<Rightarrow> Some (Inl e, (r, cs), mm1)
              | Some (Inr ok, mm1) \<Rightarrow> Some (Inr (), (r, req_send (module_reply ''load'' filename ok) r cs), mm1))))"

definition unload_execute ::
  "'w linker \<Rightarrow> request \<times> consoles \<Rightarrow> 'w module_manager \<Rightarrow> (request \<times> consoles) \<times> 'w module_manager" where
  "unload_execute dl rc mm =
     (case rc of (r, cs) \<Rightarrow>
        (case parameters r of
           [] \<Rightarrow> ((r, req_send (''invalid syntax: unload <filename> | <module id>'' @ nl) r cs), mm)
         | filename # _ \<Rightarrow>
             (case unloadModule dl filename mm of
                (ok, mm1) \<Rightarrow> ((r, req_send (module_reply ''unload'' filename ok) r cs), mm1))))"

text \<open>What the shutdown command does to its console; the call of \<^verbatim>\<open>stop\<close> is part of \<^const>\<open>serve_one\<close>.\<close>

definition shutdown_execute :: "request \<times> consoles \<Rightarrow> unit res \<times> request \<times> consoles" where
  "shutdown_execute rc =
     (case rc of (r, cs) \<Rightarrow>
        let cs1 = req_send (''Shutting down cogserver'' @ nl) r cs
        in case rq_console r of
             None \<Rightarrow> (Inl Assert_fail, r, cs1)
           | Some con \<Rightarrow> (case set_console None (r, cs1) of (res, r1, cs2) \<Rightarrow> (res, r1, con_exit con cs2)))"

subsection \<open>Dispatch\<close>

text \<open>
  The virtual \<^verbatim>\<open>execute\<close>: \<open>module\<close> is the module with the commands, \<open>stats\<close> the text of the statistics, \<open>other\<close> the commands
  of the other modules.
\<close>

record ('q, 'w) command_env =
  ce_module :: "nat option"
  ce_manager :: "'q request_manager"
  ce_modules :: "'w module_manager"
  ce_linker :: "'w linker"
  ce_exists :: "string \<Rightarrow> bool"
  ce_fuel :: nat
  ce_stats :: string
  ce_other :: "request \<Rightarrow> request \<times> consoles \<Rightarrow> request \<times> consoles"

definition closing :: "string list" where
  "closing = [''exit'', ''quit'', ''q'', ctrld, iaceof, ''.'']"

definition builtin_execute :: "('q, 'w) command_env \<Rightarrow> request \<Rightarrow> request \<times> consoles \<Rightarrow> request \<times> consoles" where
  "builtin_execute env r rc =
     (let i = rci_id (rq_info r)
      in if i \<in> set closing then snd (cmd_execute (ce_module env) do_exit rc)
         else if i = ''shutdown'' then snd (shutdown_execute rc)
         else if i = ''help'' \<or> i = ''h'' then snd (cmd_execute (ce_module env) (do_help (ce_manager env)) rc)
         else if i = ''stats'' then snd (cmd_execute (ce_module env) (\<lambda>rc. (Inr (ce_stats env), rc)) rc)
         else if i = ''list'' then list_execute (ce_modules env) rc
         else if i = ''load''
         then (case load_execute (ce_fuel env) (ce_linker env) (ce_exists env) rc (ce_modules env) of
                 None \<Rightarrow> rc | Some (_, rc', _) \<Rightarrow> rc')
         else if i = ''unload'' then fst (unload_execute (ce_linker env) rc (ce_modules env))
         else ce_other env r rc)"

section \<open>Registration\<close>

lemma register_fold:
  assumes "sm_inv (factories m)" "distinct (map rci_id fs)" "list_all (\<lambda>f. sm_find (rci_id f) (factories m) = None) fs"
  shows "sm_inv (factories (register_all fs m)) \<and> register_all fs m = m\<lparr>factories := factories (register_all fs m)\<rparr>
    \<and> (\<forall>k. sm_find k (factories (register_all fs m)) = (case map_of (map (\<lambda>f. (rci_id f, f)) fs) k of Some f \<Rightarrow> Some f | None \<Rightarrow> sm_find k (factories m)))"
  using assms unfolding register_all_def
proof (induction fs arbitrary: m)
  case (Cons f fs)
  let ?m = "snd (registerRequest (rci_id f) f m)"
  have m: "?m = m\<lparr>factories := snd (sm_insert (rci_id f) f (factories m))\<rparr>"
    by (simp add: registerRequest_def split: prod.splits)
  have n: "sm_find (rci_id f) (factories m) = None" using Cons.prems(3) by simp
  have find: "sm_find k (snd (sm_insert (rci_id f) f (factories m))) = (if k = rci_id f then Some f else sm_find k (factories m))" for k
    using sm.find_insert [OF Cons.prems(1)] n by simp
  have inv: "sm_inv (factories ?m)" using sm.inv_insert [OF Cons.prems(1)] by (simp add: m)
  have free: "list_all (\<lambda>g. sm_find (rci_id g) (factories ?m) = None) fs"
    using Cons.prems(2,3) by (auto simp: m find list_all_iff image_iff)
  have "map_of (map (\<lambda>f. (rci_id f, f)) fs) (rci_id f) = None"
    using Cons.prems(2) by (auto simp: map_of_eq_None_iff)
  with Cons.IH [OF inv _ free] Cons.prems(2) show ?case
    by (auto simp: find m split: option.splits)
qed simp

lemma unregister_fold:
  assumes "sm_inv (factories m)"
  shows "sm_inv (factories (unregister_all ns m)) \<and> unregister_all ns m = m\<lparr>factories := factories (unregister_all ns m)\<rparr>
    \<and> (\<forall>k. sm_find k (factories (unregister_all ns m)) = (if k \<in> set ns then None else sm_find k (factories m)))"
  using assms unfolding unregister_all_def
proof (induction ns arbitrary: m)
  case (Cons n ns)
  let ?m = "snd (unregisterRequest n m)"
  have m: "?m = m\<lparr>factories := snd (sm_erase n (factories m))\<rparr>"
    by (simp add: unregisterRequest_def split: prod.splits)
  with sm.inv_erase [OF Cons.prems] have "sm_inv (factories ?m)" by simp
  from Cons.IH [OF this] sm.find_erase [OF Cons.prems] show ?case by (auto simp: m)
qed simp

lemma register_creates:
  assumes "sm_inv (factories m)" "distinct (map rci_id fs)" "list_all (\<lambda>f. sm_find (rci_id f) (factories m) = None) fs"
  shows "list_all (\<lambda>f. createRequest (rci_id f) (register_all fs m) = Some (factory_create f)) fs"
proof -
  have "map_of (map (\<lambda>f. (rci_id f, f)) fs) (rci_id f) = Some f" if "f \<in> set fs" for f
    using that assms(2) by (intro map_of_is_SomeI) (auto simp: comp_def)
  with register_fold [OF assms] show ?thesis by (simp add: list_all_iff createRequest_def)
qed

lemma unregister_registered:
  assumes "sm_inv (factories m)" "distinct (map rci_id fs)" "list_all (\<lambda>f. sm_find (rci_id f) (factories m) = None) fs"
    and "set ns = rci_id ` set fs"
  shows "unregister_all ns (register_all fs m) = m"
proof -
  let ?m = "register_all fs m"
  let ?d = "unregister_all ns ?m"
  note reg = register_fold [OF assms(1-3)]
  note unreg = unregister_fold [of ?m ns]
  have "sm_find k (factories ?d) = sm_find k (factories m)" for k
  proof (cases "k \<in> rci_id ` set fs")
    case True
    with reg unreg assms(3,4) show ?thesis by (auto simp: list_all_iff)
  next
    case False
    then have "map_of (map (\<lambda>f. (rci_id f, f)) fs) k = None" by (simp add: map_of_eq_None_iff image_image)
    with False reg unreg assms(4) show ?thesis by simp
  qed
  then have "factories ?d = factories m" using reg unreg assms(1) by (intro sm_ext) auto
  moreover have "?d = m\<lparr>factories := factories ?d\<rparr>" using reg unreg by (metis request_manager.surjective request_manager.update_convs(1))
  ultimately show ?thesis by simp
qed

lemma builtin_names:
  "distinct (map rci_id builtin_infos)" "set unregister_order = rci_id ` set builtin_infos"
  by (auto simp: builtin_infos_def unregister_order_def shutdown_info_def list_info_def load_info_def unload_info_def
      menu_info_def close_info_def stats_info_def command_info_def ctrld_def iaceof_def)

text \<open>
  Loading the module with the built-in commands makes all thirteen available, each under its name with its own
  description, and its destructor gives the command table back as it was, if none of the names was in use.
\<close>

theorem builtin_registered:
  assumes "sm_inv (factories m)" "list_all (\<lambda>f. createRequest (rci_id f) m = None) builtin_infos"
  shows "list_all (\<lambda>f. createRequest (rci_id f) (builtin_module_ctor m) = Some (factory_create f)) builtin_infos
    \<and> builtin_module_dtor (builtin_module_ctor m) = m"
proof -
  have free: "list_all (\<lambda>f. sm_find (rci_id f) (factories m) = None) builtin_infos"
    using assms(2) by (simp add: createRequest_def)
  show ?thesis
    using register_creates [OF assms(1) builtin_names(1) free] unregister_registered [OF assms(1) builtin_names(1) free builtin_names(2)]
    by (simp add: builtin_module_ctor_def builtin_module_dtor_def)
qed

abbreviation bare_manager :: "unit request_manager" where
  "bare_manager \<equiv> \<lparr>factories = [(''scm'', emptyClassInfo)], requestQueue = (), rm_consoles = (\<lambda>_. idle_console)\<rparr>"

lemma bare_manager_free: "list_all (\<lambda>f. createRequest (rci_id f) bare_manager = None) builtin_infos"
  by (simp add: builtin_infos_def shutdown_info_def list_info_def load_info_def unload_info_def menu_info_def close_info_def
      stats_info_def command_info_def ctrld_def iaceof_def createRequest_def sm_find_def)

theorem builtin_registered_witness:
  "list_all (\<lambda>f. createRequest (rci_id f) (builtin_module_ctor bare_manager) = Some (factory_create f)) builtin_infos
    \<and> builtin_module_dtor (builtin_module_ctor bare_manager) = bare_manager"
  by (rule builtin_registered [OF _ bare_manager_free]) (simp add: sm_inv_def)

section \<open>The commands and their console\<close>

text \<open>
  A command leaves its console attached with all use counts as they were, or has given it back; then the count is
  right after the request has been deleted.
\<close>

definition settles :: "nat \<Rightarrow> consoles \<Rightarrow> request \<times> consoles \<Rightarrow> bool" where
  "settles a cs rc \<longleftrightarrow>
     rq_console (fst rc) = Some a \<and> (\<forall>b. rc_use_count (snd rc b) = rc_use_count (cs b))
   \<or> rq_console (fst rc) = None
       \<and> (\<forall>b. rc_use_count (snd rc b) = (if b = a then rc_use_count (cs b) - 1 else rc_use_count (cs b)))"

lemma settles_balanced:
  assumes "\<And>r cs a. rq_console r = Some a \<Longrightarrow> settles a cs (exec r (r, cs))"
  shows "balanced exec"
  unfolding balanced_def
proof (intro allI impI)
  fix r :: request and cs a b assume "rq_console r = Some a"
  from assms [OF this, of cs] show "rc_use_count (run_request exec r cs b) =
      (if b = a then rc_use_count (cs b) - 1 else rc_use_count (cs b))"
    by (auto simp: settles_def run_request_def request_dtor_def con_put_def con_send_def split: prod.splits)
qed

lemma settles_send: "rq_console r = Some a \<Longrightarrow> settles a cs (r, req_send msg r cs)"
  by (simp add: settles_def req_send_def con_send_def)

lemma settles_same: "rq_console r = Some a \<Longrightarrow> settles a cs (r, cs)"
  by (simp add: settles_def)

lemma do_exit_console:
  assumes "rq_console r = Some a"
  shows "do_exit (r, cs) = (Inr [], r\<lparr>rq_console := None\<rparr>, con_put a (con_exit a cs))"
  using assms by (simp add: do_exit_def set_console_def)

lemma builtin_settles:
  assumes "rq_console r = Some a" "\<And>cs. settles a cs (ce_other env r (r, cs))"
  shows "settles a cs (builtin_execute env r (r, cs))"
proof -
  have "settles a cs (snd (cmd_execute mo do_exit (r, cs)))" for mo
    using assms(1) by (auto simp: cmd_execute_def do_exit_console settles_def req_send_def con_put_def con_exit_def
        split: option.splits)
  moreover have "settles a cs (snd (shutdown_execute (r, cs)))"
    using assms(1) by (simp add: shutdown_execute_def set_console_def settles_def req_send_def con_send_def con_put_def con_exit_def)
  moreover have "settles a cs (snd (cmd_execute mo (\<lambda>rc. (Inr (f rc), rc)) (r, cs)))" for mo f
    using assms(1) by (auto simp: cmd_execute_def settles_send settles_same split: option.splits)
  moreover have "do_help m = (\<lambda>rc. (Inr (do_help_text m (parameters (fst rc))), rc))" for m :: "'a request_manager"
    by (simp add: do_help_def fun_eq_iff)
  moreover have "settles a cs (case load_execute (ce_fuel env) (ce_linker env) (ce_exists env) (r, cs) (ce_modules env) of
      None \<Rightarrow> (r, cs) | Some (_, rc', _) \<Rightarrow> rc')"
    using assms(1) by (auto simp: load_execute_def settles_send settles_same split: option.splits list.splits prod.splits sum.splits)
  moreover have "settles a cs (fst (unload_execute (ce_linker env) (r, cs) (ce_modules env)))"
    using assms(1) by (auto simp: unload_execute_def settles_send split: list.splits prod.splits)
  ultimately show ?thesis
    using assms by (simp add: builtin_execute_def Let_def list_execute_def settles_send)
qed

lemma builtin_balanced:
  assumes "\<And>r cs a. rq_console r = Some a \<Longrightarrow> settles a cs (ce_other env r (r, cs))"
  shows "balanced (builtin_execute env)"
  using builtin_settles [OF _ assms] by (intro settles_balanced)

lemma run_exit:
  assumes "rci_id (rq_info r) \<in> set closing" "rq_console r = Some a" "ce_module env = Some m"
  shows "run_request (builtin_execute env) r cs =
    cs(a := (cs a)\<lparr>rc_open := False, rc_use_count := rc_use_count (cs a) - 1\<rparr>)"
  using assms do_exit_console [OF assms(2), of cs]
  by (auto simp: run_request_def builtin_execute_def Let_def cmd_execute_def req_send_def request_dtor_def con_put_def con_exit_def)

text \<open>
  The six ways to say goodbye close the connection of the user who says it, give its use count back exactly once, send
  nothing more (no answer and no prompt), and touch no other connection.
\<close>

theorem exit_closes_console:
  assumes "rci_id (rq_info r) \<in> set closing" "rq_console r = Some a" "ce_module env = Some m"
  shows "run_request (builtin_execute env) r cs =
    cs(a := (cs a)\<lparr>rc_open := False, rc_use_count := rc_use_count (cs a) - 1\<rparr>)"
  using assms by (rule run_exit)

text \<open>No command opens a connection again.\<close>

definition stays_closed :: "(request \<Rightarrow> request \<times> consoles \<Rightarrow> request \<times> consoles) \<Rightarrow> bool" where
  "stays_closed exec \<longleftrightarrow> (\<forall>r cs b. \<not> rc_open (cs b) \<longrightarrow> \<not> rc_open (snd (exec r (r, cs)) b))"

lemma run_request_closed:
  assumes "stays_closed exec" "\<not> rc_open (cs b)"
  shows "\<not> rc_open (run_request exec r cs b)"
proof -
  obtain r' cs' where e: "exec r (r, cs) = (r', cs')" by fastforce
  with assms have "\<not> rc_open (cs' b)" by (metis stays_closed_def snd_conv)
  with e show ?thesis by (auto simp: run_request_def request_dtor_def con_put_def con_send_def split: option.splits)
qed

lemma send_closed [simp]: "rc_open (req_send msg r cs b) = rc_open (cs b)"
  by (simp add: req_send_def con_send_def split: option.splits)

lemma builtin_stays_closed:
  assumes "stays_closed (ce_other env)"
  shows "stays_closed (builtin_execute env)"
  unfolding stays_closed_def
proof (intro allI impI)
  fix r :: request and cs :: consoles and b assume b: "\<not> rc_open (cs b)"
  have "\<not> rc_open (snd (snd (cmd_execute mo do_exit (r, cs))) b)" for mo
    using b by (auto simp: cmd_execute_def do_exit_def set_console_def con_put_def con_exit_def split: option.splits prod.splits sum.splits)
  moreover have "\<not> rc_open (snd (snd (shutdown_execute (r, cs))) b)"
    using b by (auto simp: shutdown_execute_def Let_def set_console_def con_put_def con_exit_def split: option.splits)
  moreover have "\<not> rc_open (snd (snd (cmd_execute mo (do_help m) (r, cs))) b)" for mo and m :: "'a request_manager"
    using b by (auto simp: cmd_execute_def do_help_def split: option.splits)
  moreover have "\<not> rc_open (snd (snd (cmd_execute mo (\<lambda>rc. (Inr t, rc)) (r, cs))) b)" for mo t
    using b by (auto simp: cmd_execute_def split: option.splits)
  moreover have "\<not> rc_open (snd (case load_execute (ce_fuel env) (ce_linker env) (ce_exists env) (r, cs) (ce_modules env) of
      None \<Rightarrow> (r, cs) | Some (_, rc', _) \<Rightarrow> rc') b)"
    using b by (auto simp: load_execute_def split: option.splits list.splits prod.splits sum.splits)
  moreover have "\<not> rc_open (snd (fst (unload_execute (ce_linker env) (r, cs) (ce_modules env))) b)"
    using b by (auto simp: unload_execute_def split: list.splits prod.splits)
  moreover have "\<not> rc_open (snd (ce_other env r (r, cs)) b)" using assms b by (simp add: stays_closed_def)
  ultimately show "\<not> rc_open (snd (builtin_execute env r (r, cs)) b)"
    using b by (simp add: builtin_execute_def Let_def list_execute_def)
qed

definition demo_commands :: "(unit, string list) command_env" where
  "demo_commands = \<lparr>ce_module = Some 1, ce_manager = builtin_module_ctor bare_manager, ce_modules = demo_manager None, ce_linker = demo_linker,
     ce_exists = (\<lambda>_. True), ce_fuel = 2, ce_stats = ''up'', ce_other = (\<lambda>r rc. rc)\<rparr>"

theorem exit_closes_console_witness:
  "run_request (builtin_execute demo_commands) ((factory_create (close_info ''q'' ''q'' True))\<lparr>rq_console := Some 7\<rparr>)
      (\<lambda>_. idle_console\<lparr>rc_use_count := 1\<rparr>) =
    (\<lambda>_. idle_console\<lparr>rc_use_count := 1\<rparr>)(7 := (idle_console\<lparr>rc_use_count := 1\<rparr>)\<lparr>rc_open := False, rc_use_count := 1 - 1\<rparr>)"
  using exit_closes_console [of "(factory_create (close_info ''q'' ''q'' True))\<lparr>rq_console := Some 7\<rparr>" 7 demo_commands 1
      "\<lambda>_. idle_console\<lparr>rc_use_count := 1\<rparr>"]
  by (simp add: factory_create_def close_info_def command_info_def closing_def demo_commands_def)

section \<open>The menu\<close>

text \<open>What a terminal shows: escape sequences up to the letter \<^verbatim>\<open>m\<close> only change colours.\<close>

function shown :: "string \<Rightarrow> string" where
  "shown [] = []"
| "shown (c # s) = (if c = CHR 0x1B then shown (drop 1 (dropWhile (\<lambda>c. c \<noteq> CHR ''m'') s)) else c # shown s)"
  by pat_completeness auto
termination
  by (relation "measure length")
    (auto simp: less_Suc_eq_le intro: le_trans [OF diff_le_self length_dropWhile_le])

lemma shown_plain: "CHR 0x1B \<notin> set t \<Longrightarrow> shown (t @ s) = t @ shown s"
  by (induction t) auto

lemma shown_codes [simp]:
  "shown (esc ''32m'' @ s) = shown s" "shown (esc ''1m'' @ s) = shown s" "shown (esc ''0m'' @ s) = shown s"
  by simp_all

lemma length_ansi_name: "length (ansi_name c) = length c + 23"
  by (simp add: ansi_name_def)

lemma shown_row:
  assumes "CHR 0x1B \<notin> set c" "CHR 0x1B \<notin> set d" "CHR 0x00 \<notin> set c"
  shows "shown (help_row maxl c d @ s) = ''  '' @ pad_right (maxl + 3) (c @ '':'') @ d @ nl @ shown s"
proof -
  have "c_str (ansi_name c) = ansi_name c" using assms(3) by (intro c_str_no_nul) (simp add: ansi_name_def)
  then have "help_row maxl c d = ''  '' @ ansi_name c @ replicate (maxl + 2 - length c) CHR '' '' @ d @ nl"
    by (simp add: help_row_def pad_right_def length_ansi_name)
  moreover have "shown (ansi_name c @ t) = c @ '':'' @ shown t" for t
    using assms(1) unfolding ansi_name_def append_assoc shown_codes shown_plain [OF assms(1)] by (simp add: shown_plain)
  moreover have "CHR 0x1B \<notin> set (replicate (maxl + 2 - length c) CHR '' '' @ d @ nl)"
    using assms(2) by (simp add: nl_def)
  ultimately show ?thesis
    using shown_plain [of "replicate (maxl + 2 - length c) CHR '' '' @ d @ nl" s] by (simp add: pad_right_def)
qed

text \<open>
  The menu that \<^verbatim>\<open>help\<close> prints, as a terminal shows it, has one row for every command that is not hidden, in the order of
  the names, and all descriptions begin in the same column, in spite of the colours and with hidden commands counted
  for the width.
\<close>

theorem help_menu_aligned:
  assumes "list_all (\<lambda>(k, f). CHR 0x1B \<notin> set k \<and> CHR 0x00 \<notin> set k \<and> CHR 0x1B \<notin> set (description f)) (factories m)"
    and "sm_inv (factories m)"
  shows "shown (do_help_text m []) = ''Available commands:'' @ nl
    @ concat (map (\<lambda>(k, f). ''  '' @ pad_right (Max (insert 0 (length ` set (sm_keys (factories m)))) + 3) (k @ '':'') @ description f @ nl)
        (filter (\<lambda>(k, f). \<not> hidden f) (factories m)))"
proof -
  let ?maxl = "fold (\<lambda>c maxl. max maxl (length c)) (requestIds m) 0"
  have "fold (\<lambda>c maxl. max maxl (length c)) cs n = Max (insert n (length ` set cs))" for cs :: "string list" and n
  proof (induction cs arbitrary: n)
    case (Cons c cs)
    then show ?case by (cases "cs = []") (simp_all add: max.assoc)
  qed simp
  moreover have ids: "requestIds m = map fst (factories m)"
    using assms(1) by (auto simp: requestIds_def sm_keys_def list_all_iff intro!: c_str_no_nul)
  ultimately have maxl: "?maxl = Max (insert 0 (length ` set (sm_keys (factories m))))"
    by (simp add: sm_keys_def)
  have info: "requestInfo k m = f" if "(k, f) \<in> set (factories m)" for k f
    using that assms(2) by (simp add: requestInfo_def sm_find_def sm_inv_def strict_sorted_iff)
  have rows: "shown (concat (map (\<lambda>c. help_row n c (description (requestInfo c m)))
        (filter (\<lambda>c. \<not> hidden (requestInfo c m)) (map fst l)))) =
      concat (map (\<lambda>(k, f). ''  '' @ pad_right (n + 3) (k @ '':'') @ description f @ nl) (filter (\<lambda>(k, f). \<not> hidden f) l))"
    if "set l \<subseteq> set (factories m)" for l n
    using that assms(1) by (induction l) (auto simp: info shown_row list_all_iff)
  show ?thesis
    using rows [of "factories m" ?maxl] shown_plain [of "''Available commands:'' @ nl"]
    by (simp add: do_help_text_def Let_def ids maxl [unfolded ids] nl_def)
qed

theorem help_menu_aligned_witness:
  "shown (do_help_text (builtin_module_ctor bare_manager) []) = ''Available commands:'' @ nl
    @ concat (map (\<lambda>(k, f). ''  '' @ pad_right (Max (insert 0 (length ` set (sm_keys (factories (builtin_module_ctor bare_manager))))) + 3)
          (k @ '':'') @ description f @ nl)
        (filter (\<lambda>(k, f). \<not> hidden f) (factories (builtin_module_ctor bare_manager))))"
proof (rule help_menu_aligned)
  show "sm_inv (factories (builtin_module_ctor bare_manager))" by code_simp
  show "list_all (\<lambda>(k, f). CHR 0x1B \<notin> set k \<and> CHR 0x00 \<notin> set k \<and> CHR 0x1B \<notin> set (description f))
    (factories (builtin_module_ctor bare_manager))" by code_simp
qed

end
