(* ===== verification/Shell_Threads.thy ===== *)
theory Shell_Threads
  imports Shell_Input
begin

text \<open>
  The three threads of a shell as a step relation: the receiver (\<^verbatim>\<open>eval\<close> with the line discipline and the user's
  interrupts, and in the end the destructor), the evaluation thread (\<^verbatim>\<open>eval_loop\<close>, with its main loop and its drain loop) and the polling thread
  (\<^verbatim>\<open>poll_loop\<close>). A step is what a thread does between two points where another one can come in: each call
  on the queue, each change of \<^verbatim>\<open>_eval_done\<close>, each call of the evaluator, each poll.
\<close>

section \<open>The machine\<close>

text \<open>Where the evaluation thread is; the string is the command in hand.\<close>

datatype ev_pc =
    E_wait | E_pop | E_start string | E_begin string | E_expr string
  | E_join | D_check | D_poll | D_pop | D_start string | D_begin string | D_expr string
  | F_poll | E_exit | E_dead

text \<open>
  Where the receiver is: between two lines; leaving, before the queue is cancelled; in \<^verbatim>\<open>user_interrupt\<close>, throwing the
  queue away; there, about to interrupt the evaluator.
\<close>

datatype recv_pc = R_idle | R_cancel | R_discard | R_interrupt

text \<open>
  \<open>poll_alive\<close>: the polling thread runs. \<open>on_socket\<close>: the socket still points to the shell (\<^verbatim>\<open>SetShell\<close>). \<open>accepted\<close>
  lists the commands the receiver has queued, \<open>discarded\<close> those that an interrupt threw away, \<open>evald\<close> the ones given to
  the evaluator; these three are there for the statements only.
\<close>

record ('q, 'e) threads =
  sh :: "('q, 'e) shell"
  ev_at :: ev_pc
  recv_at :: recv_pc
  poll_alive :: bool
  on_socket :: bool
  accepted :: "string list"
  discarded :: "string list"
  evald :: "string list"

abbreviation work :: "string list \<Rightarrow> string list" where
  "work xs \<equiv> filter (\<lambda>x. x \<noteq> []) xs"

text \<open>Leaving the main loop: the queue is opened again for the drain loop.\<close>

definition leave_loop :: "(string, 'q) cq_ops \<Rightarrow> ('q, 'e) threads \<Rightarrow> ('q, 'e) threads" where
  "leave_loop qo t = t\<lparr>sh := (sh t)\<lparr>evalque := cq_cancel_reset qo (evalque (sh t))\<rparr>, ev_at := E_join\<rparr>"

text \<open>The test at the foot of the main loop.\<close>

definition loop_foot :: "(string, 'q) cq_ops \<Rightarrow> ('q, 'e) threads \<Rightarrow> ('q, 'e) threads" where
  "loop_foot qo t = (if self_destruct (sh t) then leave_loop qo t else t\<lparr>ev_at := E_wait\<rparr>)"

text \<open>One step of the evaluation thread; \<^const>\<open>None\<close> when it has to wait.\<close>

definition ev_step :: "(string, 'q) cq_ops \<Rightarrow> 'e eval_ops \<Rightarrow> ('q, 'e) threads \<Rightarrow> ('q, 'e) threads option" where
  "ev_step qo eo t =
     (let s = sh t in
      case ev_at t of
        E_wait \<Rightarrow> if eval_done s then Some (t\<lparr>ev_at := E_pop\<rparr>) else None
      | E_pop \<Rightarrow>
          (case cq_pop qo (evalque s) of
             None \<Rightarrow> None
           | Some (Inl e, q) \<Rightarrow> Some (if self_destruct s then leave_loop qo (t\<lparr>sh := s\<lparr>evalque := q\<rparr>\<rparr>)
               else t\<lparr>sh := s\<lparr>evalque := q\<rparr>, ev_at := E_dead\<rparr>)
           | Some (Inr x, q) \<Rightarrow>
               (let t1 = t\<lparr>sh := s\<lparr>evalque := q\<rparr>\<rparr>
                in Some (if x = [] then loop_foot qo t1 else t1\<lparr>ev_at := E_start x\<rparr>)))
      | E_start x \<Rightarrow>
          (case start_eval s of
             (Inl e, s') \<Rightarrow> Some (t\<lparr>sh := s', ev_at := E_dead\<rparr>)
           | (Inr _, s') \<Rightarrow> Some (t\<lparr>sh := s', ev_at := E_begin x\<rparr>))
      | E_begin x \<Rightarrow> Some (t\<lparr>sh := s\<lparr>evaluator := map_option (ev_begin eo) (evaluator s)\<rparr>, ev_at := E_expr x\<rparr>)
      | E_expr x \<Rightarrow>
          (case evaluator s of
             None \<Rightarrow> Some (t\<lparr>ev_at := E_dead\<rparr>)
           | Some e \<Rightarrow>
               (case ev_eval eo x e of
                  (Inr _, e') \<Rightarrow> Some (loop_foot qo (t\<lparr>sh := s\<lparr>evaluator := Some e'\<rparr>, evald := evald t @ [x]\<rparr>))
                | (Inl (Runtime_exception m), e') \<Rightarrow>
                    Some (loop_foot qo (t\<lparr>sh := s\<lparr>evaluator := Some e', eval_done := True\<rparr>, evald := evald t @ [x]\<rparr>))
                | (Inl _, e') \<Rightarrow> Some (t\<lparr>sh := s\<lparr>evaluator := Some e'\<rparr>, ev_at := E_dead\<rparr>)))
      | E_join \<Rightarrow> if poll_alive t then None else Some (t\<lparr>ev_at := D_check\<rparr>)
      | D_check \<Rightarrow> Some (t\<lparr>ev_at := (if 0 < cq_size qo (evalque s) then D_poll else F_poll)\<rparr>)
      | D_poll \<Rightarrow>
          (case poll_and_send eo s of
             (Inl e, s') \<Rightarrow> Some (t\<lparr>sh := s', ev_at := E_dead\<rparr>)
           | (Inr _, s') \<Rightarrow> Some (t\<lparr>sh := s', ev_at := (if eval_done s' then D_pop else D_poll)\<rparr>))
      | D_pop \<Rightarrow>
          (case cq_pop qo (evalque s) of
             None \<Rightarrow> None
           | Some (Inl e, q) \<Rightarrow> Some (t\<lparr>sh := s\<lparr>evalque := cq_cancel_reset qo q\<rparr>, ev_at := D_check\<rparr>)
           | Some (Inr x, q) \<Rightarrow>
               Some (t\<lparr>sh := s\<lparr>evalque := q\<rparr>, ev_at := (if x = [] then D_check else D_start x)\<rparr>))
      | D_start x \<Rightarrow>
          (case start_eval s of
             (Inl e, s') \<Rightarrow> Some (t\<lparr>sh := s', ev_at := E_dead\<rparr>)
           | (Inr _, s') \<Rightarrow> Some (t\<lparr>sh := s', ev_at := D_begin x\<rparr>))
      | D_begin x \<Rightarrow> Some (t\<lparr>sh := s\<lparr>evaluator := map_option (ev_begin eo) (evaluator s)\<rparr>, ev_at := D_expr x\<rparr>)
      | D_expr x \<Rightarrow>
          (case evaluator s of
             None \<Rightarrow> Some (t\<lparr>ev_at := E_dead\<rparr>)
           | Some e \<Rightarrow>
               (case ev_eval eo x e of
                  (Inr _, e') \<Rightarrow> Some (t\<lparr>sh := s\<lparr>evaluator := Some e'\<rparr>, evald := evald t @ [x], ev_at := D_check\<rparr>)
                | (Inl _, e') \<Rightarrow> Some (t\<lparr>sh := s\<lparr>evaluator := Some e'\<rparr>, ev_at := E_dead\<rparr>)))
      | F_poll \<Rightarrow>
          (case poll_and_send eo s of
             (Inl e, s') \<Rightarrow> Some (t\<lparr>sh := s', ev_at := E_dead\<rparr>)
           | (Inr _, s') \<Rightarrow>
               Some (if eval_done s' then t\<lparr>sh := s'\<lparr>evaluator := None\<rparr>, on_socket := False, ev_at := E_exit\<rparr>
                     else t\<lparr>sh := s', ev_at := F_poll\<rparr>))
      | E_exit \<Rightarrow> None
      | E_dead \<Rightarrow> None)"

text \<open>
  \<^verbatim>\<open>user_interrupt\<close> as two parts, around the loop that empties the queue. \<open>quits\<close>: the class leaves the shell on an
  interrupt. After the evaluation thread is gone there is no evaluator left.
\<close>

definition interrupt_begins :: "bool \<Rightarrow> ('q, 'e) shell \<Rightarrow> ('q, 'e) shell" where
  "interrupt_begins quits s = (if quits then s\<lparr>self_destruct := True\<rparr> else s)"

definition interrupt_ends :: "'e eval_ops \<Rightarrow> ('q, 'e) shell \<Rightarrow> ('q, 'e) shell" where
  "interrupt_ends eo s =
     (case evaluator s of
        None \<Rightarrow> s
      | Some e \<Rightarrow>
          finish_eval (put_output (abort_prompt s) (s\<lparr>evaluator := Some (ev_clear_pending eo (ev_interrupt eo e))\<rparr>)))"

text \<open>
  The steps of all threads. The receiver queues a command that the line discipline let through, puts telnet replies
  and prompts into the output, tells the evaluator that the user typed something (\<open>cmd\<close>, the identity except for top);
  it leaves the shell on the user's request, where the queue is cancelled after the flag is set; it throws the queue
  away, one element after the other, and then interrupts the evaluator; it says goodbye; and the destructor wakes the
  evaluation thread with an empty string. A poll happens when the evaluator would not block, and the polling thread
  ends when the shell is going down and the last evaluation is done.
\<close>

definition thrown :: "string option \<Rightarrow> string list" where
  "thrown popped = (case popped of Some x \<Rightarrow> work [x] | None \<Rightarrow> [])"

inductive sh_step ::
  "(string, 'q) cq_ops \<Rightarrow> 'e eval_ops \<Rightarrow> ('e \<Rightarrow> 'e) \<Rightarrow> bool \<Rightarrow> ('q, 'e) threads \<Rightarrow> ('q, 'e) threads \<Rightarrow> bool"
  for qo eo cmd quits where
  receive: "recv_at t = R_idle \<Longrightarrow> \<not> self_destruct (sh t) \<Longrightarrow> cq_push qo x (evalque (sh t)) = (Inr (), q) \<Longrightarrow>
     sh_step qo eo cmd quits t (t\<lparr>sh := (sh t)\<lparr>evalque := q\<rparr>, accepted := accepted t @ work [x]\<rparr>)"
| reply: "recv_at t = R_idle \<Longrightarrow> sh_step qo eo cmd quits t (t\<lparr>sh := put_output str (sh t)\<rparr>)"
| typed: "recv_at t = R_idle \<Longrightarrow> \<not> self_destruct (sh t) \<Longrightarrow> evaluator (sh t) = Some e \<Longrightarrow>
     sh_step qo eo cmd quits t (t\<lparr>sh := (sh t)\<lparr>evaluator := Some (cmd e)\<rparr>\<rparr>)"
| leave: "recv_at t = R_idle \<Longrightarrow> \<not> self_destruct (sh t) \<Longrightarrow>
     sh_step qo eo cmd quits t (t\<lparr>sh := (sh t)\<lparr>self_destruct := True\<rparr>, recv_at := R_cancel\<rparr>)"
| cancel: "recv_at t = R_cancel \<Longrightarrow>
     sh_step qo eo cmd quits t (t\<lparr>sh := exit_shell qo (sh t), recv_at := R_idle\<rparr>)"
| interrupt: "recv_at t = R_idle \<Longrightarrow> \<not> self_destruct (sh t) \<Longrightarrow>
     sh_step qo eo cmd quits t (t\<lparr>sh := interrupt_begins quits (sh t), recv_at := R_discard\<rparr>)"
| discard: "recv_at t = R_discard \<Longrightarrow> 0 < cq_size qo (evalque (sh t)) \<Longrightarrow> cq_try_pop qo (evalque (sh t)) = (popped, q) \<Longrightarrow>
     sh_step qo eo cmd quits t (t\<lparr>sh := (sh t)\<lparr>evalque := q\<rparr>,
       discarded := discarded t @ thrown popped\<rparr>)"
| discarded: "recv_at t = R_discard \<Longrightarrow> cq_size qo (evalque (sh t)) = 0 \<Longrightarrow>
     sh_step qo eo cmd quits t (t\<lparr>recv_at := R_interrupt\<rparr>)"
| interrupted: "recv_at t = R_interrupt \<Longrightarrow>
     sh_step qo eo cmd quits t (t\<lparr>sh := interrupt_ends eo (sh t), recv_at := R_idle\<rparr>)"
| goodbye: "recv_at t = R_idle \<Longrightarrow> self_destruct (sh t) \<Longrightarrow>
     sh_step qo eo cmd quits t (t\<lparr>sh := (sh t)\<lparr>sent := sent (sh t) @ [''goodbye!'' @ nl]\<rparr>\<rparr>)"
| dtor: "recv_at t = R_idle \<Longrightarrow>
     sh_step qo eo cmd quits t (t\<lparr>sh := shell_dtor qo (sh t)\<rparr>)"
| poll: "poll_alive t \<Longrightarrow> evaluator (sh t) = Some e \<Longrightarrow> ev_ready eo e \<Longrightarrow>
     poll_and_send eo (sh t) = (Inr (), s') \<Longrightarrow> sh_step qo eo cmd quits t (t\<lparr>sh := s'\<rparr>)"
| poll_end: "poll_alive t \<Longrightarrow> self_destruct (sh t) \<Longrightarrow> eval_done (sh t) \<Longrightarrow>
     sh_step qo eo cmd quits t (t\<lparr>poll_alive := False\<rparr>)"
| eval: "ev_step qo eo t = Some t' \<Longrightarrow> sh_step qo eo cmd quits t t'"

inductive_cases sh_stepE: "sh_step qo eo cmd quits t t'"

text \<open>The threads of a shell \<open>s\<close> have been started: the evaluator is there and the poller runs.\<close>

definition started :: "'e eval_ops \<Rightarrow> ('q, 'e) shell \<Rightarrow> 'e \<Rightarrow> ('q, 'e) threads" where
  "started eo s e =
     \<lparr>sh = s\<lparr>evaluator := Some (ev_clear_pending eo e)\<rparr>, ev_at = E_wait, recv_at = R_idle, poll_alive = True, on_socket = True,
      accepted = [], discarded = [], evald = []\<rparr>"

text \<open>A shell as its constructor leaves it: nothing queued, nothing running.\<close>

definition fresh :: "('q \<Rightarrow> string list) \<Rightarrow> ('q \<Rightarrow> bool) \<Rightarrow> ('q, 'e) shell \<Rightarrow> bool" where
  "fresh items canceled s \<longleftrightarrow> items (evalque s) = [] \<and> \<not> canceled (evalque s) \<and> eval_done s \<and> \<not> self_destruct s"

section \<open>Invariant\<close>

fun in_hand :: "ev_pc \<Rightarrow> string list" where
  "in_hand (E_start x) = [x]"
| "in_hand (E_begin x) = [x]"
| "in_hand (E_expr x) = [x]"
| "in_hand (D_start x) = [x]"
| "in_hand (D_begin x) = [x]"
| "in_hand (D_expr x) = [x]"
| "in_hand _ = []"

fun going_down :: "ev_pc \<Rightarrow> bool" where
  "going_down E_wait = False"
| "going_down E_pop = False"
| "going_down (E_start x) = False"
| "going_down (E_begin x) = False"
| "going_down (E_expr x) = False"
| "going_down _ = True"

fun must_be_done :: "ev_pc \<Rightarrow> bool" where
  "must_be_done E_pop = True"
| "must_be_done (E_start x) = True"
| "must_be_done D_pop = True"
| "must_be_done (D_start x) = True"
| "must_be_done _ = False"

text \<open>
  Everything accepted is evaluated, in hand, thrown away by an interrupt, or queued: what is queued comes last, and
  before it the evaluated and the discarded commands are shuffled, each list in its order. A command is only started when
  the one before is done; the thread leaves its main loop only when the shell goes down, and its drain loop only when
  the queue is empty.
\<close>

definition accounted :: "string list \<Rightarrow> string list \<Rightarrow> string list \<Rightarrow> string list \<Rightarrow> bool" where
  "accounted acc ev dis queue \<longleftrightarrow> (\<exists>p. acc = p @ work queue \<and> p \<in> shuffles ev dis)"

definition threads_inv :: "('q \<Rightarrow> string list) \<Rightarrow> ('q \<Rightarrow> bool) \<Rightarrow> ('q, 'e) threads \<Rightarrow> bool" where
  "threads_inv items canceled t \<longleftrightarrow>
     accounted (accepted t) (evald t @ in_hand (ev_at t)) (discarded t) (items (evalque (sh t)))
   \<and> (must_be_done (ev_at t) \<longrightarrow> eval_done (sh t))
   \<and> (going_down (ev_at t) \<longrightarrow> self_destruct (sh t))
   \<and> (canceled (evalque (sh t)) \<longrightarrow> self_destruct (sh t))
   \<and> (recv_at t \<in> {R_discard, R_interrupt} \<longrightarrow> \<not> canceled (evalque (sh t)))
   \<and> (recv_at t = R_cancel \<longrightarrow> self_destruct (sh t))
   \<and> (ev_at t \<in> {F_poll, E_exit} \<longrightarrow> work (items (evalque (sh t))) = [])
   \<and> (ev_at t \<noteq> E_exit \<longrightarrow> evaluator (sh t) \<noteq> None)
   \<and> (on_socket t \<longleftrightarrow> ev_at t \<noteq> E_exit)
   \<and> ev_at t \<noteq> E_dead"

lemma snoc_in_shuffles: "ys @ [x] \<in> shuffles [x] ys"
  by (induction ys) auto

lemma shuffles_snoc:
  "p \<in> shuffles xs ys \<Longrightarrow> p @ [x] \<in> shuffles (xs @ [x]) ys"
  by (induction xs ys arbitrary: p rule: shuffles.induct) (auto simp: snoc_in_shuffles)

lemma shuffles_snoc2:
  "p \<in> shuffles xs ys \<Longrightarrow> p @ [y] \<in> shuffles xs (ys @ [y])"
  using shuffles_snoc [of p ys xs y] by (simp add: shuffles_commutes)

lemma accounted_take: "accounted acc ev dis (x # queue) \<Longrightarrow> accounted acc (ev @ work [x]) dis queue"
  unfolding accounted_def by (cases "x = []") (auto intro: shuffles_snoc)

lemma accounted_drop: "accounted acc ev dis (x # queue) \<Longrightarrow> accounted acc ev (dis @ work [x]) queue"
  unfolding accounted_def by (cases "x = []") (auto intro: shuffles_snoc2)

lemma accounted_push: "accounted acc ev dis queue \<Longrightarrow> accounted (acc @ work [x]) ev dis (queue @ [x])"
  unfolding accounted_def by auto

lemma accounted_wake: "accounted acc ev dis (queue @ [[]]) = accounted acc ev dis queue"
  by (simp add: accounted_def)

lemma accounted_end: "accounted acc ev dis queue \<Longrightarrow> work queue = [] \<Longrightarrow> acc \<in> shuffles ev dis"
  by (auto simp: accounted_def)

lemma poll_keeps:
  assumes "poll_and_send eo s = (res, s')"
  shows "evalque s' = evalque s" "self_destruct s' = self_destruct s" "eval_done s \<Longrightarrow> eval_done s'"
    and "evaluator s \<noteq> None \<Longrightarrow> evaluator s' \<noteq> None \<and> res = Inr ()"
  using assms
  by (auto simp: poll_and_send_def poll_output_def get_output_def finish_eval_def act_bind_def Let_def
      split: prod.splits option.splits if_splits)

lemma pop_cases:
  assumes "cq_laws qo items canceled" "cq_pop qo q = Some (r, q')"
  obtains (canc) "canceled q" "r = Inl Canceled" "q' = q"
    | (item) x where "\<not> canceled q" "items q = x # items q'" "r = Inr x" "\<not> canceled q'"
proof (cases "canceled q")
  case True
  then have "r = Inl Canceled" "q' = q"
    using cq_lawsD(3) [OF assms(1) True] assms(2) by simp_all
  with True show thesis by (rule canc)
next
  case False
  show thesis
  proof (cases "items q")
    case Nil
    then show thesis using cq_lawsD(4) [OF assms(1) False Nil] assms(2) by simp
  next
    case (Cons x xs)
    obtain q2 where "cq_pop qo q = Some (Inr x, q2)" "items q2 = xs" "\<not> canceled q2"
      using cq_lawsD(5) [OF assms(1) False Cons] by blast
    then have "items q = x # items q'" "r = Inr x" "\<not> canceled q'"
      using assms(2) Cons by simp_all
    with False show thesis by (rule item)
  qed
qed

lemma push_cases:
  assumes "cq_laws qo items canceled"
  shows "items (evalque (enqueue_work qo [] s)) \<in> {items (evalque s), items (evalque s) @ [[]]}"
    and "canceled (evalque (enqueue_work qo [] s)) = canceled (evalque s)"
    and "self_destruct (enqueue_work qo [] s) = self_destruct s"
    and "eval_done (enqueue_work qo [] s) = eval_done s"
    and "evaluator (enqueue_work qo [] s) = evaluator s"
proof -
  show "items (evalque (enqueue_work qo [] s)) \<in> {items (evalque s), items (evalque s) @ [[]]}"
    using enqueue_open(1) [OF assms, of s "[]"] enqueue_canceled [OF assms, of s "[]"]
    by (cases "canceled (evalque s)") simp_all
  show "canceled (evalque (enqueue_work qo [] s)) = canceled (evalque s)"
    using enqueue_open(2) [OF assms, of s "[]"] enqueue_canceled [OF assms, of s "[]"]
    by (cases "canceled (evalque s)") simp_all
qed (simp_all add: enqueue_work_def)

lemmas ev_step_simps = ev_step_def Let_def threads_inv_def loop_foot_def start_eval_def leave_loop_def

lemma threads_inv_pop:
  assumes laws: "cq_laws qo items canceled" and inv: "threads_inv items canceled t"
    and step: "ev_step qo eo t = Some t'" and here: "ev_at t = E_pop \<or> ev_at t = D_pop"
  shows "threads_inv items canceled t'"
proof -
  from here step obtain r q where p: "cq_pop qo (evalque (sh t)) = Some (r, q)"
    by (cases "cq_pop qo (evalque (sh t))") (auto simp: ev_step_def Let_def)
  note reset = cq_lawsD(11,12) [OF laws, of q]
  from laws p show ?thesis
  proof (cases rule: pop_cases)
    case canc
    then have down: "self_destruct (sh t)" using inv by (simp add: threads_inv_def)
    from here show ?thesis
    proof
      assume at: "ev_at t = E_pop"
      with step p canc down have t': "t' = leave_loop qo (t\<lparr>sh := (sh t)\<lparr>evalque := q\<rparr>\<rparr>)" by (simp add: ev_step_def Let_def)
      show ?thesis unfolding t' using inv at canc reset by (simp add: threads_inv_def leave_loop_def)
    next
      assume at: "ev_at t = D_pop"
      with step p canc have t': "t' = t\<lparr>sh := (sh t)\<lparr>evalque := cq_cancel_reset qo q\<rparr>, ev_at := D_check\<rparr>"
        by (simp add: ev_step_def Let_def)
      show ?thesis unfolding t' using inv at canc reset by (simp add: threads_inv_def)
    qed
  next
    case (item x)
    have acc: "accounted (accepted t) (evald t @ work [x]) (discarded t) (items q)"
    proof (rule accounted_take)
      have "in_hand (ev_at t) = []" using here by auto
      with inv item(2) show "accounted (accepted t) (evald t) (discarded t) (x # items q)" by (simp add: threads_inv_def)
    qed
    from here show ?thesis
    proof
      assume at: "ev_at t = E_pop"
      with step p item have t': "t' = (if x = [] then loop_foot qo (t\<lparr>sh := (sh t)\<lparr>evalque := q\<rparr>\<rparr>)
          else t\<lparr>sh := (sh t)\<lparr>evalque := q\<rparr>, ev_at := E_start x\<rparr>)" by (simp add: ev_step_def Let_def)
      show ?thesis unfolding t' using inv at item reset acc
        by (cases "x = []"; clarsimp simp: threads_inv_def loop_foot_def leave_loop_def)
    next
      assume at: "ev_at t = D_pop"
      with step p item have t': "t' = t\<lparr>sh := (sh t)\<lparr>evalque := q\<rparr>, ev_at := (if x = [] then D_check else D_start x)\<rparr>"
        by (simp add: ev_step_def Let_def)
      show ?thesis unfolding t' using inv at item acc by (cases "x = []"; simp add: threads_inv_def)
    qed
  qed
qed

lemma threads_inv_eval:
  assumes laws: "cq_laws qo items canceled" and quiet: "\<forall>x e. fst (ev_eval eo x e) = Inr ()"
    and inv: "threads_inv items canceled t" and step: "ev_step qo eo t = Some t'"
  shows "threads_inv items canceled t'"
proof (cases "ev_at t")
  case E_wait
  with inv step show ?thesis by (clarsimp simp: ev_step_simps split: if_splits)
next
  case E_pop
  then show ?thesis using threads_inv_pop [OF laws inv step] by simp
next
  case (E_start x)
  with inv step show ?thesis by (clarsimp simp: ev_step_simps)
next
  case (E_begin x)
  with inv step show ?thesis by (clarsimp simp: ev_step_simps)
next
  case (E_expr x)
  with inv obtain e where e: "evaluator (sh t) = Some e" by (auto simp: threads_inv_def)
  obtain e' where "ev_eval eo x e = (Inr (), e')"
    using quiet by (metis prod.collapse)
  with e E_expr inv step show ?thesis
    using cq_lawsD(11,12) [OF laws, of "evalque (sh t)"] by (clarsimp simp: ev_step_simps split: if_splits)
next
  case E_join
  with inv step show ?thesis by (clarsimp simp: ev_step_simps split: if_splits)
next
  case D_check
  with inv step show ?thesis
    using cq_lawsD(8) [OF laws, of "evalque (sh t)"]
    by (cases "items (evalque (sh t)) = []"; clarsimp simp: ev_step_simps)
next
  case D_poll
  obtain res s' where p: "poll_and_send eo (sh t) = (res, s')" by (cases "poll_and_send eo (sh t)")
  from D_poll inv step p poll_keeps [OF p] show ?thesis
    by (cases "eval_done s'"; clarsimp simp: ev_step_simps)
next
  case D_pop
  then show ?thesis using threads_inv_pop [OF laws inv step] by simp
next
  case (D_start x)
  with inv step show ?thesis by (clarsimp simp: ev_step_simps)
next
  case (D_begin x)
  with inv step show ?thesis by (clarsimp simp: ev_step_simps)
next
  case (D_expr x)
  with inv obtain e where e: "evaluator (sh t) = Some e" by (auto simp: threads_inv_def)
  obtain e' where "ev_eval eo x e = (Inr (), e')"
    using quiet by (metis prod.collapse)
  with e D_expr inv step show ?thesis by (clarsimp simp: ev_step_simps)
next
  case F_poll
  obtain res s' where p: "poll_and_send eo (sh t) = (res, s')" by (cases "poll_and_send eo (sh t)")
  from F_poll inv step p poll_keeps [OF p] show ?thesis by (clarsimp simp: ev_step_simps split: if_splits)
next
  case E_exit
  with step show ?thesis by (simp add: ev_step_def)
next
  case E_dead
  with step show ?thesis by (simp add: ev_step_def)
qed

lemma threads_inv_discard:
  assumes laws: "cq_laws qo items canceled" and inv: "threads_inv items canceled t"
    and "recv_at t = R_discard" "0 < cq_size qo (evalque (sh t))" "cq_try_pop qo (evalque (sh t)) = (popped, q)"
  shows "threads_inv items canceled (t\<lparr>sh := (sh t)\<lparr>evalque := q\<rparr>,
     discarded := discarded t @ thrown popped\<rparr>)"
proof -
  have nc: "\<not> canceled (evalque (sh t))" using inv assms(3) by (simp add: threads_inv_def)
  obtain x xs where items: "items (evalque (sh t)) = x # xs"
    using assms(4) cq_lawsD(8) [OF laws] by (cases "items (evalque (sh t))") simp_all
  then have q: "popped = Some x" "items q = xs" "\<not> canceled q"
    using cq_lawsD(7) [OF laws nc items] assms(5) by auto
  have "accounted (accepted t) (evald t @ in_hand (ev_at t)) (discarded t @ work [x]) xs"
    by (rule accounted_drop) (use inv items in \<open>simp add: threads_inv_def\<close>)
  moreover have "work (x # xs) = [] \<Longrightarrow> work xs = []" by (simp split: if_splits)
  ultimately show ?thesis using inv q items by (simp add: threads_inv_def thrown_def del: filter.simps)
qed

lemma threads_inv_step:
  assumes laws: "cq_laws qo items canceled" and quiet: "\<forall>x e. fst (ev_eval eo x e) = Inr ()"
  shows "sh_step qo eo cmd quits t t' \<Longrightarrow> threads_inv items canceled t \<Longrightarrow> threads_inv items canceled t'"
proof (induction rule: sh_step.induct)
  case (receive t x q)
  have nc: "\<not> canceled (evalque (sh t))"
    using receive by (auto simp: threads_inv_def)
  have q: "items q = items (evalque (sh t)) @ [x]" "\<not> canceled q"
    using cq_lawsD(1) [OF laws nc, of x] receive(3) by auto
  have "accounted (accepted t @ work [x]) (evald t @ in_hand (ev_at t)) (discarded t) (items q)"
    unfolding q(1) by (rule accounted_push) (use receive(4) in \<open>simp add: threads_inv_def\<close>)
  with receive q show ?case by (cases "ev_at t") (auto simp: threads_inv_def)
next
  case (cancel t)
  then show ?case
    using exit_shell_sel [OF laws, of "sh t"] by (simp add: threads_inv_def exit_shell_def put_output_def Let_def)
next
  case (dtor t)
  then show ?case
    using push_cases(1) [OF laws, of "(sh t)\<lparr>self_destruct := True\<rparr>"]
    by (elim insertE emptyE) (simp_all add: threads_inv_def push_cases(2-5) [OF laws] accounted_wake)
next
  case (discard t popped q)
  then show ?case using threads_inv_discard [OF laws] by blast
next
  case (interrupted t)
  then show ?case by (auto simp: threads_inv_def interrupt_ends_def finish_eval_def put_output_def split: option.splits)
next
  case (poll t e s')
  then show ?case
    using poll_keeps [OF poll(4)] by (simp add: threads_inv_def)
next
  case (eval t t')
  then show ?case using threads_inv_eval [OF laws quiet] by blast
qed (auto simp: threads_inv_def put_output_def interrupt_begins_def)

lemma threads_inv_started:
  "fresh items canceled s \<Longrightarrow> threads_inv items canceled (started eo s e)"
  by (simp add: threads_inv_def started_def fresh_def accounted_def)

lemma threads_inv_reach:
  assumes "cq_laws qo items canceled" "\<forall>x e. fst (ev_eval eo x e) = Inr ()"
    and "fresh items canceled s" "(sh_step qo eo cmd quits)\<^sup>*\<^sup>* (started eo s e) t"
  shows "threads_inv items canceled t"
  using assms(4)
proof (induction rule: rtranclp_induct)
  case base
  show ?case using assms(3) by (rule threads_inv_started)
next
  case (step y z)
  show ?case by (rule threads_inv_step [OF assms(1,2) step(2,3)])
qed

section \<open>Results\<close>



subsection \<open>Concrete runs\<close>

text \<open>The steps as a function, so that a schedule can be run.\<close>

datatype sched =
  Receive string | Typed | Leave | Cancel | Interrupt | Discard | Discarded | Interrupted | Dtor | Poll | Poll_end | Eval_step

fun sh_do ::
  "(string, 'q) cq_ops \<Rightarrow> 'e eval_ops \<Rightarrow> ('e \<Rightarrow> 'e) \<Rightarrow> bool \<Rightarrow> sched \<Rightarrow> ('q, 'e) threads \<Rightarrow> ('q, 'e) threads option" where
  "sh_do qo eo cmd quits (Receive x) t =
     (if recv_at t \<noteq> R_idle \<or> self_destruct (sh t) then None
      else case cq_push qo x (evalque (sh t)) of
             (Inr _, q) \<Rightarrow> Some (t\<lparr>sh := (sh t)\<lparr>evalque := q\<rparr>, accepted := accepted t @ work [x]\<rparr>)
           | (Inl _, q) \<Rightarrow> None)"
| "sh_do qo eo cmd quits Typed t =
     (case evaluator (sh t) of
        Some e \<Rightarrow> if recv_at t \<noteq> R_idle \<or> self_destruct (sh t) then None
                  else Some (t\<lparr>sh := (sh t)\<lparr>evaluator := Some (cmd e)\<rparr>\<rparr>)
      | None \<Rightarrow> None)"
| "sh_do qo eo cmd quits Leave t =
     (if recv_at t \<noteq> R_idle \<or> self_destruct (sh t) then None
      else Some (t\<lparr>sh := (sh t)\<lparr>self_destruct := True\<rparr>, recv_at := R_cancel\<rparr>))"
| "sh_do qo eo cmd quits Cancel t =
     (if recv_at t = R_cancel then Some (t\<lparr>sh := exit_shell qo (sh t), recv_at := R_idle\<rparr>) else None)"
| "sh_do qo eo cmd quits Interrupt t =
     (if recv_at t \<noteq> R_idle \<or> self_destruct (sh t) then None
      else Some (t\<lparr>sh := interrupt_begins quits (sh t), recv_at := R_discard\<rparr>))"
| "sh_do qo eo cmd quits Discard t =
     (if recv_at t = R_discard \<and> 0 < cq_size qo (evalque (sh t))
      then (case cq_try_pop qo (evalque (sh t)) of (popped, q) \<Rightarrow>
              Some (t\<lparr>sh := (sh t)\<lparr>evalque := q\<rparr>,
                discarded := discarded t @ thrown popped\<rparr>))
      else None)"
| "sh_do qo eo cmd quits Discarded t =
     (if recv_at t = R_discard \<and> cq_size qo (evalque (sh t)) = 0 then Some (t\<lparr>recv_at := R_interrupt\<rparr>) else None)"
| "sh_do qo eo cmd quits Interrupted t =
     (if recv_at t = R_interrupt then Some (t\<lparr>sh := interrupt_ends eo (sh t), recv_at := R_idle\<rparr>) else None)"
| "sh_do qo eo cmd quits Dtor t =
     (if recv_at t = R_idle then Some (t\<lparr>sh := shell_dtor qo (sh t)\<rparr>) else None)"
| "sh_do qo eo cmd quits Poll t =
     (case evaluator (sh t) of
        Some e \<Rightarrow> if poll_alive t \<and> ev_ready eo e
                  then (case poll_and_send eo (sh t) of (Inr _, s') \<Rightarrow> Some (t\<lparr>sh := s'\<rparr>) | _ \<Rightarrow> None)
                  else None
      | None \<Rightarrow> None)"
| "sh_do qo eo cmd quits Poll_end t =
     (if poll_alive t \<and> self_destruct (sh t) \<and> eval_done (sh t) then Some (t\<lparr>poll_alive := False\<rparr>) else None)"
| "sh_do qo eo cmd quits Eval_step t = ev_step qo eo t"

fun sh_run ::
  "(string, 'q) cq_ops \<Rightarrow> 'e eval_ops \<Rightarrow> ('e \<Rightarrow> 'e) \<Rightarrow> bool \<Rightarrow> sched list \<Rightarrow> ('q, 'e) threads \<Rightarrow> ('q, 'e) threads option" where
  "sh_run qo eo cmd quits [] t = Some t"
| "sh_run qo eo cmd quits (a # as) t = (case sh_do qo eo cmd quits a t of Some t' \<Rightarrow> sh_run qo eo cmd quits as t' | None \<Rightarrow> None)"

lemma sh_do_step: "sh_do qo eo cmd quits a t = Some t' \<Longrightarrow> sh_step qo eo cmd quits t t'"
  by (cases a) (auto simp del: filter.simps shell_dtor_def intro: sh_step.intros split: if_splits prod.splits sum.splits option.splits)

lemma sh_run_reach: "sh_run qo eo cmd quits as t = Some t' \<Longrightarrow> (sh_step qo eo cmd quits)\<^sup>*\<^sup>* t t'"
proof (induction "as" arbitrary: t)
  case (Cons a "as")
  then obtain t1 where "sh_do qo eo cmd quits a t = Some t1" "sh_run qo eo cmd quits as t1 = Some t'"
    by (auto split: option.splits)
  with Cons.IH show ?case by (meson converse_rtranclp_into_rtranclp sh_do_step)
qed simp

definition shell1 :: "(string list \<times> bool, unit) shell" where
  "shell1 = new_shell ([], False)"

lemma shell1_fresh: "fresh fst snd shell1"
  by (simp add: fresh_def shell1_def new_shell_def)

text \<open>Two commands, an interrupt that throws the second one away, a third one, and the end.\<close>

definition session :: "sched list" where
  "session = [Receive ''a'', Receive ''b'', Eval_step, Eval_step, Eval_step, Eval_step, Interrupt, Eval_step, Discard, Discarded,
     Interrupted, Receive ''c'', Leave, Eval_step, Cancel, Eval_step, Poll_end] @ replicate 9 Eval_step"

definition session_end :: "(string list \<times> bool, unit) threads" where
  "session_end = the (sh_run list_cq null_eval id False session (started null_eval shell1 ()))"

lemma session_runs: "sh_run list_cq null_eval id False session (started null_eval shell1 ()) = Some session_end"
  unfolding session_end_def by code_simp

lemma null_eval_quiet: "\<forall>x e. fst (ev_eval null_eval x e) = Inr ()"
  by (simp add: null_eval_def)


definition session_mid :: "(string list \<times> bool, unit) threads" where
  "session_mid = the (sh_run list_cq null_eval id False (take 4 session) (started null_eval shell1 ()))"

lemma session_mid_runs:
  "sh_run list_cq null_eval id False (take 4 session) (started null_eval shell1 ()) = Some session_mid"
  unfolding session_mid_def by code_simp


subsection \<open>A command that is done before it begins\<close>

text \<open>
  Between \<^verbatim>\<open>start_eval\<close> and \<^verbatim>\<open>begin_eval\<close> the polling thread can come in: it finds an idle evaluator with
  nothing to say, takes that for the end of the command, sets \<^verbatim>\<open>_eval_done\<close> and sends the prompt, although
  the evaluator has not seen the command yet.
\<close>

theorem prompt_before_evaluation:
  assumes "cq_laws qo items canceled" "items q = []" "\<not> canceled q" "x \<noteq> []" "ev_clear_pending eo e = e"
    and "ev_ready eo e" "ev_poll eo e = ([], e)" "\<not> ev_input_pending eo e"
  shows "\<exists>t. (sh_step qo eo cmd quits)\<^sup>*\<^sup>* (started eo (new_shell q) e) t \<and> ev_at t = E_begin x \<and> evald t = []
     \<and> eval_done (sh t) \<and> sent (sh t) = [''> '']"
proof -
  obtain q1 where q1: "cq_push qo x q = (Inr (), q1)" "items q1 = [x]" "\<not> canceled q1"
    using cq_lawsD(1) [OF assms(1,3), of x] assms(2) by auto
  obtain q2 where q2: "cq_pop qo q1 = Some (Inr x, q2)"
    using cq_lawsD(5) [OF assms(1) q1(3,2)] by auto
  have "\<exists>t. sh_run qo eo cmd quits [Receive x, Eval_step, Eval_step, Eval_step, Poll] (started eo (new_shell q) e) = Some t
     \<and> ev_at t = E_begin x \<and> evald t = [] \<and> eval_done (sh t) \<and> sent (sh t) = [''> '']"
    using assms(4-8) q1(1) q2
    by (simp add: started_def new_shell_def ev_step_def Let_def start_eval_def poll_and_send_def
        poll_output_def get_output_def finish_eval_def act_bind_def)
  then show ?thesis using sh_run_reach by blast
qed

theorem prompt_before_evaluation_witness:
  "\<exists>t. (sh_step list_cq null_eval id False)\<^sup>*\<^sup>* (started null_eval (new_shell ([], False)) ()) t \<and> ev_at t = E_begin ''a''
     \<and> evald t = [] \<and> eval_done (sh t) \<and> sent (sh t) = [''> '']"
  by (rule prompt_before_evaluation [OF list_cq_laws]) (simp_all add: null_eval_def)

end
