(* ===== verification/Shell_Receiver.thy ===== *)
theory Shell_Receiver
  imports Shell_Threads
begin

text \<open>
  The receiver thread runs \<^verbatim>\<open>GenericShell::eval\<close>, which theory \<open>Generic_Shell\<close> describes as one function of the shell. Here that
  function is shown to be a sequence of steps of the machine of theory \<open>Shell_Threads\<close>, for every class of shells: so what is
  proved of the function is what the receiver does when the other threads do not come in, and what is proved of the
  machine holds for every line a user can type.
\<close>

section \<open>Classes as the machine sees them\<close>

text \<open>
  A class may tell its evaluator first that something was typed (\<open>cmd\<close>), and may leave the shell on an interrupt
  (\<open>quits\<close>).
\<close>

definition derived_interrupt :: "(string, 'q) cq_ops \<Rightarrow> 'e eval_ops \<Rightarrow> bool \<Rightarrow> ('q, 'e) shell \<Rightarrow> ('q, 'e) shell" where
  "derived_interrupt qo eo quits s = user_interrupt qo eo (interrupt_begins quits s)"

definition derived_class ::
  "(string, 'q) cq_ops \<Rightarrow> 'e eval_ops \<Rightarrow> ('e \<Rightarrow> 'e) \<Rightarrow> bool \<Rightarrow> ('q, 'e) shell_class \<Rightarrow> bool" where
  "derived_class qo eo cmd quits vt \<longleftrightarrow>
     (\<forall>expr s e. evaluator s = Some e \<longrightarrow>
        vt_line_discipline vt expr s =
        line_discipline qo eo (derived_interrupt qo eo quits) expr (s\<lparr>evaluator := Some (cmd e)\<rparr>))"

lemma GenericShell_derived: "derived_class qo eo id False (GenericShell qo eo e0)"
proof -
  have "derived_interrupt qo eo False = user_interrupt qo eo"
    by (rule ext) (simp add: derived_interrupt_def interrupt_begins_def)
  then show ?thesis by (simp add: derived_class_def same_evaluator)
qed

section \<open>What the receiver can do alone\<close>

text \<open>
  The contract of a receiver: over a queue that keeps its laws, \<open>rcv s s'\<close> says that the receiver takes the shell from
  \<open>s\<close> to \<open>s'\<close> while the evaluation thread and the poller stand still. The evaluator stays, and the queue is only
  cancelled on a shell that goes down.
\<close>

locale receiver = work_queue qo items canceled
  for qo :: "(string, 'q) cq_ops" and items :: "'q \<Rightarrow> string list" and canceled :: "'q \<Rightarrow> bool" +
  fixes eo :: "'e eval_ops" and cmd :: "'e \<Rightarrow> 'e" and quits :: bool
begin

definition ok :: "('q, 'e) shell \<Rightarrow> bool" where
  "ok s \<longleftrightarrow> evaluator s \<noteq> None \<and> (canceled (evalque s) \<longrightarrow> self_destruct s)"

definition same_others :: "('q, 'e) threads \<Rightarrow> ('q, 'e) threads \<Rightarrow> bool" where
  "same_others t t' \<longleftrightarrow> ev_at t' = ev_at t \<and> evald t' = evald t \<and> poll_alive t' = poll_alive t \<and> on_socket t' = on_socket t"

definition rcv :: "('q, 'e) shell \<Rightarrow> ('q, 'e) shell \<Rightarrow> bool" where
  "rcv s s' \<longleftrightarrow> (ok s \<longrightarrow> ok s') \<and>
     (\<forall>t. recv_at t = R_idle \<longrightarrow> sh t = s \<longrightarrow>
        (\<exists>t'. (sh_step qo eo cmd quits)\<^sup>*\<^sup>* t t' \<and> sh t' = s' \<and> recv_at t' = R_idle \<and> same_others t t'))"

lemma rcv_refl [simp]: "rcv s s"
  unfolding rcv_def same_others_def by blast

lemma rcv_trans:
  assumes "rcv s s1" "rcv s1 s2"
  shows "rcv s s2"
  unfolding rcv_def
proof (intro conjI allI impI)
  show "ok s2" if "ok s" using assms that by (simp add: rcv_def)
  fix t :: "('q, 'e) threads" assume t: "recv_at t = R_idle" "sh t = s"
  from assms(1) t obtain t1 where t1: "(sh_step qo eo cmd quits)\<^sup>*\<^sup>* t t1" "sh t1 = s1" "recv_at t1 = R_idle" "same_others t t1"
    unfolding rcv_def by blast
  from assms(2) t1(2,3) obtain t2 where "(sh_step qo eo cmd quits)\<^sup>*\<^sup>* t1 t2" "sh t2 = s2" "recv_at t2 = R_idle" "same_others t1 t2"
    unfolding rcv_def by blast
  with t1 show "\<exists>t'. (sh_step qo eo cmd quits)\<^sup>*\<^sup>* t t' \<and> sh t' = s2 \<and> recv_at t' = R_idle \<and> same_others t t'"
    by (intro exI [of _ t2]) (simp add: same_others_def)
qed

text \<open>A single step of the machine.\<close>

lemma rcv_step:
  assumes "ok s \<Longrightarrow> ok s'"
    and "\<And>t. recv_at t = R_idle \<Longrightarrow> sh t = s \<Longrightarrow>
      \<exists>acc. sh_step qo eo cmd quits t (t\<lparr>sh := s', accepted := acc\<rparr>)"
  shows "rcv s s'"
  unfolding rcv_def
proof (intro conjI allI impI)
  show "ok s'" if "ok s" using assms(1) that .
  fix t :: "('q, 'e) threads" assume "recv_at t = R_idle" "sh t = s"
  moreover from assms(2) [OF this] obtain acc where "sh_step qo eo cmd quits t (t\<lparr>sh := s', accepted := acc\<rparr>)" by blast
  ultimately show "\<exists>t'. (sh_step qo eo cmd quits)\<^sup>*\<^sup>* t t' \<and> sh t' = s' \<and> recv_at t' = R_idle \<and> same_others t t'"
    by (intro exI [of _ "t\<lparr>sh := s', accepted := acc\<rparr>"]) (auto simp: same_others_def)
qed

lemma rcv_reply: "rcv s (put_output str s)"
proof (rule rcv_step)
  fix t :: "('q, 'e) threads" assume "recv_at t = R_idle" "sh t = s"
  then have "sh_step qo eo cmd quits t (t\<lparr>sh := put_output str s, accepted := accepted t\<rparr>)"
    using sh_step.reply [of t qo eo cmd quits str] by simp
  then show "\<exists>acc. sh_step qo eo cmd quits t (t\<lparr>sh := put_output str s, accepted := acc\<rparr>)" by blast
qed (simp add: ok_def put_output_def)

lemma rcv_cstr: "rcv s (put_cstr str s)"
  by (simp add: put_cstr_def rcv_reply)

lemma rcv_goodbye:
  assumes "self_destruct s"
  shows "rcv s (s\<lparr>sent := sent s @ [''goodbye!'' @ nl]\<rparr>)"
proof (rule rcv_step)
  fix t :: "('q, 'e) threads" assume "recv_at t = R_idle" "sh t = s"
  then have "sh_step qo eo cmd quits t (t\<lparr>sh := s\<lparr>sent := sent s @ [''goodbye!'' @ nl]\<rparr>, accepted := accepted t\<rparr>)"
    using sh_step.goodbye [of t qo eo cmd quits] assms by simp
  then show "\<exists>acc. sh_step qo eo cmd quits t (t\<lparr>sh := s\<lparr>sent := sent s @ [''goodbye!'' @ nl]\<rparr>, accepted := acc\<rparr>)" by blast
qed (simp add: ok_def)

lemma rcv_typed:
  assumes "\<not> self_destruct s" "evaluator s = Some e"
  shows "rcv s (s\<lparr>evaluator := Some (cmd e)\<rparr>)"
proof (rule rcv_step)
  fix t :: "('q, 'e) threads" assume "recv_at t = R_idle" "sh t = s"
  then have "sh_step qo eo cmd quits t (t\<lparr>sh := s\<lparr>evaluator := Some (cmd e)\<rparr>, accepted := accepted t\<rparr>)"
    using sh_step.typed [of t e qo eo cmd quits] assms by simp
  then show "\<exists>acc. sh_step qo eo cmd quits t (t\<lparr>sh := s\<lparr>evaluator := Some (cmd e)\<rparr>, accepted := acc\<rparr>)" by blast
qed (simp add: ok_def)

lemma rcv_enqueue:
  assumes "\<not> self_destruct s" "ok s"
  shows "rcv s (enqueue_work qo x s)"
proof (rule rcv_step)
  have nc: "\<not> canceled (evalque s)" using assms by (auto simp: ok_def)
  show "ok (enqueue_work qo x s)"
    using enqueue_open(2) [OF laws nc, of x] assms(2) by (simp add: ok_def enqueue_work_def)
  fix t :: "('q, 'e) threads" assume t: "recv_at t = R_idle" "sh t = s"
  from cq_lawsD(1) [OF laws nc, of x] obtain q where q: "cq_push qo x (evalque s) = (Inr (), q)" by blast
  then show "\<exists>acc. sh_step qo eo cmd quits t (t\<lparr>sh := enqueue_work qo x s, accepted := acc\<rparr>)"
    using sh_step.receive [of t qo x q eo cmd quits] t assms(1) unfolding enqueue_work_def by auto
qed

lemma rcv_exit:
  assumes "\<not> self_destruct s"
  shows "rcv s (exit_shell qo s)"
  unfolding rcv_def
proof (intro conjI allI impI)
  show "ok (exit_shell qo s)" if "ok s" using that by (simp add: ok_def exit_shell_def put_output_def Let_def)
  fix t :: "('q, 'e) threads" assume t: "recv_at t = R_idle" "sh t = s"
  let ?t1 = "t\<lparr>sh := s\<lparr>self_destruct := True\<rparr>, recv_at := R_cancel\<rparr>"
  let ?t2 = "?t1\<lparr>sh := exit_shell qo (sh ?t1), recv_at := R_idle\<rparr>"
  have "sh_step qo eo cmd quits t ?t1" using sh_step.leave [of t qo eo cmd quits] t assms by simp
  moreover have "sh_step qo eo cmd quits ?t1 ?t2" by (rule sh_step.cancel) simp
  moreover have "exit_shell qo (s\<lparr>self_destruct := True\<rparr>) = exit_shell qo s" by (simp add: exit_shell_def Let_def)
  ultimately show "\<exists>t'. (sh_step qo eo cmd quits)\<^sup>*\<^sup>* t t' \<and> sh t' = exit_shell qo s \<and> recv_at t' = R_idle \<and> same_others t t'"
    by (intro exI [of _ ?t2]) (auto simp: same_others_def intro: rtranclp_trans)
qed

text \<open>The loop that throws the queue away.\<close>

lemma discard_steps:
  assumes "recv_at t = R_discard" "\<not> canceled (evalque (sh t))"
  shows "\<exists>d. (sh_step qo eo cmd quits)\<^sup>*\<^sup>* t
    (t\<lparr>sh := (sh t)\<lparr>evalque := discard_queue qo (evalque (sh t))\<rparr>, discarded := d, recv_at := R_interrupt\<rparr>)"
  using assms
proof (induction "items (evalque (sh t))" arbitrary: t)
  case Nil
  then have z: "cq_size qo (evalque (sh t)) = 0" by (simp add: cq_lawsD(8) [OF laws])
  then have "t\<lparr>sh := (sh t)\<lparr>evalque := discard_queue qo (evalque (sh t))\<rparr>, discarded := discarded t, recv_at := R_interrupt\<rparr> =
      t\<lparr>recv_at := R_interrupt\<rparr>" by (simp add: discard_queue_def)
  with sh_step.discarded [OF Nil(2) z, of eo cmd quits] show ?case by (metis r_into_rtranclp)
next
  case (Cons x xs)
  obtain q where q: "cq_try_pop qo (evalque (sh t)) = (Some x, q)" "items q = xs" "\<not> canceled q"
    using cq_lawsD(7) [OF laws Cons.prems(2) Cons.hyps(2) [symmetric]] by blast
  have sz: "cq_size qo (evalque (sh t)) = Suc (cq_size qo q)"
    using Cons.hyps(2) [symmetric] q(2) by (simp add: cq_lawsD(8) [OF laws])
  let ?t1 = "t\<lparr>sh := (sh t)\<lparr>evalque := q\<rparr>, discarded := discarded t @ thrown (Some x)\<rparr>"
  have step: "sh_step qo eo cmd quits t ?t1"
    by (rule sh_step.discard [OF Cons.prems(1) _ q(1)]) (simp add: sz)
  have dq: "discard_queue qo (evalque (sh t)) = discard_queue qo q"
    unfolding discard_queue_def sz funpow_Suc_right by (simp add: q(1))
  obtain d where "(sh_step qo eo cmd quits)\<^sup>*\<^sup>* ?t1
      (?t1\<lparr>sh := (sh ?t1)\<lparr>evalque := discard_queue qo (evalque (sh ?t1))\<rparr>, discarded := d, recv_at := R_interrupt\<rparr>)"
    using Cons.hyps(1) [of ?t1] q(2,3) Cons.prems(1) by auto
  with step have "(sh_step qo eo cmd quits)\<^sup>*\<^sup>* t
      (?t1\<lparr>sh := (sh ?t1)\<lparr>evalque := discard_queue qo (evalque (sh ?t1))\<rparr>, discarded := d, recv_at := R_interrupt\<rparr>)"
    by (rule converse_rtranclp_into_rtranclp)
  then show ?case by (intro exI [of _ d]) (simp add: dq)
qed

lemma rcv_interrupt:
  assumes "\<not> self_destruct s" "ok s"
  shows "rcv s (derived_interrupt qo eo quits s)"
  unfolding rcv_def
proof (intro conjI allI impI)
  obtain e where e: "evaluator s = Some e" using assms(2) by (auto simp: ok_def)
  have nc: "\<not> canceled (evalque (interrupt_begins quits s))" "evaluator (interrupt_begins quits s) = Some e"
    using assms e by (auto simp: ok_def interrupt_begins_def)
  show "ok (derived_interrupt qo eo quits s)"
    using interrupt_open [OF laws nc] by (simp add: ok_def derived_interrupt_def)
  fix t :: "('q, 'e) threads" assume t: "recv_at t = R_idle" "sh t = s"
  let ?s1 = "interrupt_begins quits s"
  let ?s2 = "?s1\<lparr>evalque := discard_queue qo (evalque ?s1)\<rparr>"
  let ?t1 = "t\<lparr>sh := ?s1, recv_at := R_discard\<rparr>"
  have "sh_step qo eo cmd quits t ?t1" using sh_step.interrupt [of t qo eo cmd quits] t assms by simp
  moreover obtain d where "(sh_step qo eo cmd quits)\<^sup>*\<^sup>* ?t1 (?t1\<lparr>sh := ?s2, discarded := d, recv_at := R_interrupt\<rparr>)"
    using discard_steps [of ?t1] nc(1) by auto
  moreover let ?t2 = "?t1\<lparr>sh := ?s2, discarded := d, recv_at := R_interrupt\<rparr>"
  let ?t3 = "?t2\<lparr>sh := interrupt_ends eo (sh ?t2), recv_at := R_idle\<rparr>"
  have "sh_step qo eo cmd quits ?t2 ?t3" by (rule sh_step.interrupted) simp
  ultimately have "(sh_step qo eo cmd quits)\<^sup>*\<^sup>* t ?t3"
    by (meson converse_rtranclp_into_rtranclp rtranclp.rtrancl_into_rtrancl)
  moreover have "interrupt_ends eo ?s2 = derived_interrupt qo eo quits s"
    by (simp add: interrupt_ends_def derived_interrupt_def user_interrupt_def Let_def)
  ultimately show "\<exists>t'. (sh_step qo eo cmd quits)\<^sup>*\<^sup>* t t' \<and> sh t' = derived_interrupt qo eo quits s \<and> recv_at t' = R_idle
      \<and> same_others t t'"
    by (intro exI [of _ ?t3]) (simp add: same_others_def)
qed

section \<open>The line discipline\<close>

lemma ok_put [simp]: "ok (put_output str s) = ok s" "ok (put_cstr str s) = ok s"
  "self_destruct (put_output str s) = self_destruct s" "self_destruct (put_cstr str s) = self_destruct s"
  by (simp_all add: ok_def put_cstr_def put_output_def)

lemma rcv_telnet_do:
  assumes "\<not> self_destruct s" "ok s"
  shows "rcv s (telnet_do qo (derived_interrupt qo eo quits) expr brk a s)"
  using assms unfolding telnet_do_def Let_def
  by (auto intro: rcv_cstr rcv_trans [OF rcv_cstr rcv_enqueue] rcv_trans [OF rcv_cstr rcv_interrupt] split: option.splits)

lemma rcv_telnet:
  assumes "telnet_loop qo eo (derived_interrupt qo eo quits) expr m brk s = (goes_on, s')" "\<not> self_destruct s" "ok s"
  shows "rcv s s' \<and> (goes_on \<longrightarrow> s' = s)"
  using assms
proof (induction "length expr - m" arbitrary: m brk rule: less_induct)
  case less
  let ?L = "telnet_loop qo eo (derived_interrupt qo eo quits) expr"
  have more: "rcv s s' \<and> (goes_on \<longrightarrow> s' = s)" if "?L (m + 2) brk' s = (goes_on, s')" "m + 2 \<le> length expr" for brk'
    using less(1) [OF _ that(1)] that(2) less.prems(2,3) by simp
  have cut: "rcv s (derived_interrupt qo eo quits (put_cstr str s))" for str
    using less.prems(2,3) by (intro rcv_trans [OF rcv_cstr rcv_interrupt]) simp_all
  from less.prems(1) show ?case
    unfolding telnet_loop.simps [of _ _ _ _ m] Let_def
    using rcv_exit [OF less.prems(2)] rcv_telnet_do [OF less.prems(2,3)] rcv_reply rcv_cstr cut more
    by (auto split: if_splits)
qed

lemma rcv_discipline:
  assumes "line_discipline qo eo (derived_interrupt qo eo quits) expr s = (res, s')" "\<not> self_destruct s" "ok s"
  shows "rcv s s' \<and> res = Inr ()"
proof (cases "expr = []")
  case True
  with assms rcv_enqueue show ?thesis by (auto simp: line_discipline_def)
next
  case False
  obtain goes_on s1 where l: "telnet_loop qo eo (derived_interrupt qo eo quits) expr (iac_search expr (length expr - 20)) None s = (goes_on, s1)"
    by fastforce
  have r: "rcv s s1" "goes_on \<Longrightarrow> s1 = s" using rcv_telnet [OF l assms(2,3)] by auto
  obtain e where "evaluator s = Some e" using assms(3) by (auto simp: ok_def)
  with assms(1) False l r rcv_interrupt [OF assms(2,3)] rcv_exit [OF assms(2)] rcv_enqueue [OF assms(2,3)]
  show ?thesis by (cases goes_on) (auto simp: line_discipline_def Let_def split: if_splits)
qed

lemma rcv_eval:
  assumes "derived_class qo eo cmd quits vt" "shell_eval qo eo vt expr s = (res, s')" "\<not> self_destruct s" "ok s"
  shows "rcv s s' \<and> res = Inr (self_destruct s')"
proof -
  obtain e where e: "evaluator s = Some e" using assms(4) by (auto simp: ok_def)
  obtain r s1 where d: "(if apply_discipline s then vt_line_discipline vt expr s else (Inr (), enqueue_work qo expr s)) = (r, s1)"
    by fastforce
  have s1: "rcv s s1 \<and> r = Inr ()"
  proof (cases "apply_discipline s")
    case True
    with d assms(1) e have ld: "line_discipline qo eo (derived_interrupt qo eo quits) expr (s\<lparr>evaluator := Some (cmd e)\<rparr>) = (r, s1)"
      by (auto simp: derived_class_def)
    have "ok (s\<lparr>evaluator := Some (cmd e)\<rparr>)" using assms(4) by (simp add: ok_def)
    with rcv_discipline [OF ld] assms(3) rcv_trans [OF rcv_typed [OF assms(3) e]] show ?thesis by simp
  next
    case False
    with d rcv_enqueue [OF assms(3,4)] show ?thesis by auto
  qed
  with d e assms(2,3) rcv_trans rcv_goodbye [of s1] show ?thesis
    by (auto simp: shell_eval_def split: if_splits)
qed

lemma rcv_session:
  assumes "derived_class qo eo cmd quits vt" "shell_session qo eo vt ls s = (res, s')" "\<not> self_destruct s" "ok s"
  shows "rcv s s'"
  using assms(2-4)
proof (induction ls arbitrary: s)
  case (Cons l ls)
  obtain r s1 where e: "shell_eval qo eo vt l s = (r, s1)" by fastforce
  from rcv_eval [OF assms(1) e Cons.prems(2,3)] have s1: "rcv s s1" "r = Inr (self_destruct s1)" by auto
  show ?case
  proof (cases "self_destruct s1")
    case False
    with Cons.prems(1) e s1 have "shell_session qo eo vt ls s1 = (res, s')" by simp
    with Cons.IH False s1(1) Cons.prems(3) show ?thesis by (metis rcv_def rcv_trans)
  qed (use Cons.prems(1) e s1 in simp)
qed simp

end

interpretation list_receiver: receiver list_cq fst snd eo cmd quits for eo :: "'e eval_ops" and cmd quits
  by unfold_locales


definition typed_lines :: "string list" where
  "typed_lines = [''(list)'', [CHR 0x03, CHR 0x18], [CHR 0xFF, CHR 0xFD, CHR 0x06], ''(+ 1 2)'', ''.'']"


end
