(* ===== verification/Top_Shell.thy ===== *)
theory Top_Shell
  imports Shells Shell_Receiver
begin

text \<open>
  The statistics shell \<^verbatim>\<open>top\<close>: its evaluator (\<^verbatim>\<open>TopEval.cc\<close>), which always has something to show; the shell itself (\<^verbatim>\<open>TopShell.cc\<close>),
  the only one that overrides \<^verbatim>\<open>user_interrupt\<close> and \<^verbatim>\<open>line_discipline\<close>; and the command that enters it (\<^verbatim>\<open>TopShellModule.cc\<close>).
\<close>

section \<open>The evaluator of top\<close>

text \<open>
  \<^verbatim>\<open>TopEval\<close>: \<open>te_refresh\<close> is the waiting time, a \<^verbatim>\<open>double\<close>, of a type that does not matter; \<open>te_socks\<close> are the sockets of the
  manager, which \<^verbatim>\<open>kill\<close> and the display work on.
\<close>

record 'r top_eval =
  te_started :: bool
  te_done :: bool
  te_error :: bool
  te_refresh :: 'r
  te_nlines :: int
  te_msg :: string
  te_socks :: sock_list

definition new_top_eval :: "'r \<Rightarrow> sock_list \<Rightarrow> 'r top_eval" where
  "new_top_eval refresh socks = \<lparr>te_started = False, te_done = False, te_error = False, te_refresh = refresh, te_nlines = 24,
     te_msg = [], te_socks = socks\<rparr>"

text \<open>\<^verbatim>\<open>std::atoi\<close>: 0 where there is no number.\<close>

definition atoi :: "string \<Rightarrow> int" where
  "atoi s = (case strtol s of None \<Rightarrow> 0 | Some i \<Rightarrow> sint (word_of_int i :: 32 word))"

text \<open>The thread number is printed as a \<^verbatim>\<open>size_t\<close> and passed on as a \<^verbatim>\<open>pid_t\<close>.\<close>

definition top_eval_expr :: "string \<Rightarrow> 'r top_eval \<Rightarrow> 'r top_eval" where
  "top_eval_expr expr e =
     (if expr = [] \<or> expr = nl \<or> expr = ''foo'' @ nl then e
      else if hd expr = CHR ''h'' then e\<lparr>te_msg := ''Available commands: display kill''\<rparr>
      else if hd expr = CHR ''k''
      then (case find_chr CHR '' '' expr of
              None \<Rightarrow> e\<lparr>te_msg := ''Usage: kill <thread-id>''\<rparr>
            | Some pos \<Rightarrow>
                (let n = atoi (drop pos expr); shown = show_nat (unat (word_of_int n :: 64 word))
                 in case kill n (te_socks e) of (rc, socks) \<Rightarrow>
                      e\<lparr>te_socks := socks,
                        te_msg := (if rc then ''Killed thread '' else ''No such thread '') @ shown\<rparr>))
      else if hd expr = CHR ''d''
      then (case find_chr CHR '' '' expr of
              None \<Rightarrow> e\<lparr>te_msg := ''Usage: display <num-lines-to-display>''\<rparr>
            | Some pos \<Rightarrow> e\<lparr>te_nlines := atoi (drop pos expr)\<rparr>)
      else e\<lparr>te_msg := ''Unknown top command >>'' @ expr\<rparr>)"

definition clear_screen :: string where
  "clear_screen = [CHR 0x1B] @ ''[2J''"

text \<open>\<open>display\<close> is \<^verbatim>\<open>CogServer::display_stats\<close> as long as no ping throws. The wait is bounded, so a poll always returns.\<close>

definition top_poll_result :: "(int \<Rightarrow> sock_list \<Rightarrow> string \<times> sock_list) \<Rightarrow> 'r top_eval \<Rightarrow> string \<times> 'r top_eval" where
  "top_poll_result display e =
     (if te_done e then ([], e)
      else let ret = (if te_started e then [] else nl);
               e1 = e\<lparr>te_started := True\<rparr>
           in case display (te_nlines e1) (te_socks e1) of (stats, socks) \<Rightarrow>
                (ret @ clear_screen @ stats @ te_msg e1, e1\<lparr>te_socks := socks, te_msg := []\<rparr>))"

definition top_begin_eval :: "'r top_eval \<Rightarrow> 'r top_eval" where
  "top_begin_eval e = e\<lparr>te_done := False\<rparr>"

definition top_set_interval :: "'r \<Rightarrow> 'r top_eval \<Rightarrow> 'r top_eval" where
  "top_set_interval secs e = e\<lparr>te_refresh := secs\<rparr>"

text \<open>The user typed something.\<close>

definition top_cmd :: "'r top_eval \<Rightarrow> 'r top_eval" where
  "top_cmd e = e\<lparr>te_done := True, te_started := False\<rparr>"

definition top_interrupt :: "'r top_eval \<Rightarrow> 'r top_eval" where
  "top_interrupt e = e\<lparr>te_done := True, te_started := False, te_error := True\<rparr>"

text \<open>The methods that \<^verbatim>\<open>TopEval\<close> does not define are those of \<^verbatim>\<open>GenericEval\<close>, in \<open>base\<close>.\<close>

definition top_ops :: "(int \<Rightarrow> sock_list \<Rightarrow> string \<times> sock_list) \<Rightarrow> 'r top_eval eval_ops \<Rightarrow> 'r top_eval eval_ops" where
  "top_ops display base =
     base\<lparr>ev_begin := top_begin_eval, ev_eval := (\<lambda>expr e. (Inr (), top_eval_expr expr e)), ev_ready := (\<lambda>_. True),
          ev_poll := top_poll_result display, ev_interrupt := top_interrupt\<rparr>"

lemma top_ops_sel:
  "ev_begin (top_ops display base) = top_begin_eval" "ev_ready (top_ops display base) e"
  "ev_eval (top_ops display base) expr e = (Inr (), top_eval_expr expr e)"
  "ev_poll (top_ops display base) = top_poll_result display"
  by (simp_all add: top_ops_def)

lemma top_eval_expr_runs [simp]: "te_done (top_eval_expr expr e) = te_done e"
  by (auto simp: top_eval_expr_def Let_def split: option.splits prod.splits)

lemma top_poll_runs:
  "\<not> te_done e \<Longrightarrow> fst (top_poll_result display e) \<noteq> [] \<and> \<not> te_done (snd (top_poll_result display e))"
  by (simp add: top_poll_result_def Let_def clear_screen_def split: prod.splits)

lemma collect_top_diverges:
  assumes "collect_results eo acc e = Some r"
  shows "eo = top_ops display base \<longrightarrow> te_done e"
proof (rule collect_results.raw_induct [OF _ assms])
  fix rec eo acc r and e :: "'a top_eval"
  assume IH: "\<And>eo acc e r. rec eo acc e = Some r \<Longrightarrow> eo = top_ops display base \<longrightarrow> te_done e"
    and body: "(if \<not> ev_ready eo e then None else case ev_poll eo e of (chunk, e1) \<Rightarrow>
      if chunk = [] then Some (acc, e1) else rec eo (acc @ chunk) e1) = Some r"
  show "eo = top_ops display base \<longrightarrow> te_done e"
  proof (intro impI, rule ccontr)
    assume eo: "eo = top_ops display base" and run: "\<not> te_done e"
    obtain chunk e1 where p: "top_poll_result display e = (chunk, e1)" by fastforce
    with top_poll_runs [OF run, of display] body eo have "rec eo (acc @ chunk) e1 = Some r" "\<not> te_done e1"
      by (auto simp: top_ops_sel)
    with IH eo show False by blast
  qed
qed


definition top_base :: "nat top_eval eval_ops" where
  "top_base = \<lparr>ev_begin = id, ev_eval = (\<lambda>_ e. (Inr (), e)), ev_ready = (\<lambda>_. True), ev_poll = (\<lambda>e. ([], e)), ev_interrupt = id,
     ev_clear_pending = id, ev_input_pending = (\<lambda>_. False), ev_error = te_error, ev_error_string = (\<lambda>_. [])\<rparr>"


section \<open>The shell\<close>

text \<open>\<open>top_refresh\<close> is \<^verbatim>\<open>_refresh\<close>; \<open>three\<close> is the default of three seconds. \<^verbatim>\<open>_top_eval\<close> is the evaluator of the shell.\<close>

record ('q, 'r) top_shell =
  tshell :: "('q, 'r top_eval) shell"
  top_refresh :: 'r

definition TopShell :: "'r \<Rightarrow> 'q \<Rightarrow> string \<times> ('q, 'r) top_shell" where
  "TopShell three q =
     (''top '', \<lparr>tshell = (new_shell q)\<lparr>normal_prompt := ''top> '', abort_prompt := [], pending_prompt := [], show_prompt := True\<rparr>,
                top_refresh = three\<rparr>)"

definition top_shell_interval :: "'r \<Rightarrow> ('q, 'r) top_shell \<Rightarrow> ('q, 'r) top_shell" where
  "top_shell_interval refresh s = s\<lparr>top_refresh := refresh\<rparr>"

definition top_user_interrupt ::
  "(string, 'q) cq_ops \<Rightarrow> 'r top_eval eval_ops \<Rightarrow> ('q, 'r top_eval) shell \<Rightarrow> ('q, 'r top_eval) shell" where
  "top_user_interrupt qo eo s = user_interrupt qo eo (s\<lparr>self_destruct := True\<rparr>)"

definition top_line_discipline ::
  "(string, 'q) cq_ops \<Rightarrow> 'r top_eval eval_ops \<Rightarrow> string \<Rightarrow> ('q, 'r top_eval, unit) sh_act" where
  "top_line_discipline qo eo expr s =
     (case evaluator s of
        None \<Rightarrow> (Inl Null_pointer, s)
      | Some e \<Rightarrow> line_discipline qo eo (top_user_interrupt qo eo) expr (s\<lparr>evaluator := Some (top_cmd e)\<rparr>))"

text \<open>\<open>e0\<close> is the evaluator of the new thread, as \<^verbatim>\<open>TopEval::get_evaluator\<close> makes it.\<close>

definition top_get_evaluator :: "'r \<Rightarrow> 'r top_eval \<Rightarrow> 'r top_eval" where
  "top_get_evaluator refresh e0 = top_set_interval refresh e0"

definition top_class ::
  "(string, 'q) cq_ops \<Rightarrow> 'r top_eval eval_ops \<Rightarrow> 'r \<Rightarrow> 'r top_eval \<Rightarrow> ('q, 'r top_eval) shell_class" where
  "top_class qo eo refresh e0 =
     \<lparr>vt_user_interrupt = top_user_interrupt qo eo, vt_line_discipline = top_line_discipline qo eo,
      vt_get_evaluator = top_get_evaluator refresh e0\<rparr>"

text \<open>
  The command \<^verbatim>\<open>top\<close>: the shell takes over the console, with the interval that was asked for (\<open>atof\<close> reads it), and is given
  its first line.
\<close>

definition top_execute ::
  "(string, 'q) cq_ops \<Rightarrow> 'r top_eval eval_ops \<Rightarrow> (string \<Rightarrow> 'r) \<Rightarrow> 'r top_eval \<Rightarrow> string list \<Rightarrow> (('q, 'r) top_shell, bool) act" where
  "top_execute qo eo atof e0 params s =
     (case set_socket (tshell s) of
        (Inl x, g) \<Rightarrow> (Inl x, s\<lparr>tshell := g\<rparr>)
      | (Inr _, g) \<Rightarrow>
          (let s1 = s\<lparr>tshell := g\<rparr>;
               s2 = (if params \<noteq> [] then top_shell_interval (atof (hd params)) s1 else s1)
           in case shell_eval qo eo (top_class qo eo (top_refresh s2) e0) ''foo'' (tshell s2) of
                (res, g2) \<Rightarrow> (res, s2\<lparr>tshell := g2\<rparr>)))"

lemma top_class_sel [simp]:
  "vt_user_interrupt (top_class qo eo refresh e0) = top_user_interrupt qo eo"
  "vt_line_discipline (top_class qo eo refresh e0) = top_line_discipline qo eo"
  "vt_get_evaluator (top_class qo eo refresh e0) = top_set_interval refresh e0"
  by (simp_all add: top_class_def top_get_evaluator_def)

text \<open>Top is the class that tells its evaluator about each line and that leaves on an interrupt.\<close>

lemma top_class_derived: "derived_class qo eo top_cmd True (top_class qo eo refresh e0)"
proof -
  have "top_user_interrupt qo eo = derived_interrupt qo eo True"
    by (rule ext) (simp add: top_user_interrupt_def derived_interrupt_def interrupt_begins_def)
  then show ?thesis by (simp add: derived_class_def top_line_discipline_def)
qed

section \<open>Lines typed to top\<close>

text \<open>What \<^verbatim>\<open>GenericEval\<close> has to do for top: the flag that \<^verbatim>\<open>cmd\<close> sets is not what makes input pending.\<close>

locale top_queue = work_queue qo items canceled
  for qo :: "(string, 'q) cq_ops" and items :: "'q \<Rightarrow> string list" and canceled :: "'q \<Rightarrow> bool" +
  fixes base :: "'r top_eval eval_ops" and display :: "int \<Rightarrow> sock_list \<Rightarrow> string \<times> sock_list"
  assumes pending_cmd: "ev_input_pending base (top_cmd e) = ev_input_pending base e"

lemma top_ops_pending [simp]: "ev_input_pending (top_ops display base) = ev_input_pending base"
  by (simp add: top_ops_def)

sublocale top_queue \<subseteq> top: shell_family qo items canceled "top_ops display base" "top_class qo (top_ops display base) refresh e0"
  for refresh :: 'r and e0
proof
  let ?eo = "top_ops display base" and ?vt = "top_class qo (top_ops display base) refresh e0"
  show "cq_laws qo items canceled" by (rule laws)
  fix s :: "('q, 'r top_eval) shell" and e expr assume e: "evaluator s = Some e"
  let ?s = "s\<lparr>evaluator := Some (top_cmd e)\<rparr>"
  have ld: "vt_line_discipline ?vt expr s = line_discipline qo ?eo (top_user_interrupt qo ?eo) expr ?s"
    using e by (simp add: top_line_discipline_def)
  show "\<exists>e'. vt_line_discipline ?vt expr s = (Inr (), enqueue_work qo (expr @ nl) (s\<lparr>evaluator := Some e'\<rparr>))
     \<and> ev_input_pending ?eo e' = ev_input_pending ?eo e" if "ordinary_line (ev_input_pending ?eo e) expr"
    unfolding ld using that pending_cmd discipline_plain [of ?eo "top_cmd e" expr ?s] by (intro exI [of _ "top_cmd e"]) simp
  show "\<exists>e'. vt_line_discipline ?vt expr s = (Inr (), exit_shell qo (s\<lparr>evaluator := Some e'\<rparr>))"
    if "\<not> ev_input_pending ?eo e" "exit_line expr"
    unfolding ld using that pending_cmd discipline_exit [of expr ?s "top_cmd e" ?eo] by (intro exI [of _ "top_cmd e"]) simp
  show "\<exists>s'. vt_line_discipline ?vt expr s = (Inr (), s') \<and> items (evalque s') = [] \<and> sent s' = sent s
     \<and> pending_output s' = pending_output s @ abort_prompt s \<and> eval_done s'"
    if "\<not> canceled (evalque s)" "interrupt_line expr"
    unfolding ld using that interrupt_open [OF laws, of "?s\<lparr>self_destruct := True\<rparr>" "top_cmd e" ?eo]
    by (simp add: discipline_interrupt top_user_interrupt_def)
qed

interpretation list_top: top_queue list_cq fst snd top_base display for display
  by unfold_locales (simp add: top_base_def)

text \<open>
  C30. An interrupt character typed to \<^verbatim>\<open>top\<close> leaves the shell, whatever is queued: the display is stopped, the queue is thrown
  away, and the shell says goodbye and deletes itself. To a shell of any other class the same line only interrupts the
  evaluation, and the shell goes on.
\<close>

theorem top_interrupt_leaves:
  assumes "cq_laws qo items canceled" "\<not> canceled (evalque s)" "evaluator s = Some e" "\<not> self_destruct s" "apply_discipline s"
    and "interrupt_line expr"
  shows "(\<exists>s'. shell_eval qo eo (top_class qo eo refresh e0) expr s = (Inr True, s') \<and> self_destruct s' \<and> items (evalque s') = []
       \<and> evaluator s' = Some (ev_clear_pending eo (ev_interrupt eo (top_cmd e))) \<and> sent s' = sent s @ [''goodbye!'' @ nl])
    \<and> (\<exists>s'. shell_eval qo eo (GenericShell qo eo e0) expr s = (Inr False, s') \<and> \<not> self_destruct s' \<and> items (evalque s') = []
       \<and> evaluator s' = Some (ev_clear_pending eo (ev_interrupt eo e)) \<and> sent s' = sent s)"
proof
  let ?s = "s\<lparr>evaluator := Some (top_cmd e), self_destruct := True\<rparr>"
  have "top_line_discipline qo eo expr s = (Inr (), user_interrupt qo eo ?s)"
    using assms(3) by (simp add: top_line_discipline_def discipline_interrupt [OF assms(6)] top_user_interrupt_def)
  then show "\<exists>s'. shell_eval qo eo (top_class qo eo refresh e0) expr s = (Inr True, s') \<and> self_destruct s' \<and> items (evalque s') = []
       \<and> evaluator s' = Some (ev_clear_pending eo (ev_interrupt eo (top_cmd e))) \<and> sent s' = sent s @ [''goodbye!'' @ nl]"
    using assms(2-5) interrupt_open [OF assms(1), of ?s "top_cmd e" eo] by (simp add: shell_eval_def)
  show "\<exists>s'. shell_eval qo eo (GenericShell qo eo e0) expr s = (Inr False, s') \<and> \<not> self_destruct s' \<and> items (evalque s') = []
       \<and> evaluator s' = Some (ev_clear_pending eo (ev_interrupt eo e)) \<and> sent s' = sent s"
    using assms(3-5) interrupt_open [OF assms(1-3), of eo] by (simp add: shell_eval_def discipline_interrupt [OF assms(6)])
qed

abbreviation demo_display :: "int \<Rightarrow> sock_list \<Rightarrow> string \<times> sock_list" where
  "demo_display \<equiv> (\<lambda>n l. (''stats'', l))"

definition demo_top :: "(string list \<times> bool, nat top_eval) shell" where
  "demo_top = (tshell (snd (TopShell 3 ([''d 5'' @ nl], False))))\<lparr>evaluator := Some (new_top_eval 3 [])\<rparr>"

lemma demo_top_sel:
  "evalque demo_top = ([''d 5'' @ nl], False)" "evaluator demo_top = Some (new_top_eval 3 [])" "\<not> self_destruct demo_top"
  "apply_discipline demo_top" "sent demo_top = []"
  by (simp_all add: demo_top_def TopShell_def new_shell_def)

theorem top_interrupt_leaves_witness:
  "(\<exists>s'. shell_eval list_cq (top_ops demo_display top_base) (top_class list_cq (top_ops demo_display top_base) 3 (new_top_eval 3 [])) [CHR 0x18] demo_top =
        (Inr True, s') \<and> self_destruct s' \<and> fst (evalque s') = []
     \<and> evaluator s' = Some (ev_clear_pending (top_ops demo_display top_base) (ev_interrupt (top_ops demo_display top_base) (top_cmd (new_top_eval 3 []))))
     \<and> sent s' = sent demo_top @ [''goodbye!'' @ nl])
   \<and> (\<exists>s'. shell_eval list_cq (top_ops demo_display top_base) (GenericShell list_cq (top_ops demo_display top_base) (new_top_eval 3 [])) [CHR 0x18] demo_top =
        (Inr False, s') \<and> \<not> self_destruct s' \<and> fst (evalque s') = []
     \<and> evaluator s' = Some (ev_clear_pending (top_ops demo_display top_base) (ev_interrupt (top_ops demo_display top_base) (new_top_eval 3 [])))
     \<and> sent s' = sent demo_top)"
  by (rule top_interrupt_leaves [OF list_cq_laws])
    (simp_all add: demo_top_sel interrupt_line_def no_iac_def)

text \<open>
  The command sets the shell up: the interval is the one asked for, or else the default; the first line is queued for the
  evaluation thread; and a second \<^verbatim>\<open>set_socket\<close> would be refused.
\<close>

theorem top_execute_starts:
  assumes "cq_laws qo items canceled" "items q = []" "\<not> canceled q"
    and "\<And>e. ev_clear_pending base e = e" "\<And>e. ev_input_pending base e = False"
  shows "\<exists>s'. top_execute qo (top_ops display base) atof e0 params (snd (TopShell three q)) = (Inr False, s')
     \<and> has_sock (tshell s') \<and> items (evalque (tshell s')) = [''foo'' @ nl]
     \<and> evaluator (tshell s') = Some (top_cmd (top_set_interval (if params = [] then three else atof (hd params)) e0))"
proof -
  let ?r = "if params = [] then three else atof (hd params)" and ?eo = "top_ops display base"
  let ?e = "top_set_interval ?r e0"
  let ?g = "(tshell (snd (TopShell three q)))\<lparr>has_sock := True, evaluator := Some (top_cmd ?e)\<rparr>"
  have clear: "ev_clear_pending ?eo e = e" for e using assms(4) by (simp add: top_ops_def)
  have "ordinary_line (ev_input_pending ?eo (top_cmd ?e)) ''foo''"
    by (simp add: ordinary_line_def interrupt_line_def exit_line_def no_iac_def)
  then have "line_discipline qo ?eo (top_user_interrupt qo ?eo) ''foo'' ?g = (Inr (), enqueue_work qo (''foo'' @ nl) ?g)"
    by (rule discipline_plain) simp
  moreover have "items (evalque (enqueue_work qo (''foo'' @ nl) ?g)) = [''foo'' @ nl]"
    using enqueue_open(1) [OF assms(1), of ?g] assms(2,3) by (simp add: TopShell_def new_shell_def)
  ultimately show ?thesis
    by (auto simp: top_execute_def set_socket_def TopShell_def new_shell_def top_shell_interval_def shell_eval_def clear
        top_line_discipline_def enqueue_work_def Let_def)
qed

section \<open>The display\<close>

text \<open>While nobody types, each poll shows the statistics and the evaluation goes on.\<close>

lemma top_poll_output:
  assumes "evaluator s = Some e" "\<not> te_done e" "pending_output s = []"
  shows "\<exists>out e'. poll_output (top_ops display base) s = (Inr out, s\<lparr>evaluator := Some e', pending_output := []\<rparr>)
     \<and> out \<noteq> [] \<and> \<not> te_done e'"
proof -
  obtain out e' where p: "top_poll_result display e = (out, e')" by fastforce
  with top_poll_runs [OF assms(2), of display] have "out \<noteq> []" "\<not> te_done e'" by simp_all
  with p assms(1,3) show ?thesis
    by (intro exI [of _ out] exI [of _ e']) (simp add: poll_output_def get_output_def top_ops_sel)
qed

lemma top_poll_keeps:
  assumes "poll_and_send (top_ops display base) s = (res, s')" "evaluator s = Some e" "\<not> te_done e"
  shows "(\<exists>e'. evaluator s' = Some e' \<and> \<not> te_done e') \<and> eval_done s' = eval_done s
     \<and> evalque s' = evalque s \<and> self_destruct s' = self_destruct s"
proof (cases "pending_output s = []")
  case True
  from top_poll_output [OF assms(2,3) True, of display base] assms(1) show ?thesis
    by (auto simp: poll_and_send_def act_bind_def)
next
  case False
  with assms show ?thesis
    by (auto simp: poll_and_send_def act_bind_def poll_output_def get_output_def)
qed

text \<open>A state in which top displays and the evaluation thread waits for it to end.\<close>

definition displaying :: "('q, 'r top_eval) threads \<Rightarrow> bool" where
  "displaying t \<longleftrightarrow> ev_at t = E_wait \<and> \<not> eval_done (sh t) \<and> \<not> self_destruct (sh t)
     \<and> (\<exists>e. evaluator (sh t) = Some e \<and> \<not> te_done e)"

text \<open>What the evaluation thread and the poller do by themselves.\<close>

definition background :: "sched \<Rightarrow> bool" where
  "background a \<longleftrightarrow> a \<in> {Poll, Poll_end, Eval_step}"

lemma displaying_step:
  assumes "displaying t" "background a" "sh_do qo (top_ops display base) cmd quits a t = Some t'"
  shows "displaying t' \<and> evalque (sh t') = evalque (sh t) \<and> evald t' = evald t"
proof -
  from assms(1) obtain e where e: "evaluator (sh t) = Some e" "\<not> te_done e" by (auto simp: displaying_def)
  from assms(2) consider "a = Poll" | "a = Poll_end" | "a = Eval_step" by (auto simp: background_def)
  then show ?thesis
  proof cases
    case 1
    obtain res s' where p: "poll_and_send (top_ops display base) (sh t) = (res, s')" by fastforce
    with assms(3) e 1 have "t' = t\<lparr>sh := s'\<rparr>" by (auto split: if_splits sum.splits)
    with top_poll_keeps [OF p e] assms(1) show ?thesis by (auto simp: displaying_def)
  qed (use assms in \<open>auto simp: displaying_def ev_step_def Let_def split: if_splits\<close>)
qed

text \<open>
  C38. Commands typed to \<^verbatim>\<open>top\<close> in quick succession: the display has already been told to stop when the first of them is
  begun, so it starts again and the second one stays in the queue, however long the evaluation thread and the poller
  run, until the user types something else.
\<close>

theorem top_command_waits:
  assumes "displaying t" "list_all background acts" "sh_run qo (top_ops display base) cmd quits acts t = Some t'"
  shows "evalque (sh t') = evalque (sh t) \<and> evald t' = evald t \<and> displaying t'"
  using assms
proof (induction acts arbitrary: t)
  case (Cons a acts)
  then obtain t1 where t1: "sh_do qo (top_ops display base) cmd quits a t = Some t1"
    "sh_run qo (top_ops display base) cmd quits acts t1 = Some t'"
    by (auto split: option.splits)
  with displaying_step [OF Cons.prems(1) _ t1(1)] Cons.prems(2)
  have "displaying t1" "evalque (sh t1) = evalque (sh t)" "evald t1 = evald t" by simp_all
  with Cons.IH [OF this(1)] Cons.prems(2) t1(2) show ?case by simp
qed simp

definition two_lines :: "sched list" where
  "two_lines = [Typed, Receive (''foo'' @ nl), Eval_step, Eval_step, Eval_step, Eval_step, Eval_step, Poll,
     Typed, Receive (''d 10'' @ nl), Typed, Receive (''k 7'' @ nl), Poll, Eval_step, Eval_step, Eval_step, Eval_step, Eval_step]"

definition two_lines_end :: "(string list \<times> bool, nat top_eval) threads" where
  "two_lines_end = the (sh_run list_cq (top_ops demo_display top_base) top_cmd True two_lines
     (started (top_ops demo_display top_base) (tshell (snd (TopShell 3 ([], False)))) (new_top_eval 3 [])))"

definition two_lines_later :: "(string list \<times> bool, nat top_eval) threads" where
  "two_lines_later = the (sh_run list_cq (top_ops demo_display top_base) top_cmd True [Poll, Poll, Poll] two_lines_end)"

lemma two_lines_displaying: "displaying two_lines_end"
proof -
  have "ev_at two_lines_end = E_wait" "\<not> eval_done (sh two_lines_end)" "\<not> self_destruct (sh two_lines_end)"
    "map_option te_done (evaluator (sh two_lines_end)) = Some False"
    by code_simp+
  then show ?thesis by (auto simp: displaying_def)
qed

theorem top_command_waits_witness:
  "fst (evalque (sh two_lines_end)) = [''k 7'' @ nl]
   \<and> evalque (sh two_lines_later) = evalque (sh two_lines_end) \<and> evald two_lines_later = evald two_lines_end
   \<and> displaying two_lines_later"
proof
  show "fst (evalque (sh two_lines_end)) = [''k 7'' @ nl]" by code_simp
  have "sh_run list_cq (top_ops demo_display top_base) top_cmd True [Poll, Poll, Poll] two_lines_end = Some two_lines_later"
    unfolding two_lines_later_def by code_simp
  then show "evalque (sh two_lines_later) = evalque (sh two_lines_end) \<and> evald two_lines_later = evald two_lines_end
     \<and> displaying two_lines_later"
    by (rule top_command_waits [OF two_lines_displaying, rotated]) (simp add: background_def)
qed

end
