(* ===== verification/Shell_Modules.thy ===== *)
theory Shell_Modules
  imports Builtin Top_Shell
begin

text \<open>
  The modules of the server as shared libraries: what the macros \<^verbatim>\<open>DECLARE_MODULE\<close> and \<^verbatim>\<open>DEFINE_SHELL_MODULE\<close> generate, the
  constructor, \<^verbatim>\<open>init\<close> and destructor of each module, and the descriptions of its commands; and what comes of loading all
  of them. Theory \<open>Modules\<close> has the manager that loads them, theory \<open>Requests\<close> the command table they register with.
\<close>

section \<open>The server, as a module sees it\<close>

text \<open>
  The command table; the primitives defined for scheme (each with the address of the module object they call); whether
  the interpreters have been set up; and the next free address.
\<close>

record 'q server_env =
  sv_requests :: "'q request_manager"
  sv_primitives :: "(string \<times> nat) list"
  sv_guile :: bool
  sv_python :: bool
  sv_next :: nat

definition on_requests :: "('q request_manager \<Rightarrow> 'q request_manager) \<Rightarrow> 'q server_env \<Rightarrow> 'q server_env" where
  "on_requests f w = w\<lparr>sv_requests := f (sv_requests w)\<rparr>"

text \<open>A class derived from \<^verbatim>\<open>Module\<close>; the constructor gets the address of the new object.\<close>

record 'q module_class =
  mc_name :: string
  mc_ctor :: "nat \<Rightarrow> 'q server_env \<Rightarrow> 'q server_env"
  mc_init :: "'q server_env \<Rightarrow> 'q server_env"
  mc_dtor :: "'q server_env \<Rightarrow> 'q server_env"

text \<open>The macro: the three functions with C linkage. To delete a null pointer does nothing.\<close>

definition DECLARE_MODULE :: "nat \<Rightarrow> 'q module_class \<Rightarrow> 'q server_env dso" where
  "DECLARE_MODULE handle c =
     \<lparr>dso_handle = handle, id_symbol = Some (Some (mc_name c)),
      load_symbol = Some (\<lambda>w. (Some (sv_next w), mc_ctor c (sv_next w) (w\<lparr>sv_next := Suc (sv_next w)\<rparr>))),
      unload_symbol = Some (\<lambda>m w. case m of None \<Rightarrow> w | Some _ \<Rightarrow> mc_dtor c w),
      module_init = (\<lambda>m. mc_init c)\<rparr>"

section \<open>The descriptions\<close>

definition shell_info :: "string \<Rightarrow> string \<Rightarrow> string list \<Rightarrow> RequestClassInfo" where
  "shell_info i d h = (command_info i d h False)\<lparr>is_shell := True\<rparr>"

abbreviation quoted :: "string \<Rightarrow> string" where
  "quoted s \<equiv> [CHR 0x22] @ s @ [CHR 0x22]"

definition scheme_info :: RequestClassInfo where
  "scheme_info = shell_info ''scm'' ''Enter the scheme shell''
     [''Usage: scm [hush|quiet]'', [],
      ''Enter the scheme interpreter shell. This shell provides a rich'',
      ''and easy-to-use environment for creating, deleting and manipulating'',
      ''OpenCog atoms and truth values. It provides a full R5RS-compliant'',
      ''interactive scheme shell, based on the GNU Guile extension language.'', [],
      ''If 'hush' or 'quiet' is specified after the command, then the prompt'',
      ''will not be returned.  This is nice when catting large scripts using'',
      ''netcat, as it avoids printing garbage when the scripts work well.'', [],
      ''Use either a ^D (ctrl-D) or a single . on a line by itself to exit'',
      ''the shell. A ^C (ctrl-C) can be used to kill long-running or'',
      ''unresponsive scheme functions.'']"

definition sexpr_info :: RequestClassInfo where
  "sexpr_info = shell_info ''sexpr'' ''Enter the s-expression shell''
     [''Usage: sexpr'', [],
      ''Enter the s-expression interpreter shell. This shell provides'',
      ''a very minimal s-expression shell, with just enough commands'',
      ''to interpret Atomese strings and move Atoms and Values between'',
      ''AtomSpaces.'', [],
      ''It is used to provide the basic AtomSpace network server.  It is'',
      ''not intended for manual use!  There is minimal error reporting'',
      ''and user-accessible help.  The commands are processed by'',
      ''https://github.com/opencog/atomspace/tree/master/opencog/persist/sexpr/Commands.cc'',
      ''See that file for details. Example usage: `(cog-get-atoms 'Node #t)`'',
      ''will return a list of all Nodes in the AtomSpace.'', [],
      ''Use either a ^D (ctrl-D) or a single . on a line by itself to exit'',
      ''the shell.'', []]"

definition json_info :: RequestClassInfo where
  "json_info = shell_info ''json'' ''Enter the JSON shell''
     [''Usage: json [hush] [quiet]'', [],
      ''Enter the JSON/Javascript interpreter shell. This shell provides'',
      ''a very minimal Javascript shell, with just enough functions to get'',
      ''Atoms and Values from an AtomSpace.'', [],
      ''It is used to provide a basic AtomSpace WebApp network server.'',
      ''Example usage: `AtomSpace.getAtoms('' @ quoted ''Node'' @ '', true)` will return all'',
      ''Nodes in the AtomSpace. For more info, see the README.md file at'',
      ''https://github.com/opencog/atomspace/tree/master/opencog/persist/json'', [],
      ''By default, this prints a prompt. To get a shell without a prompt,'',
      ''say `json hush` or `json quiet`'',
      ''To exit the shell, send a ^D (ctrl-D) or a single . on a line by itself.'']"

definition mcp_info :: RequestClassInfo where
  "mcp_info = shell_info ''mcp'' ''Enter the MCP shell''
     [''Usage: mcp [hush] [quiet]'', [],
      ''Enter the Model Context Protocol (MCP) shell. This shell provides'',
      ''a shell that implements MCP. It goes through the same MCP code as'',
      ''provided at the CogServer MCP port, the only difference being that'',
      ''this might be easier to use when debugging the MCP implementation'',
      ''by hand.'', [],
      ''Example usage: `{'' @ quoted ''methods'' @ '':'' @ quoted ''tools/list'' @ '','' @ quoted ''jsonrpc'' @ '':''
        @ quoted ''2.0'' @ '','' @ quoted ''id'' @ '':1}`'',
      ''will return all MCP tools currently available.'',
      ''By default, this prints a prompt. To get a shell without a prompt,'',
      ''say `mcp hush` or `mcp quiet`'',
      ''To exit the shell, send a ^D (ctrl-D) or a single . on a line by itself.'']"

definition top_info :: RequestClassInfo where
  "top_info = shell_info ''top'' ''Print server stats continuously''
     [''Usage: top [<seconds>]'', [],
      ''Show live server usage statistics. These are refreshed periodically,'',
      ''every 3 seconds by default, if the <seconds> parameter is not given.'', [],
      ''Say 'help stats' to get an explanation of what is displayed.'', [],
      ''To exit, just hit ^C (ctrl-C).'']"

definition py_info :: RequestClassInfo where
  "py_info = shell_info ''py'' ''Enter the python shell''
     [''Usage: py [hush|quiet]'', [],
      ''Enter the python interpreter shell. This shell provides a rich'',
      ''and easy-to-use environment for creating, deleting and manipulating'',
      ''OpenCog atoms and truth values.'', [],
      ''If 'hush' or 'quiet' is specified after the command, then the prompt'',
      ''will not be returned.  This is nice when catting large scripts using'',
      ''netcat, as it avoids printing garbage when the scripts work well.'']"

definition py_eval_info :: RequestClassInfo where
  "py_eval_info = \<lparr>rci_id = ''py-eval'', description = ''Run a block of python code, and return immediately'',
     rci_help = ''Usage: py-eval <python code>'' @ nl @ nl
       @ ''Evaluate the specified Python code. It does not need to be quoted.'', is_shell = False, hidden = False\<rparr>"

section \<open>The modules\<close>

text \<open>The macro for a module with one command that enters a shell, when the constructor does nothing else.\<close>

definition DEFINE_SHELL_MODULE :: "string \<Rightarrow> RequestClassInfo \<Rightarrow> 'q module_class" where
  "DEFINE_SHELL_MODULE name info =
     \<lparr>mc_name = name, mc_ctor = (\<lambda>this w. w),
      mc_init = on_requests (\<lambda>m. snd (registerRequest (rci_id info) info m)),
      mc_dtor = on_requests (\<lambda>m. snd (unregisterRequest (rci_id info) m))\<rparr>"

definition TopShellModule :: "'q module_class" where
  "TopShellModule = DEFINE_SHELL_MODULE ''TopShellModule'' top_info"

definition SexprShellModule :: "'q module_class" where
  "SexprShellModule = DEFINE_SHELL_MODULE ''SexprShellModule'' sexpr_info"

definition JsonShellModule :: "'q module_class" where
  "JsonShellModule = DEFINE_SHELL_MODULE ''JsonShellModule'' json_info"

definition McpShellModule :: "'q module_class" where
  "McpShellModule = DEFINE_SHELL_MODULE ''McpShellModule'' mcp_info"

text \<open>The scheme module defines two primitives, which call methods of the module object.\<close>

definition scheme_module_ctor :: "nat \<Rightarrow> 'q server_env \<Rightarrow> 'q server_env" where
  "scheme_module_ctor this w =
     w\<lparr>sv_guile := True,
       sv_primitives := sv_primitives w @ [(''cog-global-barrier'', this), (''cog-barrier'', this)]\<rparr>"

definition SchemeShellModule :: "'q module_class" where
  "SchemeShellModule = (DEFINE_SHELL_MODULE ''SchemeShellModule'' scheme_info)\<lparr>mc_ctor := scheme_module_ctor\<rparr>"

definition python_module_init :: "'q request_manager \<Rightarrow> 'q request_manager" where
  "python_module_init m = register_all [py_info, py_eval_info] m"

definition python_module_dtor :: "'q request_manager \<Rightarrow> 'q request_manager" where
  "python_module_dtor m = unregister_all [rci_id py_info, rci_id py_eval_info] m"

definition PythonShellModule :: "'q module_class" where
  "PythonShellModule =
     \<lparr>mc_name = ''PythonShellModule'', mc_ctor = (\<lambda>this w. w\<lparr>sv_python := True\<rparr>),
      mc_init = on_requests python_module_init, mc_dtor = on_requests python_module_dtor\<rparr>"

definition BuiltinRequestsModule :: "'q module_class" where
  "BuiltinRequestsModule =
     \<lparr>mc_name = ''BuiltinRequestsModule'', mc_ctor = (\<lambda>this. on_requests builtin_module_ctor),
      mc_init = (\<lambda>w. w), mc_dtor = on_requests builtin_module_dtor\<rparr>"

text \<open>The module of the example, which only writes to the log.\<close>

definition ExampleModule :: "'q module_class" where
  "ExampleModule = \<lparr>mc_name = ''ExampleModule'', mc_ctor = (\<lambda>this w. w), mc_init = (\<lambda>w. w), mc_dtor = (\<lambda>w. w)\<rparr>"

section \<open>What a module promises\<close>

text \<open>
  The contract between a module and the command table: once it is loaded and initialised, its commands have been
  registered one after the other, and its destructor unregisters the same names.
\<close>

locale module_contract =
  fixes c :: "'q module_class" and infos :: "RequestClassInfo list" and ids :: "string list"
  assumes loads: "sv_requests (mc_init c (mc_ctor c this w)) = register_all infos (sv_requests w)"
    and unloads: "sv_requests (mc_dtor c w) = unregister_all ids (sv_requests w)"
    and names: "set ids = rci_id ` set infos"
begin

text \<open>Loaded and deleted again, a module leaves the command table as it was, if its names were free.\<close>

lemma load_unload:
  assumes "sm_inv (factories (sv_requests w))" "distinct (map rci_id infos)"
    and "list_all (\<lambda>f. createRequest (rci_id f) (sv_requests w) = None) infos"
  shows "sv_requests (mc_dtor c (mc_init c (mc_ctor c this w))) = sv_requests w"
  unfolding loads unloads
  by (rule unregister_registered [OF assms(1,2) _ names]) (use assms(3) in \<open>simp add: createRequest_def list_all_iff\<close>)

end

lemmas module_defs = DEFINE_SHELL_MODULE_def on_requests_def register_all_def unregister_all_def

interpretation builtin_module: module_contract BuiltinRequestsModule builtin_infos unregister_order
  by unfold_locales (simp_all add: BuiltinRequestsModule_def on_requests_def builtin_module_ctor_def builtin_module_dtor_def builtin_names)

interpretation top_module: module_contract TopShellModule "[top_info]" "[rci_id top_info]"
  by unfold_locales (simp_all add: TopShellModule_def module_defs)

interpretation scheme_module: module_contract SchemeShellModule "[scheme_info]" "[rci_id scheme_info]"
  by unfold_locales (simp_all add: SchemeShellModule_def module_defs scheme_module_ctor_def)

interpretation sexpr_module: module_contract SexprShellModule "[sexpr_info]" "[rci_id sexpr_info]"
  by unfold_locales (simp_all add: SexprShellModule_def module_defs)

interpretation json_module: module_contract JsonShellModule "[json_info]" "[rci_id json_info]"
  by unfold_locales (simp_all add: JsonShellModule_def module_defs)

interpretation mcp_module: module_contract McpShellModule "[mcp_info]" "[rci_id mcp_info]"
  by unfold_locales (simp_all add: McpShellModule_def module_defs)

interpretation python_module: module_contract PythonShellModule "[py_info, py_eval_info]" "[rci_id py_info, rci_id py_eval_info]"
  by unfold_locales (simp_all add: PythonShellModule_def on_requests_def python_module_init_def python_module_dtor_def)

interpretation example_module: module_contract ExampleModule "[]" "[]"
  by unfold_locales (simp_all add: ExampleModule_def module_defs)

section \<open>Loading them all\<close>

text \<open>The libraries that are built from the modules, in the order of \<^const>\<open>default_modules\<close>, with their commands.\<close>

record 'q library =
  lib_file :: string
  lib_class :: "'q module_class"
  lib_infos :: "RequestClassInfo list"
  lib_ids :: "string list"

definition default_libs :: "'q library list" where
  "default_libs =
     [\<lparr>lib_file = ''libbuiltinreqs.so'', lib_class = BuiltinRequestsModule, lib_infos = builtin_infos, lib_ids = unregister_order\<rparr>,
      \<lparr>lib_file = ''libtop-shell.so'', lib_class = TopShellModule, lib_infos = [top_info], lib_ids = [rci_id top_info]\<rparr>,
      \<lparr>lib_file = ''libscheme-shell.so'', lib_class = SchemeShellModule, lib_infos = [scheme_info], lib_ids = [rci_id scheme_info]\<rparr>,
      \<lparr>lib_file = ''libsexpr-shell.so'', lib_class = SexprShellModule, lib_infos = [sexpr_info], lib_ids = [rci_id sexpr_info]\<rparr>,
      \<lparr>lib_file = ''libjson-shell.so'', lib_class = JsonShellModule, lib_infos = [json_info], lib_ids = [rci_id json_info]\<rparr>,
      \<lparr>lib_file = ''libmcp-shell.so'', lib_class = McpShellModule, lib_infos = [mcp_info], lib_ids = [rci_id mcp_info]\<rparr>,
      \<lparr>lib_file = ''libpy-shell.so'', lib_class = PythonShellModule, lib_infos = [py_info, py_eval_info],
       lib_ids = [rci_id py_info, rci_id py_eval_info]\<rparr>]"

lemma default_libs_files: "map lib_file default_libs = default_modules"
  by (simp add: default_libs_def default_modules_def)

definition lib_ok :: "'q library \<Rightarrow> bool" where
  "lib_ok l \<longleftrightarrow> module_contract (lib_class l) (lib_infos l) (lib_ids l) \<and> lib_file l \<noteq> []
     \<and> CHR ''/'' \<notin> set (lib_file l) \<and> CHR 0x00 \<notin> set (lib_file l)"

abbreviation lib_name :: "'q library \<Rightarrow> string" where
  "lib_name l \<equiv> mc_name (lib_class l)"

abbreviation lib_keys :: "'q library list \<Rightarrow> string list" where
  "lib_keys ls \<equiv> map lib_file ls @ map lib_name ls"

lemma default_libs_ok: "list_all lib_ok default_libs"
  using builtin_module.module_contract_axioms top_module.module_contract_axioms scheme_module.module_contract_axioms
    sexpr_module.module_contract_axioms json_module.module_contract_axioms mcp_module.module_contract_axioms
    python_module.module_contract_axioms
  by (simp add: default_libs_def lib_ok_def)

lemma default_libs_keys: "distinct (lib_keys default_libs)"
  by (simp add: default_libs_def BuiltinRequestsModule_def TopShellModule_def SchemeShellModule_def SexprShellModule_def
      JsonShellModule_def McpShellModule_def PythonShellModule_def DEFINE_SHELL_MODULE_def)

text \<open>All commands of the server.\<close>

definition default_commands :: "RequestClassInfo list" where
  "default_commands = builtin_infos @ [top_info, scheme_info, sexpr_info, json_info, mcp_info, py_info, py_eval_info]"

lemma default_libs_infos: "concat (map lib_infos default_libs) = default_commands"
  by (simp add: default_libs_def default_commands_def)

lemma default_commands_distinct: "distinct (map rci_id default_commands)"
  by (simp add: default_commands_def builtin_infos_def shutdown_info_def list_info_def load_info_def unload_info_def
      menu_info_def close_info_def stats_info_def command_info_def ctrld_def iaceof_def shell_info_def top_info_def scheme_info_def
      sexpr_info_def json_info_def mcp_info_def py_info_def py_eval_info_def)

text \<open>The libraries stand in the directory \<open>dir\<close>; \<open>h\<close> gives the handles.\<close>

definition provides :: "'q server_env linker \<Rightarrow> (string \<Rightarrow> bool) \<Rightarrow> (string \<Rightarrow> nat) \<Rightarrow> string \<Rightarrow> 'q library \<Rightarrow> bool" where
  "provides dl ex h dir l \<longleftrightarrow>
     ex (dir @ lib_file l) \<and> dl_open dl (dir @ lib_file l) = Some (DECLARE_MODULE (h (lib_file l)) (lib_class l))"

text \<open>The entry of a library in the table; \<open>a\<close> is the address of its module.\<close>

definition lib_data :: "(string \<Rightarrow> nat) \<Rightarrow> string \<Rightarrow> 'q library \<Rightarrow> nat \<Rightarrow> 'q server_env module_data" where
  "lib_data h dir l a =
     new_data (dir @ lib_file l) (DECLARE_MODULE (h (lib_file l)) (lib_class l)) (lib_name l)
       (\<lambda>m w. case m of None \<Rightarrow> w | Some _ \<Rightarrow> mc_dtor (lib_class l) w) a"

text \<open>A directory for the search: absolute, with a slash at its end.\<close>

definition module_dir :: "string \<Rightarrow> bool" where
  "module_dir dir \<longleftrightarrow> is_absolute dir \<and> last dir = CHR ''/'' \<and> CHR 0x00 \<notin> set dir"

lemma filename_in_dir: "CHR ''/'' \<notin> set f \<Longrightarrow> get_filename ((d @ ''/'') @ f) = f"
  by (simp add: get_filename_def rfind_chr_append)

lemma load_lib:
  assumes dir: "module_dir dir" and l: "lib_ok l" "provides dl ex h dir l" and inv: "mm_inv mm" "module_paths mm = [dir]"
    and free: "sm_find (lib_file l) (modules mm) = None" "sm_find (lib_name l) (modules mm) = None"
  obtains mm' a where "loadModule (Suc (Suc n)) dl ex (lib_file l) mm = Some (Inr True, mm')"
    "mm_inv mm'" "module_paths mm' = [dir]"
    "\<And>k. sm_find k (modules mm') = (if k = lib_file l \<or> k = lib_name l then Some (lib_data h dir l a) else sm_find k (modules mm))"
    "sv_requests (server mm') = register_all (lib_infos l) (sv_requests (server mm))"
proof -
  let ?path = "dir @ lib_file l" and ?lib = "DECLARE_MODULE (h (lib_file l)) (lib_class l)"
  let ?ul = "\<lambda>m w. case m of None \<Rightarrow> w | Some _ \<Rightarrow> mc_dtor (lib_class l) w" and ?a = "sv_next (server mm)"
  let ?w = "mc_ctor (lib_class l) ?a ((server mm)\<lparr>sv_next := Suc ?a\<rparr>)"
  let ?mm = "with_module ?path ?lib (new_data ?path ?lib (lib_name l) ?ul ?a) (module_init ?lib ?a ?w) mm"
  have path: "path_join dir (lib_file l) = ?path" "c_str ?path = ?path" "is_absolute ?path"
    using dir l(1) by (auto simp: module_dir_def lib_ok_def path_join_def is_absolute_def intro: c_str_no_nul)
  have "dir = butlast dir @ ''/''"
    using dir by (metis append_butlast_last_id is_absolute_def module_dir_def)
  then have fn: "get_filename ?path = lib_file l"
    using l(1) filename_in_dir [of "lib_file l" "butlast dir"] by (simp add: lib_ok_def)
  have load: "loadAbsPath dl ?path mm = (Inr True, ?mm)"
    by (rule load_installs [where ld = "\<lambda>w. (Some (sv_next w), mc_ctor (lib_class l) (sv_next w) (w\<lparr>sv_next := Suc (sv_next w)\<rparr>))"])
      (use path(2) l(2) free(1) fn in \<open>simp_all add: provides_def DECLARE_MODULE_def\<close>)
  have "list_all is_absolute (module_paths mm)" using dir inv(2) by (simp add: module_dir_def)
  moreover have "lib_file l \<noteq> []" "\<not> is_absolute (lib_file l)"
    using l(1) by (cases "lib_file l"; auto simp: lib_ok_def is_absolute_def)+
  ultimately have run: "loadModule (Suc (Suc n)) dl ex (lib_file l) mm = Some (Inr True, ?mm)"
    using l(2) inv(2) load path(1) by (simp add: provides_def is_absolute_def Let_def)
  have "mm_inv ?mm" using with_module_inv [OF inv(1) free(2)] free(1) fn by simp
  moreover have "sm_find k (modules ?mm) = (if k = lib_file l \<or> k = lib_name l then Some (lib_data h dir l ?a) else sm_find k (modules mm))" for k
    using install_find(1) [OF _ free(2,1)] inv(1) fn by (simp add: with_module_def lib_data_def mm_inv_def)
  moreover have "sv_requests (server ?mm) = register_all (lib_infos l) (sv_requests (server mm))"
    using module_contract.loads [of "lib_class l" "lib_infos l" "lib_ids l"] l(1)
    by (simp add: with_module_def DECLARE_MODULE_def lib_ok_def)
  moreover have "module_paths ?mm = [dir]" using inv(2) by (simp add: with_module_def)
  ultimately show thesis using that run by blast
qed

lemma load_libs:
  assumes "module_dir dir" "list_all lib_ok ls" "list_all (provides dl ex h dir) ls" "mm_inv mm" "module_paths mm = [dir]"
    and "distinct (lib_keys ls)" "list_all (\<lambda>k. sm_find k (modules mm) = None) (lib_keys ls)"
  shows "\<exists>mm'. load_all (Suc (Suc n)) dl ex (map lib_file ls) mm = Some (Inr (), mm') \<and> mm_inv mm'
     \<and> (\<forall>k. k \<notin> set (lib_keys ls) \<longrightarrow> sm_find k (modules mm') = sm_find k (modules mm))
     \<and> (\<forall>l \<in> set ls. \<exists>a. sm_find (lib_file l) (modules mm') = Some (lib_data h dir l a)
           \<and> sm_find (lib_name l) (modules mm') = Some (lib_data h dir l a))
     \<and> sv_requests (server mm') = register_all (concat (map lib_infos ls)) (sv_requests (server mm))"
  using assms
proof (induction ls arbitrary: mm)
  case Nil
  then show ?case by (simp add: register_all_def)
next
  case (Cons l ls)
  have l: "lib_ok l" "provides dl ex h dir l" "sm_find (lib_file l) (modules mm) = None" "sm_find (lib_name l) (modules mm) = None"
    using Cons.prems by simp_all
  obtain mm1 a where mm1: "loadModule (Suc (Suc n)) dl ex (lib_file l) mm = Some (Inr True, mm1)"
    "mm_inv mm1" "module_paths mm1 = [dir]"
    "\<And>k. sm_find k (modules mm1) = (if k = lib_file l \<or> k = lib_name l then Some (lib_data h dir l a) else sm_find k (modules mm))"
    "sv_requests (server mm1) = register_all (lib_infos l) (sv_requests (server mm))"
    using load_lib [OF Cons.prems(1) l(1,2) Cons.prems(4,5) l(3,4)] by metis
  have "list_all (\<lambda>k. sm_find k (modules mm1) = None) (lib_keys ls)"
    using Cons.prems(6,7) unfolding mm1(4) list_all_iff by (auto dest: sym simp: image_iff)
  then obtain mm2 where mm2: "load_all (Suc (Suc n)) dl ex (map lib_file ls) mm1 = Some (Inr (), mm2)" "mm_inv mm2"
    "\<And>k. k \<notin> set (lib_keys ls) \<Longrightarrow> sm_find k (modules mm2) = sm_find k (modules mm1)"
    "\<forall>l \<in> set ls. \<exists>a. sm_find (lib_file l) (modules mm2) = Some (lib_data h dir l a)
       \<and> sm_find (lib_name l) (modules mm2) = Some (lib_data h dir l a)"
    "sv_requests (server mm2) = register_all (concat (map lib_infos ls)) (sv_requests (server mm1))"
    using Cons.IH [OF Cons.prems(1) _ _ mm1(2,3)] Cons.prems by auto
  have "sm_find (lib_file l) (modules mm2) = Some (lib_data h dir l a)" "sm_find (lib_name l) (modules mm2) = Some (lib_data h dir l a)"
    using Cons.prems(6) by (auto simp: mm2(3) mm1(4))
  moreover have "load_all (Suc (Suc n)) dl ex (map lib_file (l # ls)) mm = Some (Inr (), mm2)"
    using mm1(1) mm2(1) by simp
  moreover have "sm_find k (modules mm2) = sm_find k (modules mm)" if "k \<notin> set (lib_keys (l # ls))" for k
    using that by (simp add: mm2(3) mm1(4))
  ultimately show ?case
    using mm2(2,4,5) mm1(5) by (intro exI [of _ mm2]) (auto simp: register_all_def)
qed

text \<open>What the destructors of a list of modules do to the command table.\<close>

lemma unload_requests:
  assumes "\<And>d w. d \<in> set ds \<Longrightarrow> sv_requests (md_unload d (md_module d) w) = unregister_all (ids d) (sv_requests w)"
  shows "sv_requests (fold (\<lambda>d. md_unload d (md_module d)) ds w) = unregister_all (concat (map ids ds)) (sv_requests w)"
  using assms by (induction ds arbitrary: w) (auto simp: unregister_all_def)

lemma new_manager_sel:
  "mm_inv (new_module_manager tok None prefix w)" "module_paths (new_module_manager tok None prefix w) = [prefix @ ''/lib/opencog/modules/'']"
  "modules (new_module_manager tok None prefix w) = []" "server (new_module_manager tok None prefix w) = w"
  by (simp_all add: mm_inv_new) (simp_all add: new_module_manager_def)

lemma default_libs_names: "l \<in> set default_libs \<Longrightarrow> CHR ''/'' \<notin> set (lib_name l) \<and> CHR ''/'' \<notin> set (lib_file l)"
  by (auto simp: default_libs_def BuiltinRequestsModule_def TopShellModule_def SchemeShellModule_def SexprShellModule_def
      JsonShellModule_def McpShellModule_def PythonShellModule_def DEFINE_SHELL_MODULE_def)

text \<open>Which names the unload functions in the table take out of the command table.\<close>

lemma lib_data_unloads:
  assumes "lib_ok l"
  shows "sv_requests (md_unload (lib_data h dir l a) (md_module (lib_data h dir l a)) w) = unregister_all (lib_ids l) (sv_requests w)"
  using module_contract.unloads [of "lib_class l" "lib_infos l" "lib_ids l" w] assms by (simp add: lib_data_def lib_ok_def)

text \<open>The names that the unload function of a table entry takes out, found by the module's id.\<close>

definition ids_of :: "'q library list \<Rightarrow> 'w module_data \<Rightarrow> string list" where
  "ids_of ls d = concat (map lib_ids (filter (\<lambda>l. lib_name l = md_id d) ls))"

lemma filter_name: "distinct (map lib_name ls) \<Longrightarrow> l \<in> set ls \<Longrightarrow> filter (\<lambda>l'. lib_name l' = lib_name l) ls = [l]"
  by (induction ls) (auto simp: filter_empty_conv image_iff dest: sym)

lemma ids_of_data: "distinct (map lib_name ls) \<Longrightarrow> l \<in> set ls \<Longrightarrow> ids_of ls (lib_data h dir l a) = lib_ids l"
  by (simp add: ids_of_def lib_data_def filter_name)

text \<open>When all that is loaded are the libraries \<open>ls\<close>, the manager's destructor unregisters their commands.\<close>

lemma dtor_unregisters:
  assumes "mm_inv mm" "list_all lib_ok ls" "distinct (map lib_name ls)"
    and only: "\<And>k. k \<notin> set (lib_keys ls) \<Longrightarrow> sm_find k (modules mm) = None"
    and found: "\<And>l. l \<in> set ls \<Longrightarrow> \<exists>a. sm_find (lib_file l) (modules mm) = Some (lib_data h dir l a)
      \<and> sm_find (lib_name l) (modules mm) = Some (lib_data h dir l a)"
  shows "\<exists>ns. set ns = rci_id ` set (concat (map lib_infos ls))
     \<and> sv_requests (server (module_manager_dtor mm)) = unregister_all ns (sv_requests (server mm))"
proof -
  obtain ds where ds: "set ds = loaded mm"
    "module_manager_dtor mm = mm\<lparr>modules := [], server := fold (\<lambda>d. md_unload d (md_module d)) ds (server mm)\<rparr>"
    using unload_keys_all [OF assms(1), of "sm_keys (modules mm)"] assms(1)
    by (auto simp: module_manager_dtor_def mm_inv_def sm.keys_find)
  have lib: "\<exists>l \<in> set ls. \<exists>a. d = lib_data h dir l a" if "d \<in> set ds" for d
  proof -
    from that ds(1) obtain k where k: "sm_find k (modules mm) = Some d" by (auto simp: loaded_def)
    with only [of k] have "k \<in> set (lib_keys ls)" by (cases "k \<in> set (lib_keys ls)") auto
    then obtain l where l: "l \<in> set ls" "k = lib_file l \<or> k = lib_name l" by auto
    with found [OF l(1)] k show ?thesis by (metis option.inject)
  qed
  have ok: "lib_ok l" if "l \<in> set ls" for l using assms(2) that by (simp add: list_all_iff)
  have ids: "set (lib_ids l) = rci_id ` set (lib_infos l)" if "l \<in> set ls" for l
    using module_contract.names [of "lib_class l" "lib_infos l" "lib_ids l"] ok [OF that] by (simp add: lib_ok_def)
  have "sv_requests (md_unload d (md_module d) w) = unregister_all (ids_of ls d) (sv_requests w)" if d: "d \<in> set ds" for d w
    using lib [OF d] ids_of_data [OF assms(3)] lib_data_unloads ok by metis
  then have "sv_requests (server (module_manager_dtor mm)) = unregister_all (concat (map (ids_of ls) ds)) (sv_requests (server mm))"
    using unload_requests [of ds "ids_of ls" "server mm"] ds(2) by simp
  moreover have "(\<Union>d \<in> set ds. set (ids_of ls d)) = (\<Union>l \<in> set ls. set (lib_ids l))"
  proof (intro equalityI UN_least)
    show "set (ids_of ls d) \<subseteq> (\<Union>l \<in> set ls. set (lib_ids l))" if "d \<in> set ds" for d
      by (auto simp: ids_of_def)
    show "set (lib_ids l) \<subseteq> (\<Union>d \<in> set ds. set (ids_of ls d))" if l: "l \<in> set ls" for l
    proof -
      from found [OF l] obtain a where "lib_data h dir l a \<in> set ds" using ds(1) by (auto simp: loaded_def)
      with ids_of_data [OF assms(3) l] show ?thesis by (metis UN_upper)
    qed
  qed
  then have "set (concat (map (ids_of ls) ds)) = rci_id ` set (concat (map lib_infos ls))" using ids by auto
  ultimately show ?thesis by blast
qed

text \<open>
  C17. On a standard installation, where the seven libraries stand in the module directory, \<^verbatim>\<open>loadModules\<close> loads all of them:
  each module is found under its class name and its file name, and each of the twenty commands, built in or from a shell
  module, can be created under its own name with its own description. When the manager is destroyed, the command table
  is again what it was before.
\<close>

theorem default_modules_loaded:
  fixes w :: "'q server_env"
  assumes "is_absolute prefix" "CHR 0x00 \<notin> set prefix"
    and "list_all (provides dl ex h (prefix @ ''/lib/opencog/modules/'')) default_libs"
    and "sm_inv (factories (sv_requests w))"
    and "list_all (\<lambda>f. createRequest (rci_id f) (sv_requests w) = None) default_commands"
  shows "\<exists>mm. loadModules (Suc (Suc n)) dl ex (new_module_manager tok None prefix w) = Some (Inr (), mm)
     \<and> list_all (\<lambda>l :: 'q library. getModule (lib_name l) mm \<noteq> None \<and> getModule (lib_file l) mm = getModule (lib_name l) mm) default_libs
     \<and> list_all (\<lambda>f. createRequest (rci_id f) (sv_requests (server mm)) = Some (factory_create f)) default_commands
     \<and> sv_requests (server (module_manager_dtor mm)) = sv_requests w"
proof -
  let ?mm0 = "new_module_manager tok None prefix w" and ?dir = "prefix @ ''/lib/opencog/modules/''"
  let ?libs = "default_libs :: 'q library list"
  have "module_dir ?dir" using assms(1,2) by (auto simp: module_dir_def is_absolute_def)
  from load_libs [OF this default_libs_ok assms(3) new_manager_sel(1,2) default_libs_keys, of tok w n]
  obtain mm where mm: "load_all (Suc (Suc n)) dl ex (map lib_file ?libs) ?mm0 = Some (Inr (), mm)" "mm_inv mm"
    and all: "\<forall>k. k \<notin> set (lib_keys ?libs) \<longrightarrow> sm_find k (modules mm) = None"
    "\<forall>l \<in> set ?libs. \<exists>a. sm_find (lib_file l) (modules mm) = Some (lib_data h ?dir l a)
       \<and> sm_find (lib_name l) (modules mm) = Some (lib_data h ?dir l a)"
    and reg: "sv_requests (server mm) = register_all default_commands (sv_requests w)"
    by (auto simp: new_manager_sel list_all_iff default_libs_infos)
  have free: "list_all (\<lambda>f. sm_find (rci_id f) (factories (sv_requests w)) = None) default_commands"
    using assms(5) by (simp add: createRequest_def)
  have "distinct (map lib_name ?libs)" using default_libs_keys by auto
  then obtain ns where ns: "set ns = rci_id ` set default_commands"
    "sv_requests (server (module_manager_dtor mm)) = unregister_all ns (sv_requests (server mm))"
    using dtor_unregisters [OF mm(2) default_libs_ok _ all(1) [rule_format] all(2) [rule_format]] default_libs_infos by metis
  have "getModule (lib_name l) mm \<noteq> None \<and> getModule (lib_file l) mm = getModule (lib_name l) mm" if "l \<in> set ?libs" for l
    using all(2) [rule_format, OF that] default_libs_names [OF that]
    by (auto simp: getModule_def getModuleData_def get_filename_def rfind_chr_None [THEN iffD2] lib_data_def)
  moreover note register_creates [OF assms(4) default_commands_distinct free, folded reg]
  moreover have "sv_requests (server (module_manager_dtor mm)) = sv_requests w"
    using unregister_registered [OF assms(4) default_commands_distinct free ns(1)] ns(2) reg by simp
  ultimately show ?thesis using mm(1) by (auto simp: loadModules_def default_libs_files list_all_iff)
qed

definition demo_dir :: string where
  "demo_dir = ''/usr/local'' @ ''/lib/opencog/modules/''"

definition standard_linker :: "unit server_env linker" where
  "standard_linker =
     \<lparr>dl_open = map_of (map (\<lambda>l. (demo_dir @ lib_file l, DECLARE_MODULE (length (lib_file l)) (lib_class l))) default_libs),
      dl_close = (\<lambda>h. True)\<rparr>"

definition empty_env :: "unit server_env" where
  "empty_env = \<lparr>sv_requests = \<lparr>factories = [], requestQueue = (), rm_consoles = (\<lambda>_. idle_console)\<rparr>, sv_primitives = [],
     sv_guile = False, sv_python = False, sv_next = 1\<rparr>"

lemma standard_provides: "list_all (provides standard_linker (\<lambda>p. True) length demo_dir) default_libs"
proof -
  have "distinct (map (\<lambda>l. demo_dir @ lib_file l) (default_libs :: unit library list))"
    using default_libs_keys by (auto simp: distinct_map inj_on_def)
  then have "map_of (map (\<lambda>l. (demo_dir @ lib_file l, DECLARE_MODULE (length (lib_file l)) (lib_class l))) default_libs)
      (demo_dir @ lib_file l) = Some (DECLARE_MODULE (length (lib_file l)) (lib_class l))"
    if "l \<in> set default_libs" for l :: "unit library"
    using that by (intro map_of_is_SomeI) (auto simp: comp_def)
  then show ?thesis by (simp add: list_all_iff provides_def standard_linker_def)
qed

theorem default_modules_loaded_witness:
  "\<exists>mm. loadModules (Suc (Suc 0)) standard_linker (\<lambda>p. True) (new_module_manager (\<lambda>s d. [s]) None ''/usr/local'' empty_env) = Some (Inr (), mm)
     \<and> list_all (\<lambda>l :: unit library. getModule (lib_name l) mm \<noteq> None \<and> getModule (lib_file l) mm = getModule (lib_name l) mm) default_libs
     \<and> list_all (\<lambda>f. createRequest (rci_id f) (sv_requests (server mm)) = Some (factory_create f)) default_commands
     \<and> sv_requests (server (module_manager_dtor mm)) = sv_requests empty_env"
  by (rule default_modules_loaded [OF _ _ standard_provides [unfolded demo_dir_def]])
    (simp_all add: is_absolute_def empty_env_def createRequest_def list_all_iff)

text \<open>
  The scheme module's destructor takes the command away, but not the primitives: after the module has been unloaded,
  \<^verbatim>\<open>cog-barrier\<close> and \<^verbatim>\<open>cog-global-barrier\<close> still call methods of the deleted object.
\<close>

theorem scheme_primitives_dangle:
  "{(''cog-global-barrier'', this), (''cog-barrier'', this)}
     \<subseteq> set (sv_primitives (mc_dtor SchemeShellModule (mc_init SchemeShellModule (mc_ctor SchemeShellModule this w))))"
  by (simp add: SchemeShellModule_def DEFINE_SHELL_MODULE_def scheme_module_ctor_def on_requests_def)

end
