(* ===== verification/Cog_Main.thy ===== *)
theory Cog_Main
  imports Cog_Server
begin

text \<open>
  \<^verbatim>\<open>CogServerMain.cc\<close>: the command line of the executable. What \<^verbatim>\<open>getopt\<close> returns, letter by letter with the argument, is the
  input.
\<close>

section \<open>Options\<close>

text \<open>
  What the program knows of itself and what it has set and printed: the name it was called with, the version that the build has put in, the
  locale that it forces, the settings of the logger, and the two output streams.
\<close>

record log_conf =
  progname :: string
  cog_version :: string
  ctype :: "string option"
  cm_out :: string
  cm_err :: string
  log_level :: "string option"
  log_file :: "string option"
  log_to_stdout :: bool

definition usage :: "string \<Rightarrow> string" where
  \<open>usage name =
     ''Usage: '' @ name
     @ '' [-p <console port>] [-w <webserver port>] [-m <mcp port>] [-v] [-DOPTION="VALUE"]'' @ nl
     @ ''  -v    Print version and exit'' @ nl
     @ nl
     @ ''Supported options and default values:'' @ nl
     @ ''SERVER_PORT = 17001'' @ nl
     @ ''WEB_PORT = 18080'' @ nl
     @ ''MCP_PORT = 18888'' @ nl
     @ ''LOG_FILE = /tmp/cogserver.log'' @ nl
     @ ''LOG_LEVEL = info'' @ nl
     @ ''LOG_TO_STDOUT = false'' @ nl
     @ ''ANSI_PROMPT = ^[[0;32mopencog^[[1;32m> ^[[0m'' @ nl
     @ ''PROMPT = opencog> '' @ nl
     @ ''ANSI_SCM_PROMPT = ^[[0;34mguile^[[1;34m> ^[[0m'' @ nl
     @ ''SCM_PROMPT = guile> '' @ nl
     @ nl\<close>

text \<open>A locale that is not UTF-8 is replaced; \<open>codeset\<close> is what \<^verbatim>\<open>nl_langinfo\<close> returns.\<close>

definition main_locale :: "string \<Rightarrow> log_conf \<Rightarrow> log_conf" where
  "main_locale codeset lc =
     (if find_str ''UTF'' codeset = None \<and> find_str ''utf'' codeset = None
      then lc\<lparr>cm_err := cm_err lc @ progname lc @ '': Warning: locale '' @ codeset
                 @ '' was not UTF-8; force-setting to en_US.UTF-8'' @ nl,
              ctype := Some ''en_US.UTF-8''\<rparr>
      else lc)"

text \<open>The handler of the fatal signals: it logs, also to the standard output, and exits with status 1.\<close>

definition sighand :: "log_conf \<Rightarrow> int \<times> log_conf" where
  "sighand lc = (1, lc\<lparr>log_to_stdout := True\<rparr>)"

text \<open>\<^verbatim>\<open>value[0]\<close> of an empty string is a NUL.\<close>

definition set_log_option :: "string \<Rightarrow> log_conf \<Rightarrow> log_conf" where
  "set_log_option txt lc =
     (case find_chr CHR ''='' txt of
        None \<Rightarrow> lc\<lparr>cm_err := cm_err lc @ ''No value given for option '' @ txt @ nl\<rparr>
      | Some equalPos \<Rightarrow>
          (let optionName = take equalPos txt; v = drop (equalPos + 1) txt
           in if optionName = ''LOG_LEVEL'' then lc\<lparr>log_level := Some v\<rparr>
              else if optionName = ''LOG_FILE'' then lc\<lparr>log_file := Some v\<rparr>
              else if optionName = ''LOG_TO_STDOUT'' \<and> \<not> (v \<noteq> [] \<and> hd v \<in> {CHR ''f'', CHR ''F'', CHR ''0''})
              then lc\<lparr>log_to_stdout := True\<rparr> else lc))"

definition port_key :: "char \<Rightarrow> string option" where
  "port_key c =
     (if c = CHR ''p'' then Some ''*-telnet-port-*''
      else if c = CHR ''w'' then Some ''*-web-port-*''
      else if c = CHR ''m'' then Some ''*-mcp-port-*'' else None)"

text \<open>
  The option loop. The result is the exit status when the program ends there. \<open>atof\<close> gives the number after the
  conversion to \<^verbatim>\<open>int\<close>, as the ports are read.
\<close>

fun main_options ::
  "(string \<Rightarrow> int) \<Rightarrow> machine \<Rightarrow> (string \<Rightarrow> 32 word) \<Rightarrow> (request, 'q) cq_ops \<Rightarrow> (char \<times> string) list \<Rightarrow>
   ('q cog_server \<times> log_conf, int option) act" where
  "main_options atof mc hash qo [] st = (Inr None, st)"
| "main_options atof mc hash qo ((c, optarg) # opts) (s, lc) =
     (if c = CHR ''D'' then main_options atof mc hash qo opts (s, set_log_option optarg lc)
      else case port_key c of
        Some key \<Rightarrow>
          (case node_setValue mc hash qo key (Float_value [atof optarg]) s of
             (Inl e, s1) \<Rightarrow> (Inl e, (s1, lc))
           | (Inr _, s1) \<Rightarrow> main_options atof mc hash qo opts (s1, lc))
      | None \<Rightarrow>
          (if c = CHR ''v'' then (Inr (Some 0), (s, lc\<lparr>cm_out := cm_out lc @ ''CogServer version '' @ cog_version lc @ nl\<rparr>))
           else (Inr (Some (if c = CHR ''h'' then 0 else 1)), (s, lc\<lparr>cm_err := cm_err lc @ usage (progname lc)\<rparr>))))"

text \<open>\<^verbatim>\<open>main\<close> up to the call of the server loop: \<^term>\<open>Inr Run_loop\<close> when it gets that far.\<close>

definition cog_main ::
  "(string \<Rightarrow> int) \<Rightarrow> machine \<Rightarrow> (string \<Rightarrow> 32 word) \<Rightarrow> (request, 'q) cq_ops \<Rightarrow> (char \<times> string) list \<Rightarrow>
   ('q cog_server \<times> log_conf, int + loop_action) act" where
  "cog_main atof mc hash qo opts st =
     (case main_options atof mc hash qo opts st of
        (Inl e, st1) \<Rightarrow> (Inl e, st1)
      | (Inr (Some code), st1) \<Rightarrow> (Inr (Inl code), st1)
      | (Inr None, (s, lc)) \<Rightarrow>
          (case node_setValue mc hash qo ''*-run-*'' Void_value s of (res, s1) \<Rightarrow> (map_sum id Inr res, (s1, lc))))"

text \<open>All of \<^verbatim>\<open>main\<close>, for a new node \<open>s\<close>.\<close>

definition cogserver_main ::
  "(string \<Rightarrow> int) \<Rightarrow> machine \<Rightarrow> (string \<Rightarrow> 32 word) \<Rightarrow> (request, 'q) cq_ops \<Rightarrow> string \<Rightarrow> (char \<times> string) list \<Rightarrow>
   ('q cog_server \<times> log_conf, int + loop_action) act" where
  "cogserver_main atof mc hash qo codeset opts st =
     (case st of (s, lc) \<Rightarrow> cog_main atof mc hash qo opts (node_setAtomSpace s, main_locale codeset lc))"

section \<open>The ports\<close>

definition port_given :: "(string \<Rightarrow> int) \<Rightarrow> char \<Rightarrow> int \<Rightarrow> (char \<times> string) list \<Rightarrow> int" where
  "port_given atof c dflt opts =
     (case filter (\<lambda>(c', _). c' = c) opts of [] \<Rightarrow> dflt | os \<Rightarrow> atof (snd (last os)))"

text \<open>The hash of the dispatch table tells the port keys from the three messages.\<close>

definition hash_ok :: "(string \<Rightarrow> 32 word) \<Rightarrow> bool" where
  "hash_ok hash \<longleftrightarrow> (\<forall>c k. port_key c = Some k \<longrightarrow> hash k \<notin> {hash ''*-start-*'', hash ''*-stop-*'', hash ''*-run-*''})"

lemma port_key_inj: "port_key c = Some k \<Longrightarrow> port_key d = Some k \<Longrightarrow> c = d"
  by (auto simp: port_key_def split: if_splits)

lemma set_port:
  assumes "hash_ok hash" "port_key c = Some k"
  shows "node_setValue mc hash qo k v s = (Inr No_action, s\<lparr>node_values := sm_put k v (node_values s)\<rparr>)"
  using assms unfolding hash_ok_def node_setValue_def by auto

lemma get_port_put:
  "sm_inv (node_values s) \<Longrightarrow> get_port k' (s\<lparr>node_values := sm_put k (Float_value [p]) (node_values s)\<rparr>) =
     (if k' = k then Inr p else get_port k' s)"
  by (simp add: get_port_def sm_find_put)

lemma port_given_Cons:
  "port_given atof c dflt ((d, a) # opts) = port_given atof c (if d = c then atof a else dflt) opts"
  by (cases "filter (\<lambda>(c', _). c' = c) opts") (auto simp: port_given_def)

lemma main_options_ports:
  assumes "hash_ok hash" "list_all (\<lambda>(c, _). c = CHR ''D'' \<or> port_key c \<noteq> None) opts"
    and "sm_inv (node_values s)" "port_key c = Some k" "get_port k s = Inr p"
  shows "\<exists>s' lc'. main_options atof mc hash qo opts (s, lc) = (Inr None, (s', lc'))
    \<and> get_port k s' = Inr (port_given atof c p opts)"
  using assms(2-)
proof (induction opts arbitrary: s lc p)
  case Nil
  then show ?case by (simp add: port_given_def)
next
  case (Cons o1 opts)
  obtain d a where o1: "o1 = (d, a)" by fastforce
  have c: "c \<noteq> CHR ''D''" using Cons.prems(3) by (auto simp: port_key_def)
  show ?case
  proof (cases "d = CHR ''D''")
    case True
    with c Cons.IH [of s p] Cons.prems show ?thesis by (simp add: o1 port_given_Cons)
  next
    case False
    with Cons.prems(1) obtain k' where k': "port_key d = Some k'" by (auto simp: o1)
    let ?s = "s\<lparr>node_values := sm_put k' (Float_value [atof a]) (node_values s)\<rparr>"
    have "get_port k ?s = Inr (if d = c then atof a else p)"
      using get_port_put [OF Cons.prems(2)] Cons.prems(3,4) k' port_key_inj by (metis option.inject)
    moreover have "sm_inv (node_values ?s)" using Cons.prems(2) sm_put_inv by simp
    ultimately show ?thesis
      using Cons.IH [of ?s "if d = c then atof a else p" lc] Cons.prems False k'
      by (simp add: o1 set_port [OF assms(1) k'] port_given_Cons del: sm_put.simps)
  qed
qed

text \<open>
  C27. From the command line to the ports: with any number of port and \<^verbatim>\<open>-D\<close> options the server is run with, for each port, the
  number that was given last, and the default where none was given. No \<^verbatim>\<open>-D\<close> option changes a port, although the usage text
  offers \<^verbatim>\<open>SERVER_PORT\<close>, \<^verbatim>\<open>WEB_PORT\<close> and \<^verbatim>\<open>MCP_PORT\<close>.
\<close>

theorem main_ports_given:
  assumes "hash_ok hash" "list_all (\<lambda>(c, _). c = CHR ''D'' \<or> port_key c \<noteq> None) opts" "sm_inv (node_values s)"
  shows "\<exists>s' lc'. main_options atof mc hash qo opts (node_setAtomSpace s, lc) = (Inr None, (s', lc'))
    \<and> get_port ''*-telnet-port-*'' s' = Inr (port_given atof CHR ''p'' 17001 opts)
    \<and> get_port ''*-web-port-*'' s' = Inr (port_given atof CHR ''w'' 18080 opts)
    \<and> get_port ''*-mcp-port-*'' s' = Inr (port_given atof CHR ''m'' 18888 opts)
    \<and> cog_main atof mc hash qo opts (node_setAtomSpace s, lc) =
        (case node_setValue mc hash qo ''*-run-*'' Void_value s' of (res, s1) \<Rightarrow> (map_sum id Inr res, (s1, lc')))"
proof -
  have inv: "sm_inv (node_values (node_setAtomSpace s))"
    by (simp add: node_setAtomSpace_def sm_put_inv assms(3) del: sm_put.simps)
  note run = main_options_ports [OF assms(1,2) inv, of _ _ _ atof mc qo lc]
  from run [of "CHR ''p''" _ 17001] run [of "CHR ''w''" _ 18080] run [of "CHR ''m''" _ 18888] default_ports [OF assms(3)]
  show ?thesis by (auto simp: port_key_def cog_main_def)
qed

definition demo_conf :: log_conf where
  "demo_conf = \<lparr>progname = ''cogserver'', cog_version = ''3.3.1'', ctype = None, cm_out = [], cm_err = [],
     log_level = None, log_file = None, log_to_stdout = False\<rparr>"

theorem main_ports_given_witness:
  "\<exists>s' lc'. main_options (\<lambda>t. int (digits_val t)) open_machine (\<lambda>k. of_nat (length k)) list_cq
        [(CHR ''p'', ''1234''), (CHR ''D'', ''WEB_PORT=99''), (CHR ''p'', ''4321'')] (node_setAtomSpace demo_server, demo_conf)
      = (Inr None, (s', lc'))
    \<and> get_port ''*-telnet-port-*'' s' = Inr (port_given (\<lambda>t. int (digits_val t)) CHR ''p'' 17001
        [(CHR ''p'', ''1234''), (CHR ''D'', ''WEB_PORT=99''), (CHR ''p'', ''4321'')])
    \<and> get_port ''*-web-port-*'' s' = Inr (port_given (\<lambda>t. int (digits_val t)) CHR ''w'' 18080
        [(CHR ''p'', ''1234''), (CHR ''D'', ''WEB_PORT=99''), (CHR ''p'', ''4321'')])
    \<and> get_port ''*-mcp-port-*'' s' = Inr (port_given (\<lambda>t. int (digits_val t)) CHR ''m'' 18888
        [(CHR ''p'', ''1234''), (CHR ''D'', ''WEB_PORT=99''), (CHR ''p'', ''4321'')])
    \<and> cog_main (\<lambda>t. int (digits_val t)) open_machine (\<lambda>k. of_nat (length k)) list_cq
        [(CHR ''p'', ''1234''), (CHR ''D'', ''WEB_PORT=99''), (CHR ''p'', ''4321'')] (node_setAtomSpace demo_server, demo_conf) =
        (case node_setValue open_machine (\<lambda>k. of_nat (length k)) list_cq ''*-run-*'' Void_value s' of (res, s1) \<Rightarrow> (map_sum id Inr res, (s1, lc')))"
  by (rule main_ports_given)
    (auto simp: hash_ok_def port_key_def demo_server_def new_cog_server_def split: if_splits)

section \<open>Wrong options\<close>

lemma set_log_keeps:
  "progname (set_log_option x lc) = progname lc" "cog_version (set_log_option x lc) = cog_version lc"
  "cm_out (set_log_option x lc) = cm_out lc" "\<exists>ms. cm_err (set_log_option x lc) = cm_err lc @ ms"
  by (auto simp: set_log_option_def Let_def split: option.splits)

text \<open>Good options only set values on the node and in the logger.\<close>

definition only_set :: "'q cog_server \<times> log_conf \<Rightarrow> 'q cog_server \<times> log_conf \<Rightarrow> bool" where
  "only_set st st' \<longleftrightarrow> (case (st, st') of ((s, lc), (s', lc')) \<Rightarrow>
     (\<exists>vs. s' = s\<lparr>node_values := vs\<rparr>) \<and> progname lc' = progname lc \<and> cog_version lc' = cog_version lc
     \<and> cm_out lc' = cm_out lc \<and> (\<exists>ms. cm_err lc' = cm_err lc @ ms))"

lemma only_set_refl: "only_set st st"
proof (cases st)
  case (Pair s lc)
  have "\<exists>vs. s = s\<lparr>node_values := vs\<rparr>" by (rule exI [of _ "node_values s"]) simp
  with Pair show ?thesis by (simp add: only_set_def)
qed

lemma only_set_trans: "only_set st st' \<Longrightarrow> only_set st' st'' \<Longrightarrow> only_set st st''"
  by (auto simp: only_set_def split: prod.splits)

lemma good_options:
  assumes "hash_ok hash" "list_all (\<lambda>(c, _). c = CHR ''D'' \<or> port_key c \<noteq> None) good"
  shows "\<exists>st'. main_options atof mc hash qo (good @ opts) st = main_options atof mc hash qo opts st' \<and> only_set st st'"
  using assms(2)
proof (induction good arbitrary: st)
  case Nil
  show ?case using only_set_refl by fastforce
next
  case (Cons o1 good)
  obtain d a s lc where *: "o1 = (d, a)" "st = (s, lc)" by (cases o1; cases st)
  obtain st1 where st1: "main_options atof mc hash qo (o1 # good @ opts) st = main_options atof mc hash qo (good @ opts) st1" "only_set st st1"
  proof (cases "d = CHR ''D''")
    case True
    then show thesis
      by (intro that [of "(s, set_log_option a lc)"]) (use only_set_refl [of "(s, lc)"] in \<open>simp_all add: * only_set_def set_log_keeps\<close>)
  next
    case False
    with Cons.prems obtain k where k: "port_key d = Some k" by (auto simp: *)
    with False show thesis
      by (intro that [of "(s\<lparr>node_values := sm_put k (Float_value [atof a]) (node_values s)\<rparr>, lc)"])
        (auto simp: * only_set_def set_port [OF assms(1)] simp del: sm_put.simps)
  qed
  moreover obtain st' where "main_options atof mc hash qo (good @ opts) st1 = main_options atof mc hash qo opts st'" "only_set st1 st'"
    using Cons.IH [of st1] Cons.prems by auto
  ultimately show ?case by (intro exI [of _ st']) (auto intro: only_set_trans)
qed

text \<open>
  C28. An option that is not a port and not \<^verbatim>\<open>-D\<close> ends the program before anything is started, whatever follows it: \<^verbatim>\<open>-v\<close> prints the version and \<^verbatim>\<open>-h\<close> the usage
  and exits with status 0, any other letter prints the usage and exits with status 1. The options before it have only set values on the node and in the
  logger.
\<close>

theorem option_ends_program:
  assumes "hash_ok hash" "list_all (\<lambda>(c, _). c = CHR ''D'' \<or> port_key c \<noteq> None) good" "c \<noteq> CHR ''D''" "port_key c = None"
  shows "\<exists>s' lc'. only_set (node_setAtomSpace s, main_locale codeset lc) (s', lc')
    \<and> cogserver_main atof mc hash qo codeset (good @ (c, optarg) # opts) (s, lc) =
       (Inr (Inl (if c = CHR ''v'' \<or> c = CHR ''h'' then 0 else 1)), (s',
          if c = CHR ''v'' then lc'\<lparr>cm_out := cm_out lc' @ ''CogServer version '' @ cog_version lc @ nl\<rparr>
          else lc'\<lparr>cm_err := cm_err lc' @ usage (progname lc)\<rparr>))"
proof -
  obtain s' lc' where st: "main_options atof mc hash qo (good @ (c, optarg) # opts) (node_setAtomSpace s, main_locale codeset lc) =
      main_options atof mc hash qo ((c, optarg) # opts) (s', lc')" "only_set (node_setAtomSpace s, main_locale codeset lc) (s', lc')"
    using good_options [OF assms(1,2)] by (metis surj_pair)
  have "progname lc' = progname lc" "cog_version lc' = cog_version lc"
    using st(2) by (auto simp: only_set_def main_locale_def split: if_splits)
  with st assms(3,4) show ?thesis
    by (intro exI [of _ s'] exI [of _ lc']) (simp add: cogserver_main_def cog_main_def)
qed

theorem option_ends_program_witness:
  "\<exists>s' lc'. only_set (node_setAtomSpace demo_server, main_locale ''POSIX'' demo_conf) (s', lc')
    \<and> cogserver_main (\<lambda>t. int (digits_val t)) open_machine (\<lambda>k. of_nat (length k)) list_cq ''POSIX''
        ([(CHR ''p'', ''1234'')] @ (CHR ''x'', []) # [(CHR ''w'', ''80'')]) (demo_server, demo_conf) =
       (Inr (Inl 1), (s', lc'\<lparr>cm_err := cm_err lc' @ usage ''cogserver''\<rparr>))"
  using option_ends_program [of "\<lambda>k. of_nat (length k)" "[(CHR ''p'', ''1234'')]" "CHR ''x''" demo_server "''POSIX''" demo_conf
      "\<lambda>t. int (digits_val t)" open_machine list_cq "[]" "[(CHR ''w'', ''80'')]"]
  by (auto simp: hash_ok_def port_key_def demo_conf_def split: if_splits)

end
