(* ===== verification/Server_Service.thy ===== *)
theory Server_Service
  imports Server_Loop
begin

text \<open>
  What the server promises, as a specification: a sequential service that takes requests and performs them one at a
  time, in the order in which they came. The server of theory \<open>Server_Loop\<close>, with its threads and its shutdown, refines it.
\<close>

section \<open>The service\<close>

text \<open>The requests that wait, those that are done, and the consoles.\<close>

type_synonym service = "request list \<times> request list \<times> consoles"

inductive service_step :: "(request \<Rightarrow> request \<times> consoles \<Rightarrow> request \<times> consoles) \<Rightarrow> service \<Rightarrow> service \<Rightarrow> bool" for exec where
  submit: "rq_console r = None \<Longrightarrow> service_step exec (p, d, cs) (p @ [r\<lparr>rq_console := Some a\<rparr>], d, con_get a cs)"
| perform: "service_step exec (r # p, d, cs) (p, d @ [r], run_request exec r cs)"

text \<open>In the service nothing is lost and nothing is done out of order.\<close>

lemma service_steps_done:
  assumes "(service_step exec)\<^sup>*\<^sup>* (p, d, cs) (p', d', cs')"
  shows "\<exists>new. d @ p @ new = d' @ p'"
  using assms
proof (induction "(p', d', cs')" arbitrary: p' d' cs' rule: rtranclp_induct)
  case (step y)
  obtain p1 d1 cs1 where y: "y = (p1, d1, cs1)" by (cases y)
  with step.hyps(3) obtain new where new: "d @ p @ new = d1 @ p1" by blast
  from step.hyps(2) show ?case unfolding y
  proof cases
    case (submit r a)
    then show ?thesis using new by (intro exI [of _ "new @ [r\<lparr>rq_console := Some a\<rparr>]"]) (metis append.assoc)
  qed (use new in auto)
qed simp

section \<open>Refinement\<close>

definition service_of :: "('q \<Rightarrow> request list) \<Rightarrow> 'q cog_world \<Rightarrow> service" where
  "service_of items w = (items (requestQueue (srv w)), executed w, rm_consoles (srv w))"

text \<open>A step of the server is a step of the service, or none, unless the server crashes.\<close>

definition simulated :: "('q \<Rightarrow> request list) \<Rightarrow> (request \<Rightarrow> request \<times> consoles \<Rightarrow> request \<times> consoles) \<Rightarrow> 'q cog_world \<Rightarrow> 'q cog_world \<Rightarrow> bool" where
  "simulated items exec w w' \<longleftrightarrow>
     crashed w' \<or> service_of items w' = service_of items w \<or> service_step exec (service_of items w) (service_of items w')"

lemma simulated_same [intro]: "service_of items w' = service_of items w \<Longrightarrow> simulated items exec w w'"
  by (simp add: simulated_def)

lemma service_of_at [simp]: "service_of items (w\<lparr>loop_at := pc\<rparr>) = service_of items w"
  by (simp add: service_of_def)

lemma stop_server_keeps:
  "requestQueue (srv (stop_server c w)) = requestQueue (srv w)" "executed (stop_server c w) = executed w"
  "rm_consoles (srv (stop_server c w)) = rm_consoles (srv w)"
  by (cases c; simp add: stop_server_def)+

lemma join_server_keeps:
  assumes "join_server c w = Some w1"
  shows "requestQueue (srv w1) = requestQueue (srv w) \<and> executed w1 = executed w \<and> rm_consoles (srv w1) = rm_consoles (srv w)"
  using join_server_spec(1) [OF assms] by (cases c) simp_all

lemma serve_one_simulated:
  assumes "cq_laws qo items canceled" "serve_one qo exec stops w = Some (res, w1)"
  shows "simulated items exec w (w1\<lparr>loop_at := pc\<rparr>)"
  using assms
proof (cases rule: serve_one_cases)
  case (serve r q)
  then have "service_of items w = (r # items q, executed w, rm_consoles (srv w))"
    "service_of items w1 = (items q, executed w @ [r], run_request exec r (rm_consoles (srv w)))"
    by (simp_all add: service_of_def)
  then show ?thesis using service_step.perform by (simp add: simulated_def)
qed auto

lemma loop_step_simulated:
  assumes laws: "cq_laws qo items canceled" and step: "loop_step qo exec stops w = Some w'"
  shows "simulated items exec w w'"
proof (cases "0 < getRequestQueueSize qo (srv w) \<and> loop_at w \<in> {L_inner, L_drain}")
  case True
  then obtain res w1 where s: "serve_one qo exec stops w = Some (res, w1)"
    using step by (auto simp: loop_step_def Let_def split: option.splits)
  with True step have "crashed w' \<or> (\<exists>pc. w' = w1\<lparr>loop_at := pc\<rparr>)"
    by (auto simp: loop_step_def Let_def split: sum.splits)
  then show ?thesis using serve_one_simulated [OF laws s] by (auto simp: simulated_def)
next
  case False
  have "service_of items w' = service_of items w"
    using False step
    by (cases "loop_at w") (auto simp: loop_step_def Let_def service_of_def stop_server_keeps cq_lawsD(11) [OF laws]
        dest!: join_server_keeps split: option.splits if_splits sum.splits prod.splits)
  then show ?thesis by (rule simulated_same)
qed

lemma cog_do_simulated:
  assumes laws: "cq_laws qo items canceled" and step: "cog_do qo exec stops ev w = Some w'"
  shows "simulated items exec w w'"
proof (cases ev)
  case Loop
  with step show ?thesis using loop_step_simulated [OF laws] by simp
next
  case (Command n r)
  then have "do_command qo n r w = Some w'" using step by simp
  with laws show ?thesis
  proof (cases rule: do_command_cases)
    case (queued ns q)
    then have "service_of items w' = (items (requestQueue (srv w)) @ [r\<lparr>rq_console := Some n\<rparr>], executed w, con_get n (rm_consoles (srv w)))"
      by (simp add: service_of_def)
    with queued(4) service_step.submit show ?thesis by (simp add: simulated_def service_of_def [of items w])
  qed (simp add: simulated_def)
next
  case (Handler_serve n)
  then obtain res w1 where s: "serve_one qo exec stops w = Some (res, w1)" and w': "crashed w' \<or> w' = w1"
    using step by (auto simp: do_handler_serve_def split: if_splits option.splits sum.splits)
  have "w1 = w1\<lparr>loop_at := loop_at w1\<rparr>" by simp
  with serve_one_simulated [OF laws s, of "loop_at w1"] w' show ?thesis by (auto simp: simulated_def)
next
  case (Accept now k n)
  with step show ?thesis
    by (cases k) (auto simp: do_accept_def service_of_def split: option.splits if_splits)
qed (use step in \<open>auto simp: do_hangup_def do_close_def do_stop_def cog_stop_def service_of_def cq_lawsD(9) [OF laws] split: if_splits\<close>)

lemma refines_service:
  assumes "cq_laws qo items canceled" "(cog_step qo exec stops)\<^sup>*\<^sup>* (started_world s) w"
    and "items (requestQueue s) = []" "\<not> crashed w"
  shows "(service_step exec)\<^sup>*\<^sup>* ([], [], rm_consoles s) (service_of items w)"
  using assms(2,4)
proof (induction rule: rtranclp_induct)
  case base
  have "service_of items (started_world s) = ([], [], rm_consoles s)"
    using assms(3) by (simp add: service_of_def started_world_def)
  then show ?case by simp
next
  case (step y z)
  from step.hyps(2) obtain ev where "\<not> crashed y" "cog_do qo exec stops ev y = Some z" by (auto elim: cog_stepE)
  with cog_do_simulated [OF assms(1)] step.prems step.IH show ?case
    by (metis simulated_def rtranclp.rtrancl_into_rtrancl)
qed

text \<open>
  C7. The server refines the sequential service: in every interleaving of the main loop, the connection handlers and the
  stop, what is queued, what has been done and what the consoles have seen is a state that the service reaches from
  the same start by taking requests and performing the oldest one, as long as the server does not crash.
\<close>

theorem server_refines_service:
  assumes "cq_laws qo items canceled" "(cog_step qo exec stops)\<^sup>*\<^sup>* (started_world s) w"
    and "items (requestQueue s) = []" "\<not> crashed w"
  shows "(service_step exec)\<^sup>*\<^sup>* ([], [], rm_consoles s) (service_of items w)"
  by (rule refines_service [OF assms])

theorem server_refines_service_witness:
  "(service_step plain_exec)\<^sup>*\<^sup>* ([], [], rm_consoles loop_server) (service_of fst orderly_end)"
proof (rule server_refines_service)
  show "\<not> crashed orderly_end" by code_simp
qed (rule list_cq_laws, rule cog_run_reach [OF orderly_runs], simp add: loop_server_idle)

end
