(* ===== verification/Proxy.thy ===== *)
theory Proxy
  imports Cog_Prelude "HOL-Library.Word"
begin

text \<open>
  The proxy agents of \<^verbatim>\<open>attic/proxy\<close>: commands that arrive at an s-expression shell are decoded and then passed on, by
  callbacks, to the storage nodes of the AtomSpace. The AtomSpace, the storage nodes and the decoder belong to other
  libraries and are arguments; what is relied on is stated as \<open>store_laws\<close> and \<open>fetch_laws\<close>.
\<close>

section \<open>What a proxy is built on\<close>

type_synonym atom_type = "16 word"

text \<open>The storage node \<open>'n\<close> works on a world \<open>'w\<close>, which holds the AtomSpace and what the nodes have stored.\<close>

record ('n, 'h, 'v, 'w) storage_ops =
  st_connected :: "'n \<Rightarrow> 'w \<Rightarrow> bool"
  st_barrier :: "'n \<Rightarrow> 'w \<Rightarrow> 'w"
  st_remove_atom :: "'n \<Rightarrow> 'h \<Rightarrow> bool \<Rightarrow> 'w \<Rightarrow> 'w"
  st_store_value :: "'n \<Rightarrow> 'h \<Rightarrow> 'h \<Rightarrow> 'w \<Rightarrow> 'w"
  st_store_atom :: "'n \<Rightarrow> 'h \<Rightarrow> 'w \<Rightarrow> 'w"
  st_update_value :: "'n \<Rightarrow> 'h \<Rightarrow> 'h \<Rightarrow> 'v \<Rightarrow> 'w \<Rightarrow> 'w"
  st_fetch_type :: "'n \<Rightarrow> atom_type \<Rightarrow> 'w \<Rightarrow> 'w"
  st_fetch_incoming :: "'n \<Rightarrow> 'h \<Rightarrow> 'w \<Rightarrow> 'w"
  st_fetch_incoming_by_type :: "'n \<Rightarrow> 'h \<Rightarrow> atom_type \<Rightarrow> 'w \<Rightarrow> 'w"
  st_fetch_atom :: "'n \<Rightarrow> 'h \<Rightarrow> 'w \<Rightarrow> 'w"
  st_fetch_value :: "'n \<Rightarrow> 'h \<Rightarrow> 'h \<Rightarrow> 'w \<Rightarrow> 'w"

record ('a, 'n, 'h, 'w) space_ops =
  sp_read_only :: "'a \<Rightarrow> 'w \<Rightarrow> bool"
  sp_storage_nodes :: "'a \<Rightarrow> 'w \<Rightarrow> 'n list"
  sp_add_predicate :: "'a \<Rightarrow> string \<Rightarrow> 'w \<Rightarrow> 'h \<times> 'w"

text \<open>The base class: the AtomSpace, the key for truth values once there is one, the targets, and what the decoder works on.\<close>

record ('a, 'n, 'h) thru_commands =
  tc_as :: "'a option"
  tc_truth_key :: "'h option"
  tc_targets :: "'n list"
  tc_decoder_space :: "'a option"

definition new_thru :: "('a, 'n, 'h) thru_commands" where
  "new_thru = \<lparr>tc_as = None, tc_truth_key = None, tc_targets = [], tc_decoder_space = None\<rparr>"

definition thru_init ::
  "('a, 'n, 'h, 'w) space_ops \<Rightarrow> ('n, 'h, 'v, 'w) storage_ops \<Rightarrow> 'a \<Rightarrow> 'w \<Rightarrow> ('a, 'n, 'h) thru_commands \<Rightarrow> ('a, 'n, 'h) thru_commands" where
  "thru_init sp so asp w t =
     (let t1 = t\<lparr>tc_as := Some asp\<rparr>
      in if sp_read_only sp asp w then t1
         else t1\<lparr>tc_decoder_space := Some asp, tc_targets := filter (\<lambda>n. st_connected so n w) (sp_storage_nodes sp asp w)\<rparr>)"

text \<open>Every target, in order.\<close>

definition for_targets :: "('n \<Rightarrow> 'w \<Rightarrow> 'w) \<Rightarrow> ('a, 'n, 'h) thru_commands \<Rightarrow> 'w \<Rightarrow> 'w" where
  "for_targets f t w = fold f (tc_targets t) w"

section \<open>Writing through\<close>

text \<open>The callbacks that the decoder is told to call, and the commands whose decoding is taken over.\<close>

definition WriteThru :: "string list" where
  "WriteThru = [''extract'', ''extract_recursive'', ''set_value'', ''set_values'', ''set_tv'', ''update_value'']"

definition write_setup :: "(string \<times> string) list \<Rightarrow> (string \<times> string) list" where
  "write_setup hs = hs @
     [(''cog-extract!'', ''cog_extract''), (''cog-extract-recursive!'', ''cog_extract_recursive''),
      (''cog-set-value!'', ''cog_set_value''), (''cog-set-values!'', ''cog_set_values''),
      (''cog-set-tv!'', ''cog_set_tv''), (''cog-update-value!'', ''cog_update_value'')]"

definition extract_cb :: "('n, 'h, 'v, 'w) storage_ops \<Rightarrow> 'h \<Rightarrow> bool \<Rightarrow> ('a, 'n, 'h) thru_commands \<Rightarrow> 'w \<Rightarrow> 'w" where
  "extract_cb so h flag = for_targets (\<lambda>n. st_remove_atom so n h flag)"

definition set_value_cb :: "('n, 'h, 'v, 'w) storage_ops \<Rightarrow> 'h \<Rightarrow> 'h \<Rightarrow> 'v \<Rightarrow> ('a, 'n, 'h) thru_commands \<Rightarrow> 'w \<Rightarrow> 'w" where
  "set_value_cb so atom key v = for_targets (\<lambda>n. st_store_value so n atom key)"

definition set_values_cb :: "('n, 'h, 'v, 'w) storage_ops \<Rightarrow> 'h \<Rightarrow> ('a, 'n, 'h) thru_commands \<Rightarrow> 'w \<Rightarrow> 'w" where
  "set_values_cb so atom = for_targets (\<lambda>n. st_store_atom so n atom)"

definition set_tv_cb ::
  "('a, 'n, 'h, 'w) space_ops \<Rightarrow> ('n, 'h, 'v, 'w) storage_ops \<Rightarrow> 'h \<Rightarrow> ('a, 'n, 'h) thru_commands \<times> 'w \<Rightarrow>
   unit res \<times> ('a, 'n, 'h) thru_commands \<times> 'w" where
  "set_tv_cb sp so ha tw =
     (case tw of (t, w) \<Rightarrow>
      (case tc_truth_key t of
         Some key \<Rightarrow> (Inr (), t, for_targets (\<lambda>n. st_store_value so n ha key) t w)
       | None \<Rightarrow>
           (case tc_as t of
              None \<Rightarrow> (Inl Null_pointer, t, w)
            | Some asp \<Rightarrow>
                (case sp_add_predicate sp asp ''*-TruthValueKey-*'' w of (key, w1) \<Rightarrow>
                   (Inr (), t\<lparr>tc_truth_key := Some key\<rparr>, for_targets (\<lambda>n. st_store_value so n ha key) t w1)))))"

definition update_value_cb :: "('n, 'h, 'v, 'w) storage_ops \<Rightarrow> 'h \<Rightarrow> 'h \<Rightarrow> 'v \<Rightarrow> ('a, 'n, 'h) thru_commands \<Rightarrow> 'w \<Rightarrow> 'w" where
  "update_value_cb so atom key delta = for_targets (\<lambda>n. st_update_value so n atom key delta)"

section \<open>Reading through\<close>

definition ReadThru :: "string list" where
  "ReadThru = [''get_atoms'', ''incoming_set'', ''incoming_by_type'', ''keys_alist'', ''node'', ''link'', ''value'']"

definition read_setup :: "(string \<times> string) list \<Rightarrow> (string \<times> string) list" where
  "read_setup hs = hs @
     [(''cog-get-atoms'', ''cog_get_atoms''), (''cog-incoming-by-type'', ''cog_incoming_by_type''),
      (''cog-incoming-set'', ''cog_incoming_set''), (''cog-keys->alist'', ''cog_keys_alist''),
      (''cog-link'', ''cog_link''), (''cog-node'', ''cog_node''), (''cog-value'', ''cog_value'')]"

text \<open>
  The types that the loop of \<^verbatim>\<open>get_atoms_cb\<close> goes through: from the next one, counted in 16 bits, to the last; \<open>isA\<close> and the
  number of types are the name server's.
\<close>

definition types_above :: "atom_type \<Rightarrow> atom_type \<Rightarrow> atom_type list" where
  "types_above n t = map of_nat [unat (t + 1) ..< unat n]"

definition fetched_types :: "(atom_type \<Rightarrow> atom_type \<Rightarrow> bool) \<Rightarrow> atom_type \<Rightarrow> atom_type \<Rightarrow> bool \<Rightarrow> atom_type list" where
  "fetched_types isA n t get_subtypes =
     t # (if get_subtypes then filter (\<lambda>t'. isA t' t) (types_above n t) else [])"

definition get_atoms_cb ::
  "(atom_type \<Rightarrow> atom_type \<Rightarrow> bool) \<Rightarrow> atom_type \<Rightarrow> ('n, 'h, 'v, 'w) storage_ops \<Rightarrow> atom_type \<Rightarrow> bool \<Rightarrow>
   ('a, 'n, 'h) thru_commands \<Rightarrow> 'w \<Rightarrow> 'w" where
  "get_atoms_cb isA n so t get_subtypes tc w =
     for_targets (st_barrier so) tc
       (for_targets (\<lambda>nd. fold (st_fetch_type so nd) (fetched_types isA n t get_subtypes)) tc w)"

definition incoming_set_cb :: "('n, 'h, 'v, 'w) storage_ops \<Rightarrow> 'h \<Rightarrow> ('a, 'n, 'h) thru_commands \<Rightarrow> 'w \<Rightarrow> 'w" where
  "incoming_set_cb so h tc w =
     for_targets (st_barrier so) tc (for_targets (\<lambda>n. st_fetch_incoming so n h) tc w)"

definition incoming_by_type_cb :: "('n, 'h, 'v, 'w) storage_ops \<Rightarrow> 'h \<Rightarrow> atom_type \<Rightarrow> ('a, 'n, 'h) thru_commands \<Rightarrow> 'w \<Rightarrow> 'w" where
  "incoming_by_type_cb so h t tc w =
     for_targets (st_barrier so) tc (for_targets (\<lambda>n. st_fetch_incoming_by_type so n h t) tc w)"

text \<open>The last three fetch the atom, from one target after the other; so does \<^verbatim>\<open>keys_alist_cb\<close>.\<close>

definition keys_alist_cb :: "('n, 'h, 'v, 'w) storage_ops \<Rightarrow> 'h \<Rightarrow> ('a, 'n, 'h) thru_commands \<Rightarrow> 'w \<Rightarrow> 'w" where
  "keys_alist_cb so h = for_targets (\<lambda>n w. st_barrier so n (st_fetch_atom so n h w))"

definition node_cb :: "('n, 'h, 'v, 'w) storage_ops \<Rightarrow> 'h \<Rightarrow> ('a, 'n, 'h) thru_commands \<Rightarrow> 'w \<Rightarrow> 'w" where
  "node_cb so h = for_targets (\<lambda>n w. st_barrier so n (st_fetch_atom so n h w))"

definition link_cb :: "('n, 'h, 'v, 'w) storage_ops \<Rightarrow> 'h \<Rightarrow> ('a, 'n, 'h) thru_commands \<Rightarrow> 'w \<Rightarrow> 'w" where
  "link_cb so h = for_targets (\<lambda>n w. st_barrier so n (st_fetch_atom so n h w))"

definition value_cb :: "('n, 'h, 'v, 'w) storage_ops \<Rightarrow> 'h \<Rightarrow> 'h \<Rightarrow> ('a, 'n, 'h) thru_commands \<Rightarrow> 'w \<Rightarrow> 'w" where
  "value_cb so atom key = for_targets (\<lambda>n w. st_barrier so n (st_fetch_value so n atom key w))"

section \<open>The agents\<close>

text \<open>\<^verbatim>\<open>setup\<close> of the two modules: the wrapper is initialised, then the handlers are installed, in any case.\<close>

definition WriteThruProxy_setup ::
  "('a, 'n, 'h, 'w) space_ops \<Rightarrow> ('n, 'h, 'v, 'w) storage_ops \<Rightarrow> 'a \<Rightarrow> 'w \<Rightarrow>
   ('a, 'n, 'h) thru_commands \<times> (string \<times> string) list \<Rightarrow> ('a, 'n, 'h) thru_commands \<times> (string \<times> string) list" where
  "WriteThruProxy_setup sp so asp w th = (case th of (t, hs) \<Rightarrow> (thru_init sp so asp w t, write_setup hs))"

definition ReadThruProxy_setup ::
  "('a, 'n, 'h, 'w) space_ops \<Rightarrow> ('n, 'h, 'v, 'w) storage_ops \<Rightarrow> 'a \<Rightarrow> 'w \<Rightarrow>
   ('a, 'n, 'h) thru_commands \<times> (string \<times> string) list \<Rightarrow> ('a, 'n, 'h) thru_commands \<times> (string \<times> string) list" where
  "ReadThruProxy_setup sp so asp w th = (case th of (t, hs) \<Rightarrow> (thru_init sp so asp w t, read_setup hs))"

section \<open>Results\<close>

text \<open>
  What is relied on. \<open>held a k w\<close> is the value that the AtomSpace has for atom \<open>a\<close> and key \<open>k\<close>, \<open>stored n a k w\<close> the one at
  the node \<open>n\<close>. Storing copies the first to the second; fetching, once the barrier has been passed, the second to the first,
  if there is one.
\<close>

definition store_laws ::
  "('n, 'h, 'v, 'w) storage_ops \<Rightarrow> ('h \<Rightarrow> 'h \<Rightarrow> 'w \<Rightarrow> 'v option) \<Rightarrow> ('n \<Rightarrow> 'h \<Rightarrow> 'h \<Rightarrow> 'w \<Rightarrow> 'v option) \<Rightarrow> bool" where
  "store_laws so held stored \<longleftrightarrow>
     (\<forall>n a k w b j. held b j (st_store_value so n a k w) = held b j w)
   \<and> (\<forall>n a k w m b j. stored m b j (st_store_value so n a k w) =
        (if m = n \<and> b = a \<and> j = k then held a k w else stored m b j w))"

definition fetch_laws ::
  "('n, 'h, 'v, 'w) storage_ops \<Rightarrow> ('h \<Rightarrow> 'h \<Rightarrow> 'w \<Rightarrow> 'v option) \<Rightarrow> ('n \<Rightarrow> 'h \<Rightarrow> 'h \<Rightarrow> 'w \<Rightarrow> 'v option) \<Rightarrow> bool" where
  "fetch_laws so held stored \<longleftrightarrow>
     (\<forall>n a k w. held a k (st_barrier so n (st_fetch_value so n a k w)) =
        (case stored n a k w of Some v \<Rightarrow> Some v | None \<Rightarrow> held a k w))
   \<and> (\<forall>n a k w m b j. stored m b j (st_barrier so n (st_fetch_value so n a k w)) = stored m b j w)"

lemma store_all:
  assumes "store_laws so held stored"
  shows "held b j (fold (\<lambda>n. st_store_value so n a k) ns w) = held b j w
    \<and> stored m b j (fold (\<lambda>n. st_store_value so n a k) ns w) =
      (if m \<in> set ns \<and> b = a \<and> j = k then held a k w else stored m b j w)"
  using assms by (induction ns arbitrary: w) (auto simp: store_laws_def)


lemma fetch_all:
  assumes "fetch_laws so held stored"
  shows "held a k (fold (\<lambda>n w. st_barrier so n (st_fetch_value so n a k w)) ns w) =
    fold (\<lambda>n v. case stored n a k w of Some x \<Rightarrow> Some x | None \<Rightarrow> v) ns (held a k w)"
  using assms
proof (induction ns arbitrary: w)
  case (Cons n ns)
  let ?w = "st_barrier so n (st_fetch_value so n a k w)"
  from Cons.prems have "held a k ?w = (case stored n a k w of Some v \<Rightarrow> Some v | None \<Rightarrow> held a k w)"
    "\<And>m. stored m a k ?w = stored m a k w" by (simp_all add: fetch_laws_def)
  with Cons.IH [OF Cons.prems, of ?w] show ?case by simp
qed simp

lemma fold_none: "\<forall>m \<in> set ns. f m = None \<Longrightarrow> fold (\<lambda>n v. case f n of Some x \<Rightarrow> Some x | None \<Rightarrow> v) ns v = v"
  by (induction ns arbitrary: v) auto

text \<open>
  A value that is asked for at a server with a read-through proxy is the one of the last target that has it, in the
  order in which the AtomSpace lists its open storage nodes; when none has it, the AtomSpace keeps its own.
\<close>

theorem read_thru_last_wins:
  assumes "fetch_laws so held stored" "tc_targets t = before @ after"
    and "\<forall>m \<in> set after. stored m a k w = None"
    and "before = [] \<or> stored (last before) a k w \<noteq> None"
  shows "held a k (value_cb so a k t w) = (if before = [] then held a k w else stored (last before) a k w)"
proof -
  let ?f = "\<lambda>n v. case stored n a k w of Some x \<Rightarrow> Some x | None \<Rightarrow> v"
  have "held a k (value_cb so a k t w) = fold ?f after (fold ?f before (held a k w))"
    using fetch_all [OF assms(1), of a k "tc_targets t" w] by (simp add: value_cb_def for_targets_def assms(2))
  also have "\<dots> = fold ?f before (held a k w)" using fold_none [OF assms(3)] .
  also have "\<dots> = (if before = [] then held a k w else stored (last before) a k w)"
    using assms(4) by (cases before rule: rev_cases) auto
  finally show ?thesis .
qed

lemma small_type: "i < unat (n :: atom_type) \<Longrightarrow> unat (of_nat i :: atom_type) = i"
  using unsigned_less [of n, where 'a = nat] by (simp add: unsigned_of_nat take_bit_nat_eq_self)

lemma set_types_above: "set (types_above n t) = {t'. t + 1 \<le> t' \<and> t' < n}"
proof -
  have "t' \<in> of_nat ` {unat (t + 1) ..< unat n} \<longleftrightarrow> t + 1 \<le> t' \<and> t' < n" for t'
  proof
    assume "t' \<in> of_nat ` {unat (t + 1) ..< unat n}"
    then obtain i where i: "t' = of_nat i" "unat (t + 1) \<le> i" "i < unat n" by auto
    then have "unat t' = i" using small_type by simp
    with i show "t + 1 \<le> t' \<and> t' < n" by (simp add: word_le_nat_alt word_less_nat_alt)
  next
    assume "t + 1 \<le> t' \<and> t' < n"
    then show "t' \<in> of_nat ` {unat (t + 1) ..< unat n}"
      by (intro image_eqI [of _ _ "unat t'"]) (simp_all add: word_le_nat_alt word_less_nat_alt)
  qed
  then show ?thesis by (auto simp: types_above_def)
qed

text \<open>
  With subtypes, a target is asked once for the type and for every type of a higher number that is one of its subtypes, and for
  no other; so nothing is missing as long as subtypes have higher numbers. The type with the highest number of all is
  followed by number 0: asked for that one, the proxy goes through all types.
\<close>

theorem fetched_types_subtypes:
  "set (fetched_types isA n t True) = {t} \<union> {t'. t + 1 \<le> t' \<and> t' < n \<and> isA t' t}"
  "distinct (types_above n t)" "set (types_above n (- 1)) = {t'. t' < n}"
proof -
  show "set (fetched_types isA n t True) = {t} \<union> {t'. t + 1 \<le> t' \<and> t' < n \<and> isA t' t}"
    by (auto simp: fetched_types_def set_types_above)
  show "distinct (types_above n t)"
    unfolding types_above_def distinct_map
    by (auto intro!: inj_onI dest!: arg_cong [where f = unat] simp: small_type)
  show "set (types_above n (- 1)) = {t'. t' < n}" by (simp add: set_types_above)
qed

text \<open>
  On a read-only AtomSpace nothing is to be proxied, as the log says. The handlers are installed all the same, while the decoder
  has not been told what AtomSpace to work on, and the targets of an earlier setup stay.
\<close>

theorem read_only_still_installs:
  assumes "sp_read_only sp asp w"
  shows "WriteThruProxy_setup sp so asp w (t, hs) = (t\<lparr>tc_as := Some asp\<rparr>, write_setup hs)"
    "tc_decoder_space (fst (WriteThruProxy_setup sp so asp w (new_thru, hs))) = None"
  using assms by (simp_all add: WriteThruProxy_setup_def thru_init_def new_thru_def)

section \<open>A concrete world\<close>

text \<open>Two storage nodes, the second one closed; the world is the AtomSpace and what they store.\<close>

type_synonym demo_world = "(nat \<times> nat \<Rightarrow> nat option) \<times> (nat \<Rightarrow> nat \<times> nat \<Rightarrow> nat option)"

definition demo_storage :: "(nat, nat, nat, demo_world) storage_ops" where
  "demo_storage =
     \<lparr>st_connected = (\<lambda>n w. n \<noteq> 1), st_barrier = (\<lambda>n w. w), st_remove_atom = (\<lambda>n h flag w. w),
      st_store_value = (\<lambda>n a k (v, s). (v, s(n := (s n)((a, k) := v (a, k))))),
      st_store_atom = (\<lambda>n a w. w), st_update_value = (\<lambda>n a k d w. w), st_fetch_type = (\<lambda>n t w. w),
      st_fetch_incoming = (\<lambda>n h w. w), st_fetch_incoming_by_type = (\<lambda>n h t w. w), st_fetch_atom = (\<lambda>n h w. w),
      st_fetch_value = (\<lambda>n a k (v, s). (v((a, k) := (case s n (a, k) of Some x \<Rightarrow> Some x | None \<Rightarrow> v (a, k))), s))\<rparr>"

definition demo_space :: "(unit, nat, nat, demo_world) space_ops" where
  "demo_space = \<lparr>sp_read_only = (\<lambda>a w. False), sp_storage_nodes = (\<lambda>a w. [0, 1, 2]), sp_add_predicate = (\<lambda>a s w. (9, w))\<rparr>"

definition demo_held :: "nat \<Rightarrow> nat \<Rightarrow> demo_world \<Rightarrow> nat option" where
  "demo_held a k w = fst w (a, k)"

definition demo_stored :: "nat \<Rightarrow> nat \<Rightarrow> nat \<Rightarrow> demo_world \<Rightarrow> nat option" where
  "demo_stored n a k w = snd w n (a, k)"

lemma demo_storage_laws: "store_laws demo_storage demo_held demo_stored" "fetch_laws demo_storage demo_held demo_stored"
  by (auto simp: store_laws_def fetch_laws_def demo_storage_def demo_held_def demo_stored_def split: option.splits)

definition demo_proxy :: "(unit, nat, nat) thru_commands" where
  "demo_proxy = fst (WriteThruProxy_setup demo_space demo_storage () (\<lambda>_. None, \<lambda>_ _. None) (new_thru, []))"


theorem read_thru_last_wins_witness:
  "demo_held 5 6 (value_cb demo_storage 5 6 demo_proxy (\<lambda>_. Some 1, (\<lambda>_ _. None)(0 := (\<lambda>_. Some 3)))) = Some 3"
  using read_thru_last_wins [OF demo_storage_laws(2), of demo_proxy "[0]" "[2]" 5 6 "(\<lambda>_. Some 1, (\<lambda>_ _. None)(0 := (\<lambda>_. Some 3)))"]
  by (simp add: demo_stored_def demo_proxy_def WriteThruProxy_setup_def thru_init_def new_thru_def demo_space_def demo_storage_def)

end
