(* ===== verification/Spec2Isabelle.thy ===== *)
theory Spec2Isabelle
  imports WebSocket_RFC Connection Socket_Life Telnet_Shell Mcp_Session Mcp_Client Shell_Modules Cog_Main Server_Service Proxy
begin

text \<open>
  \<^bold>\<open>The CogServer\<close>

  The CogServer is a network front end for an AtomSpace: a telnet port with a command prompt and shells, a web port with
  plain HTTP, static pages and WebSockets, and a port for the Model Context Protocol (MCP). All paths are under
  \<^verbatim>\<open>src/opencog\<close>.

  \<^bold>\<open>Parts and how they work together.\<close> A \<^verbatim>\<open>NetworkServer\<close> listens on each port. For every connection it runs a thread with a
  \<^verbatim>\<open>ServerSocket\<close> (\<^verbatim>\<open>handle_connection\<close>), which reads telnet lines, HTTP requests or WebSocket frames and hands each to the virtual
  \<^verbatim>\<open>OnLine\<close>. The \<^verbatim>\<open>SocketManager\<close> limits the number of connections and has the barriers. \<^verbatim>\<open>ServerConsole\<close> turns a line into a
  \<^verbatim>\<open>Request\<close> that the main loop of \<^verbatim>\<open>CogServer\<close> executes, or passes it to the shell of the connection; \<^verbatim>\<open>WebServer\<close> and \<^verbatim>\<open>MCPServer\<close> do the
  same for their protocols. A \<^verbatim>\<open>GenericShell\<close> runs an evaluator in threads of its own. Commands and shells come from modules
  that the \<^verbatim>\<open>ModuleManager\<close> loads. \<^verbatim>\<open>CogServerNode\<close> starts and stops the whole.

  \<^bold>\<open>The theories.\<close>
  \<^item> \<open>Cog_Prelude\<close>: exceptions as values (\<open>res\<close>), methods as actions on an object (\<open>act\<close>), bytes, and the part of the C++ library that
    is used on strings. \<open>Std_Map\<close>: \<^verbatim>\<open>std::map\<close> as a locale \<open>string_map\<close> and its interpretation.
  \<^item> \<open>Server_Socket\<close>, \<open>Net_Input\<close>, \<open>WebSocket\<close>, \<open>Connection\<close> (\<^verbatim>\<open>network/ServerSocket.cc\<close>, \<^verbatim>\<open>network/WebSocket.cc\<close>): the socket, reading, frames
    and handshake, and the loop of a connection. The socket is a list of chunks and errors. Lines and HTTP bodies are
    delivered completely and in order, however the network cuts them up. The locale \<open>line_handler\<close> is what the loop needs of \<^verbatim>\<open>OnLine\<close>, and
    \<open>line_service\<close> adds the effect of the lines; the command prompt, the scheme shell and the MCP server interpret it. A malformed \<^verbatim>\<open>Content-Length\<close> ends the server.
    \<open>WebSocket_RFC\<close> has a client after RFC 6455 and the round trips in both directions; \<open>Base64\<close> has both routines against a
    reference.
  \<^item> \<open>Slots\<close>, \<open>Socket_Manager\<close> (\<^verbatim>\<open>network/SocketManager.cc\<close>, \<^verbatim>\<open>network/ConsoleSocket.cc\<close>): the limit on connections and the two barriers as state
    machines over their critical sections; the registry, pings, kill and statistics as functions. \<open>Socket_Life\<close> puts them together with
    the constructor and the destructor of the connections: the registry only holds live sockets, within the limit; and what the global
    barrier does on the registry refines its machine.
  \<^item> \<open>Generic_Shell\<close>, \<open>Shell_Input\<close>, \<open>Shell_Threads\<close>, \<open>Shell_Receiver\<close> (\<^verbatim>\<open>network/GenericShell.cc\<close>): the line discipline with its virtual
    methods; receiver, evaluator and poller as a step relation: commands are evaluated in order, and none is lost except
    by an interrupt, also at shutdown; and that the sequential \<^verbatim>\<open>eval\<close> is a run of the receiver in that relation. The locales
    \<open>work_queue\<close> and \<open>receiver\<close> hold what follows from the laws of the queue.
  \<^item> \<open>Requests\<close>, \<open>Console\<close> (\<^verbatim>\<open>cogserver/server/Request*.cc\<close>, \<^verbatim>\<open>ServerConsole.cc\<close>): the command registry and queue, the life of a request, the
    tokenizer and telnet negotiation. \<open>Telnet_Commands\<close> composes them with \<open>Connection\<close>: from the bytes of a telnet session to its
    executed commands, through the locale \<open>line_service\<close> of \<open>Connection\<close>. \<open>Telnet_Shell\<close> does the same for a script: from its bytes to the queue of the scheme shell.
  \<^item> \<open>Http_Response\<close>, \<open>Page_Server\<close>, \<open>Web_Server\<close> (\<^verbatim>\<open>PageServer.cc\<close>, \<^verbatim>\<open>WebServer.cc\<close>): the locale \<open>http_response\<close> says that a client that reads by
    \<^verbatim>\<open>Content-Length\<close> gets the body; it is interpreted for every response the server builds. No URL leaves the page directory.
  \<^item> \<open>Json\<close>, \<open>Mcp_Server\<close>, \<open>Mcp_Eval\<close>, \<open>Mcp_Plugins\<close> (\<^verbatim>\<open>MCPServer.cc\<close>, \<^verbatim>\<open>mcp-eval/McpEval.cc\<close>, \<^verbatim>\<open>mcp-tools/*.cc\<close>): cutting a line into JSON objects; the
    JSON-RPC evaluator with all its methods; the tools. The locale \<open>answering_eval\<close> is what the socket needs of an evaluator;
    \<^verbatim>\<open>McpEval\<close> interprets it. A line of requests is answered request by request. \<open>Mcp_Session\<close> composes them with \<open>Connection\<close>: a whole
    session with the port is answered request by request. \<open>Mcp_Client\<close> is the client
    \<^verbatim>\<open>examples/mcp/mcp-checker.cc\<close>; the locale \<open>line_link\<close> is what it needs of the network, interpreted by a network with the MCP
    server at its end, and the whole program is shown to succeed against that server.
  \<^item> \<open>Modules\<close> (\<^verbatim>\<open>ModuleManager.cc\<close>): search, load, unload and the destructor; the table stays well-formed. \<open>Network_Server\<close>,
    \<open>Cog_Server\<close>, \<open>Cog_Main\<close> (\<^verbatim>\<open>NetworkServer.cc\<close>, \<^verbatim>\<open>CogServer.cc\<close>, \<^verbatim>\<open>CogServerNode.cc\<close>, \<^verbatim>\<open>CogServerMain.cc\<close>): ports, start, stop, command line.
  \<^item> \<open>Server_Loop\<close> (\<^verbatim>\<open>CogServer::serverLoop\<close>): the main loop, the connection handlers and the stop as one step relation.
    \<open>Server_Service\<close> specifies a sequential service and shows that the server refines it.
  \<^item> \<open>Shells\<close>, \<open>Top_Shell\<close>, \<open>Builtin\<close>, \<open>Shell_Modules\<close> (\<^verbatim>\<open>cogserver/shell\<close>, \<^verbatim>\<open>cogserver/modules\<close>, \<^verbatim>\<open>Module.h\<close>): the shells; the evaluator and the shell
    of top; the built-in commands; and the modules as classes that the module manager loads. The locale \<open>module_contract\<close> says
    what a module owes to the command table; each module of the repository interprets it, and loading the default
    modules on a standard installation provides their commands. This theory composes the commands with the server loop.
  \<^item> \<open>Proxy\<close> (\<^verbatim>\<open>cogserver/attic/proxy\<close>): the read-through and write-through proxies, which are not built any more, over the
    storage nodes of the AtomSpace.

  \<^bold>\<open>Arguments of the model.\<close> Code that is not in the repository is an argument: the concurrent queue (\<open>cq_laws\<close> states what its
  documentation promises; \<open>list_cq\<close> satisfies it), the evaluators of the languages (\<open>eval_ops\<close>), the JSON library (\<open>json_lib\<close>), SHA1, the
  JSON commands of the AtomSpace, storage nodes, \<^verbatim>\<open>dispatch_hash\<close> and \<^verbatim>\<open>tokenize\<close>; also the operating system: files, clock, sockets,
  dynamic linker.

  \<^bold>\<open>Loops.\<close> \<open>conn_loop\<close> recurses on what is left to read. \<open>processRequests\<close>, \<open>collect_results\<close> and \<open>recv_loop\<close> are partial functions,
  where \<^const>\<open>None\<close> means that they do not return; \<open>processRequests_fifo\<close>, \<open>http_request_answered\<close> and \<open>checker_succeeds\<close> show that they
  do. \<open>loadModule\<close> has fuel for the depth of its calls: two is enough with absolute search directories (\<open>loadModule_returns\<close>),
  and no amount is enough for the search path \<^verbatim>\<open>.\<close> (\<open>dot_path_never_returns\<close>). Concurrency is interleaving of critical
  sections; memory models and torn reads are outside.

  \<^bold>\<open>Not modelled.\<close> Logging; bindings for Python and Scheme, generated type tables, the scripts
  among the examples, and tests.
\<close>

section \<open>The server with its built-in commands\<close>

text \<open>Everybody who has said goodbye is disconnected: an invariant of the sequential service.\<close>

definition goodbyes_heard :: "service \<Rightarrow> bool" where
  "goodbyes_heard sv \<longleftrightarrow> (case sv of (p, d, cs) \<Rightarrow>
     \<forall>r a. r \<in> set d \<longrightarrow> rci_id (rq_info r) \<in> set closing \<longrightarrow> rq_console r = Some a \<longrightarrow> \<not> rc_open (cs a))"

lemma goodbyes_heard_step:
  assumes "service_step (builtin_execute env) sv sv'" "goodbyes_heard sv"
    and "ce_module env = Some m" "stays_closed (ce_other env)"
  shows "goodbyes_heard sv'"
  using assms(1)
proof cases
  case (submit r p d cs a)
  then show ?thesis using assms(2) by (auto simp: goodbyes_heard_def con_get_def)
next
  case (perform r p d cs)
  have "\<not> rc_open (run_request (builtin_execute env) r cs a)"
    if "q \<in> set (d @ [r])" "rci_id (rq_info q) \<in> set closing" "rq_console q = Some a" for q a
  proof (cases "q \<in> set d")
    case True
    with assms(2) perform that have "\<not> rc_open (cs a)" by (auto simp: goodbyes_heard_def)
    then show ?thesis by (rule run_request_closed [OF builtin_stays_closed [OF assms(4)]])
  next
    case False
    with that have "q = r" by simp
    with that run_exit [OF _ _ assms(3)] show ?thesis by simp
  qed
  then show ?thesis unfolding perform goodbyes_heard_def by fastforce
qed

lemma goodbyes_heard_reach:
  assumes "(service_step (builtin_execute env))\<^sup>*\<^sup>* ([], [], cs) sv" "ce_module env = Some m" "stays_closed (ce_other env)"
  shows "goodbyes_heard sv"
  using assms(1)
proof (induction rule: rtranclp_induct)
  case base
  show ?case by (simp add: goodbyes_heard_def)
next
  case (step y z)
  from goodbyes_heard_step [OF step.hyps(2) step.IH assms(2,3)] show ?case .
qed

text \<open>
  C4. The server with its built-in commands, from start to shutdown, in every interleaving of the main loop, the
  connections and the stop: when the main loop has returned and the server has not crashed, every command that was
  queued has been performed, all ports are closed, no console is in use, and everybody who said goodbye, in any of
  the six ways, has been disconnected.
\<close>

theorem shutdown_serves_everyone:
  assumes "cq_laws qo items canceled" "(cog_step qo (builtin_execute env) stops)\<^sup>*\<^sup>* (started_world s) w"
    and "items (requestQueue s) = []" "\<And>a. rc_use_count (rm_consoles s a) = 0"
    and "ce_module env = Some m" "stays_closed (ce_other env)"
    and "\<And>r cs a. rq_console r = Some a \<Longrightarrow> settles a cs (ce_other env r (r, cs))"
    and "loop_at w = L_out" "\<not> crashed w"
  shows "executed w = pushed w \<and> ports_closed w \<and> rc_use_count (rm_consoles (srv w) a) = 0
    \<and> (r \<in> set (pushed w) \<longrightarrow> rci_id (rq_info r) \<in> set closing \<longrightarrow> rq_console r = Some a
         \<longrightarrow> \<not> rc_open (rm_consoles (srv w) a))"
proof -
  have "balanced (builtin_execute env)" using assms(7) by (rule builtin_balanced)
  from loop_inv_reach [OF assms(1) this assms(2-4)] assms(8,9)
  have all: "executed w = pushed w" "ports_closed w" "rc_use_count (rm_consoles (srv w) a) = 0"
    by (simp_all add: loop_inv_def accounts_def)
  moreover have "goodbyes_heard (service_of items w)"
    using refines_service [OF assms(1,2,3,9)] assms(5,6) by (rule goodbyes_heard_reach)
  ultimately show ?thesis by (auto simp: goodbyes_heard_def service_of_def)
qed

text \<open>A user who says goodbye, and another who shuts the server down.\<close>

definition goodbye_run :: "cog_event list" where
  "goodbye_run =
     [Accept 1 Telnet_conn 1, Accept 2 Telnet_conn 2, Command 1 (factory_create (close_info ''q'' ''q'' True)), Loop, Loop, Loop,
      Hangup 1, Close 1, Command 2 (factory_create shutdown_info), Loop, Loop, Hangup 2, Close 2] @ replicate 9 Loop"

abbreviation goodbye_result :: "(request list \<times> bool) cog_world option" where
  "goodbye_result \<equiv> cog_run list_cq (builtin_execute demo_commands) (\<lambda>r. rci_id (rq_info r) = ''shutdown'') goodbye_run (started_world loop_server)"

definition goodbye_end :: "(request list \<times> bool) cog_world" where
  "goodbye_end = the goodbye_result"

abbreviation goodbye_request :: request where
  "goodbye_request \<equiv> (factory_create (close_info ''q'' ''q'' True))\<lparr>rq_console := Some 1\<rparr>"

lemma goodbye_runs:
  "goodbye_result = Some goodbye_end" "loop_at goodbye_end = L_out" "\<not> crashed goodbye_end" "goodbye_request \<in> set (pushed goodbye_end)"
proof -
  have "case goodbye_result of None \<Rightarrow> False
      | Some w \<Rightarrow> loop_at w = L_out \<and> \<not> crashed w \<and> list_ex (\<lambda>r. r = goodbye_request) (pushed w)"
    by code_simp
  then show "goodbye_result = Some goodbye_end" "loop_at goodbye_end = L_out" "\<not> crashed goodbye_end"
    "goodbye_request \<in> set (pushed goodbye_end)"
    by (auto simp: goodbye_end_def list_ex_iff split: option.splits)
qed

theorem shutdown_serves_everyone_witness:
  "executed goodbye_end = pushed goodbye_end \<and> ports_closed goodbye_end \<and> rc_use_count (rm_consoles (srv goodbye_end) 1) = 0
    \<and> \<not> rc_open (rm_consoles (srv goodbye_end) 1)"
proof -
  have env: "ce_module demo_commands = Some 1" "stays_closed (ce_other demo_commands)"
    "\<And>r cs a. rq_console r = Some a \<Longrightarrow> settles a cs (ce_other demo_commands r (r, cs))"
    by (simp_all add: demo_commands_def stays_closed_def settles_same)
  have "rci_id (rq_info goodbye_request) \<in> set closing" "rq_console goodbye_request = Some 1"
    by (simp_all add: closing_def factory_create_def close_info_def command_info_def)
  with goodbye_runs(4) show ?thesis
    using shutdown_serves_everyone [OF list_cq_laws cog_run_reach [OF goodbye_runs(1)] loop_server_idle env goodbye_runs(2,3), of 1 goodbye_request]
    by blast
qed

end
